(* ===== verification/Broker_Prelude.thy ===== *)
theory Broker_Prelude
  imports Main "HOL-Library.Word" "HOL-Library.Char_ord" "HOL-Library.List_Lexorder"
    "HOL-Library.Code_Target_Nat" "HOL-Library.Code_Target_Int"
begin

section \<open>Prelude: result types, shared names and generic lemmas\<close>

text \<open>
  The types and facts every component of the development shares.
  \<^item> \<open>error\<close> and \<open>'a result\<close>: a Go function with result \<open>(T, error)\<close> is a HOL function into
    \<open>error + T\<close>, with \<open>Inl\<close> for a non-nil error. \<open>Panic\<close> is a run-time panic.
  \<^item> collections of facts (\<open>named_theorems\<close>) that the component proofs pass to the simplifier;
  \<^item> lemmas on powers of two, lists and maps.
\<close>

unbundle bit_operations_syntax

subsection \<open>Errors as values\<close>

text \<open>
  \<open>Errorf f as\<close> is \<open>fmt.Errorf\<close> or \<open>errors.New\<close> with message \<open>f\<close>, its verbs left in place and
  its arguments listed; \<open>Wrapf f as e\<close> is an error that wraps \<open>e\<close> with \<open>%w\<close>. \<open>LibErr\<close> is an
  error value made by a package the code calls (a parser, a query that finds no row), of which
  the code only tests that it is not nil.
\<close>

datatype error =
    Errorf string "string list"
  | Wrapf string "string list" error
  | ErrPoolExhausted
  | LibErr string
  | Panic

type_synonym 'a result = "error + 'a"

abbreviation Err :: "string \<Rightarrow> error + 'a" where
  "Err m \<equiv> Inl (Errorf m [])"

definition is_ok :: "'a result \<Rightarrow> bool" where
  "is_ok r = (case r of Inl _ \<Rightarrow> False | Inr _ \<Rightarrow> True)"

lemma is_ok_simps [simp]: "is_ok (Inr x)" "\<not> is_ok (Inl e)"
  by (simp_all add: is_ok_def)

lemma is_ok_iff: "is_ok r \<longleftrightarrow> (\<exists>x. r = Inr x)"
  by (cases r) auto

subsection \<open>Collections of facts\<close>

named_theorems netip_simps "equations of the address and prefix operations"
named_theorems wf_intros "well-formedness of what an operation returns"
named_theorems store_simps "frame equations of the store's operations"

subsection \<open>Powers of two, division and blocks\<close>

lemma div_pow_div_pow:
  fixes m :: nat
  shows "m div 2 ^ a div 2 ^ b = m div 2 ^ (a + b)"
  by (simp add: div_mult2_eq power_add)

lemma div_pow_mono:
  fixes m n :: nat
  assumes "m div 2 ^ a = n div 2 ^ a" and "a \<le> b"
  shows "m div 2 ^ b = n div 2 ^ b"
proof -
  from assms(2) obtain c where b: "b = a + c" by (metis le_Suc_ex)
  show ?thesis using assms(1) by (simp add: b flip: div_pow_div_pow)
qed

lemma mult_pow_div_pow:
  fixes m :: nat
  assumes "a \<le> b"
  shows "m * 2 ^ b div 2 ^ a = m * 2 ^ (b - a)"
proof -
  have "m * 2 ^ b = m * 2 ^ (b - a) * 2 ^ a"
    using assms by (simp add: mult.assoc flip: power_add)
  then show ?thesis by (metis nonzero_mult_div_cancel_right power_not_zero zero_neq_numeral)
qed

lemma div_eq_iff_range:
  fixes m q :: nat
  assumes "0 < d"
  shows "m div d = q \<longleftrightarrow> q * d \<le> m \<and> m < (q + 1) * d"
proof
  assume q: "m div d = q"
  have "m mod d < d" using assms by simp
  moreover have "m = q * d + m mod d" using q by (metis div_mult_mod_eq)
  ultimately show "q * d \<le> m \<and> m < (q + 1) * d" by (simp add: add.commute)
next
  assume "q * d \<le> m \<and> m < (q + 1) * d"
  then show "m div d = q"
    by (metis Suc_eq_plus1 div_nat_eqI mult.commute)
qed

subsection \<open>Evaluating shifts\<close>

lemma push_bit_word_code [code]: "push_bit n w = word_of_int (uint w * 2 ^ n)"
  for w :: "'a::len word"
  by (simp add: push_bit_eq_mult)

end
