(* ===== verification/Effects.thy ===== *)
theory Effects
  imports Broker_Prelude
begin

section \<open>Effectful Go functions as state transformers\<close>

text \<open>
  A Go method that changes state and may fail is an \<open>action\<close>: from a state to a result and the
  state it leaves, an error return included. \<open>andThen\<close> is a call followed by
  \<open>if err != nil { return err }\<close>; \<open>attempt\<close> hands the error to the caller as a value, for code
  that ignores or translates it; \<open>each\<close> is a loop that stops at the first error; \<open>zoom\<close> runs an
  action on a component of a larger state.

  \<open>triple P m Q E\<close> says of every state with \<open>P\<close> that \<open>m\<close> ends in \<open>Q\<close> with its value when it
  succeeds, and in \<open>E\<close> with its error when it fails. The actions are total functions, so this is
  total correctness.
\<close>

type_synonym ('s, 'a) action = "'s \<Rightarrow> 'a result \<times> 's"

definition return :: "'a \<Rightarrow> ('s, 'a) action" where
  "return x s = (Inr x, s)"

definition throw :: "error \<Rightarrow> ('s, 'a) action" where
  "throw e s = (Inl e, s)"

definition andThen :: "('s, 'a) action \<Rightarrow> ('a \<Rightarrow> ('s, 'b) action) \<Rightarrow> ('s, 'b) action" where
  "andThen m k s = (case m s of (Inl e, s') \<Rightarrow> (Inl e, s') | (Inr x, s') \<Rightarrow> k x s')"

definition attempt :: "('s, 'a) action \<Rightarrow> ('s, 'a result) action" where
  "attempt m s = (case m s of (r, s') \<Rightarrow> (Inr r, s'))"

definition require :: "bool \<Rightarrow> error \<Rightarrow> ('s, unit) action" where
  "require b e = (if b then return () else throw e)"

definition liftResult :: "'a result \<Rightarrow> ('s, 'a) action" where
  "liftResult r s = (r, s)"

definition reads :: "('s \<Rightarrow> 'a) \<Rightarrow> ('s, 'a) action" where
  "reads f s = (Inr (f s), s)"

definition modify :: "('s \<Rightarrow> 's) \<Rightarrow> ('s, unit) action" where
  "modify f s = (Inr (), f s)"

definition check :: "error option \<Rightarrow> ('s, unit) action" where
  "check r = (case r of None \<Rightarrow> return () | Some e \<Rightarrow> throw e)"

fun each :: "('x \<Rightarrow> ('s, unit) action) \<Rightarrow> 'x list \<Rightarrow> ('s, unit) action" where
  "each f [] = return ()"
| "each f (x # xs) = andThen (f x) (\<lambda>_. each f xs)"

definition zoom :: "('s \<Rightarrow> 'c) \<Rightarrow> (('c \<Rightarrow> 'c) \<Rightarrow> 's \<Rightarrow> 's) \<Rightarrow> ('c, 'a) action \<Rightarrow> ('s, 'a) action" where
  "zoom get upd m s = (case m (get s) of (r, c) \<Rightarrow> (r, upd (\<lambda>_. c) s))"

subsection \<open>Triples\<close>

definition triple ::
  "('s \<Rightarrow> bool) \<Rightarrow> ('s, 'a) action \<Rightarrow> ('a \<Rightarrow> 's \<Rightarrow> bool) \<Rightarrow> (error \<Rightarrow> 's \<Rightarrow> bool) \<Rightarrow> bool" where
  "triple P m Q E \<longleftrightarrow>
     (\<forall>s. P s \<longrightarrow> (case m s of (Inr x, s') \<Rightarrow> Q x s' | (Inl e, s') \<Rightarrow> E e s'))"

named_theorems triple_rules "rules of the triple calculus, one per construct"

lemma triple_weaken:
  assumes "triple P m Q E" "\<And>s. P' s \<Longrightarrow> P s" "\<And>x s. Q x s \<Longrightarrow> Q' x s" "\<And>e s. E e s \<Longrightarrow> E' e s"
  shows "triple P' m Q' E'"
  using assms unfolding triple_def by (fastforce split: prod.splits sum.splits)

lemma triple_pre: "triple P m Q E \<Longrightarrow> (\<And>s. P' s \<Longrightarrow> P s) \<Longrightarrow> triple P' m Q E"
  by (rule triple_weaken)

lemma triple_return [triple_rules]: "triple (Q x) (return x) Q E"
  by (simp add: triple_def return_def)

lemma triple_throw [triple_rules]: "triple (E e) (throw e) Q E"
  by (simp add: triple_def throw_def)

lemma triple_andThen [triple_rules]:
  assumes "\<And>x. triple (R x) (k x) Q E" "triple P m R E"
  shows "triple P (andThen m k) Q E"
  using assms unfolding triple_def andThen_def by (fastforce split: prod.splits sum.splits)

lemma triple_attempt [triple_rules]:
  assumes "triple P m (\<lambda>x. Q (Inr x)) (\<lambda>e. Q (Inl e))"
  shows "triple P (attempt m) Q E"
  using assms unfolding triple_def attempt_def by (fastforce split: prod.splits sum.splits)

lemma triple_require [triple_rules]: "triple (\<lambda>s. if b then Q () s else E e s) (require b e) Q E"
  by (simp add: triple_def require_def return_def throw_def)

lemma triple_liftResult [triple_rules]:
  "triple (\<lambda>s. case r of Inr x \<Rightarrow> Q x s | Inl e \<Rightarrow> E e s) (liftResult r) Q E"
  by (simp add: triple_def liftResult_def split: sum.split)

lemma triple_reads [triple_rules]: "triple (\<lambda>s. Q (f s) s) (reads f) Q E"
  by (simp add: triple_def reads_def)

lemma triple_modify [triple_rules]: "triple (\<lambda>s. Q () (f s)) (modify f) Q E"
  by (simp add: triple_def modify_def)

lemma triple_check [triple_rules]:
  "triple (\<lambda>s. case r of None \<Rightarrow> Q () s | Some e \<Rightarrow> E e s) (check r) Q E"
  by (simp add: triple_def check_def return_def throw_def split: option.split)

lemma triple_if [triple_rules]:
  assumes "b \<Longrightarrow> triple P m Q E" "\<not> b \<Longrightarrow> triple P' m' Q E"
  shows "triple (\<lambda>s. if b then P s else P' s) (if b then m else m') Q E"
  using assms by simp

lemma triple_each:
  assumes "\<And>x. x \<in> set xs \<Longrightarrow> triple I (f x) (\<lambda>_. I) (\<lambda>_. I)"
  shows "triple I (each f xs) (\<lambda>_. I) (\<lambda>_. I)"
  using assms
proof (induction xs)
  case Nil
  show ?case using triple_return [of "\<lambda>_. I" "()"] by simp
next
  case (Cons x xs)
  show ?case using Cons by (auto intro!: triple_andThen)
qed

lemma tripleD:
  assumes "triple P m Q E" "P s"
  shows "m s = (Inr x, s') \<Longrightarrow> Q x s'" "m s = (Inl e, s') \<Longrightarrow> E e s'"
  using assms unfolding triple_def by fastforce+

text \<open>An action that keeps a property of the state, however it ends.\<close>

definition keeps :: "('s \<Rightarrow> bool) \<Rightarrow> ('s, 'a) action \<Rightarrow> bool" where
  "keeps I m \<longleftrightarrow> (\<forall>s. I s \<longrightarrow> I (snd (m s)))"

named_theorems keeps_rules "actions that keep a property, construct by construct"

lemma keepsD: "keeps I m \<Longrightarrow> I s \<Longrightarrow> m s = (r, s') \<Longrightarrow> I s'"
  unfolding keeps_def by (metis snd_conv)

lemma keeps_triple: "keeps I m \<longleftrightarrow> triple I m (\<lambda>_. I) (\<lambda>_. I)"
proof -
  have "I (snd (m s)) \<longleftrightarrow> (case m s of (Inr x, s') \<Rightarrow> I s' | (Inl e, s') \<Rightarrow> I s')" for s
    by (auto split: prod.split sum.split)
  then show ?thesis unfolding keeps_def triple_def by simp
qed

lemma keeps_simple [keeps_rules, simp]:
  "keeps I (return x)" "keeps I (throw e)" "keeps I (require b e)" "keeps I (liftResult r)"
  "keeps I (reads f)" "keeps I (check c)"
  by (auto simp: keeps_def return_def throw_def require_def liftResult_def reads_def check_def
      split: option.split)

lemma keeps_andThen [keeps_rules]: "keeps I m \<Longrightarrow> (\<And>x. keeps I (k x)) \<Longrightarrow> keeps I (andThen m k)"
  unfolding keeps_def andThen_def by (fastforce split: prod.splits sum.splits)

lemma keeps_attempt [keeps_rules]: "keeps I m \<Longrightarrow> keeps I (attempt m)"
  unfolding keeps_def attempt_def by (fastforce split: prod.splits)

lemma keeps_each [keeps_rules]: "(\<And>x. keeps I (f x)) \<Longrightarrow> keeps I (each f xs)"
  by (induction xs) (auto intro: keeps_andThen)

lemma keeps_modify: "(\<And>s. I s \<Longrightarrow> I (f s)) \<Longrightarrow> keeps I (modify f)"
  by (simp add: keeps_def modify_def)

lemma keeps_if [keeps_rules]: "(b \<Longrightarrow> keeps I m) \<Longrightarrow> (\<not> b \<Longrightarrow> keeps I m') \<Longrightarrow> keeps I (if b then m else m')"
  by simp

lemma keeps_case_option [keeps_rules]:
  "(opt = None \<Longrightarrow> keeps I m) \<Longrightarrow> (\<And>x. opt = Some x \<Longrightarrow> keeps I (f x)) \<Longrightarrow>
   keeps I (case opt of None \<Rightarrow> m | Some x \<Rightarrow> f x)"
  by (cases opt) auto

lemma keeps_case_sum [keeps_rules]:
  "(\<And>e. r = Inl e \<Longrightarrow> keeps I (f e)) \<Longrightarrow> (\<And>x. r = Inr x \<Longrightarrow> keeps I (g x)) \<Longrightarrow>
   keeps I (case r of Inl e \<Rightarrow> f e | Inr x \<Rightarrow> g x)"
  by (cases r) auto

lemma keeps_zoom:
  assumes "keeps I m" "\<And>c s. get (upd (\<lambda>_. c) s) = c"
  shows "keeps (\<lambda>s. I (get s)) (zoom get upd m)"
  using assms unfolding keeps_def zoom_def by (fastforce split: prod.split)

subsection \<open>Running composed actions\<close>

lemma run_simps [simp]:
  "return x s = (Inr x, s)" "throw e s = (Inl e, s)" "liftResult r s = (r, s)"
  "reads g s = (Inr (g s), s)" "modify f s = (Inr (), f s)"
  "require b e s = (if b then Inr () else Inl e, s)"
  "check c s = (case c of None \<Rightarrow> Inr () | Some e \<Rightarrow> Inl e, s)"
  by (auto simp: return_def throw_def liftResult_def reads_def modify_def require_def check_def split: option.split)

lemma andThen_run [simp]:
  "m s = (Inl e, s') \<Longrightarrow> andThen m k s = (Inl e, s')"
  "m s = (Inr x, s') \<Longrightarrow> andThen m k s = k x s'"
  by (simp_all add: andThen_def)

lemma andThen_Inr:
  "andThen m k s = (Inr y, s'') \<longleftrightarrow> (\<exists>x s'. m s = (Inr x, s') \<and> k x s' = (Inr y, s''))"
  by (auto simp: andThen_def split: prod.splits sum.splits)

lemma andThen_Inl:
  "andThen m k s = (Inl e, s'') \<longleftrightarrow>
     m s = (Inl e, s'') \<or> (\<exists>x s'. m s = (Inr x, s') \<and> k x s' = (Inl e, s''))"
  by (auto simp: andThen_def split: prod.splits sum.splits)

end
