(* ===== verification/Go_Lib.thy ===== *)
theory Go_Lib
  imports Broker_Prelude
begin

section \<open>The parts of Go's standard library the broker calls\<close>

text \<open>
  A Go string is a sequence of bytes, modelled by \<open>string\<close> (a list of 8-bit characters). This
  theory holds the functions of \<open>strings\<close>, \<open>strconv\<close>, \<open>unicode\<close> and \<open>unicode/utf8\<close> that the
  broker uses. The case-folding and printability tables of the \<open>unicode\<close> package are generated
  data: they are the fields of the record \<open>unicode\<close>, consulted for runes outside ASCII only.
\<close>

record unicode =
  uni_fold :: "nat \<Rightarrow> nat"     \<comment> \<open>a representative of the rune's SimpleFold orbit\<close>
  uni_print :: "nat \<Rightarrow> bool"   \<comment> \<open>strconv.IsPrint\<close>

abbreviation byte :: "char \<Rightarrow> nat" where
  "byte c \<equiv> of_char c"

definition nl :: string where
  "nl = [CHR 0x0A]"

definition dquote :: char where
  "dquote = CHR 0x22"

subsection \<open>UTF-8\<close>

definition RuneError :: nat where
  "RuneError = 0xFFFD"

definition in_range :: "nat \<Rightarrow> nat \<Rightarrow> nat \<Rightarrow> bool" where
  "in_range lo hi b \<longleftrightarrow> lo \<le> b \<and> b \<le> hi"

abbreviation is_cont :: "nat \<Rightarrow> bool" where
  "is_cont \<equiv> in_range 0x80 0xBF"

text \<open>The bytes a second byte of a sequence may take, by its first byte.\<close>

definition second_ok :: "nat \<Rightarrow> nat \<Rightarrow> bool" where
  "second_ok b0 b1 =
     (if b0 = 0xE0 then in_range 0xA0 0xBF b1
      else if b0 = 0xED then in_range 0x80 0x9F b1
      else if b0 = 0xF0 then in_range 0x90 0xBF b1
      else if b0 = 0xF4 then in_range 0x80 0x8F b1
      else is_cont b1)"

text \<open>\<open>utf8.DecodeRuneInString\<close>: the first rune and its width; (RuneError, 1) for a bad byte.\<close>

definition DecodeRuneInString :: "string \<Rightarrow> nat \<times> nat" where
  "DecodeRuneInString s =
     (case map byte (take 4 s) of
        [] \<Rightarrow> (RuneError, 0)
      | b0 # bs \<Rightarrow>
          if b0 < 0x80 then (b0, 1)
          else (case bs of
              [] \<Rightarrow> (RuneError, 1)
            | b1 # bs \<Rightarrow>
                if \<not> in_range 0xC2 0xF4 b0 \<or> \<not> second_ok b0 b1 then (RuneError, 1)
                else if b0 < 0xE0 then ((b0 - 0xC0) * 64 + (b1 - 0x80), 2)
                else (case bs of
                    [] \<Rightarrow> (RuneError, 1)
                  | b2 # bs \<Rightarrow>
                      if \<not> is_cont b2 then (RuneError, 1)
                      else if b0 < 0xF0
                        then (((b0 - 0xE0) * 64 + (b1 - 0x80)) * 64 + (b2 - 0x80), 3)
                      else (case bs of
                          [] \<Rightarrow> (RuneError, 1)
                        | b3 # _ \<Rightarrow>
                            if \<not> is_cont b3 then (RuneError, 1)
                            else ((((b0 - 0xF0) * 64 + (b1 - 0x80)) * 64 + (b2 - 0x80)) * 64
                                    + (b3 - 0x80), 4)))))"

lemma DecodeRune_width: "s \<noteq> [] \<Longrightarrow> 0 < snd (DecodeRuneInString s)"
  by (cases s) (auto simp: DecodeRuneInString_def split: list.splits)

lemma DecodeRune_ascii: "byte c < 0x80 \<Longrightarrow> DecodeRuneInString (c # s) = (byte c, 1)"
  by (simp add: DecodeRuneInString_def)

text \<open>\<open>for _, r := range s\<close>: the runes of a string, in order.\<close>

function runes :: "string \<Rightarrow> nat list" where
  "runes s = (if s = [] then []
              else fst (DecodeRuneInString s) # runes (drop (snd (DecodeRuneInString s)) s))"
  by pat_completeness auto
termination
  by (relation "measure length") (auto intro!: diff_less DecodeRune_width)

declare runes.simps [simp del]

definition RuneCountInString :: "string \<Rightarrow> nat" where
  "RuneCountInString s = length (runes s)"

text \<open>
  \<open>utf8.DecodeLastRuneInString\<close>: step back over at most three continuation bytes to a byte that
  may start a rune, and decode there.
\<close>

definition DecodeLastRuneInString :: "string \<Rightarrow> nat \<times> nat" where
  "DecodeLastRuneInString s =
     (if s = [] then (RuneError, 0)
      else if byte (last s) < 0x80 then (byte (last s), 1)
      else let n = length s;
               starts = filter (\<lambda>k. k \<le> n \<and> \<not> is_cont (byte (s ! (n - k)))) [2, 3, 4];
               k = (case starts of [] \<Rightarrow> min n 5 | k # _ \<Rightarrow> k);
               (r, w) = DecodeRuneInString (drop (n - k) s)
           in if w = k then (r, w) else (RuneError, 1))"

subsection \<open>Character classes and trimming\<close>

text \<open>\<open>unicode.IsSpace\<close> and \<open>unicode.IsControl\<close>; both are total over the whole code space.\<close>

definition IsSpace :: "nat \<Rightarrow> bool" where
  "IsSpace r \<longleftrightarrow>
     in_range 0x09 0x0D r \<or> r = 0x20 \<or> r = 0x85 \<or> r = 0xA0 \<or> r = 0x1680 \<or>
     in_range 0x2000 0x200A r \<or> r = 0x2028 \<or> r = 0x2029 \<or> r = 0x202F \<or> r = 0x205F \<or> r = 0x3000"

definition IsControl :: "nat \<Rightarrow> bool" where
  "IsControl r \<longleftrightarrow> r < 0x20 \<or> in_range 0x7F 0x9F r"

function TrimLeftSpace :: "string \<Rightarrow> string" where
  "TrimLeftSpace s =
     (if s \<noteq> [] \<and> IsSpace (fst (DecodeRuneInString s))
      then TrimLeftSpace (drop (snd (DecodeRuneInString s)) s) else s)"
  by pat_completeness auto
termination
  by (relation "measure length") (auto intro!: diff_less DecodeRune_width)

declare TrimLeftSpace.simps [simp del]

lemma DecodeLastRune_width:
  assumes "s \<noteq> []"
  shows "0 < snd (DecodeLastRuneInString s)"
proof -
  have "0 < (case filter P [2, 3, 4] of [] \<Rightarrow> min (length s) 5 | k # _ \<Rightarrow> k)" for P
    using assms by (auto split: list.splits)
  then show ?thesis
    using assms by (auto simp: DecodeLastRuneInString_def Let_def split: prod.splits)
qed

function TrimRightSpace :: "string \<Rightarrow> string" where
  "TrimRightSpace s =
     (if s \<noteq> [] \<and> IsSpace (fst (DecodeLastRuneInString s))
      then TrimRightSpace (take (length s - snd (DecodeLastRuneInString s)) s) else s)"
  by pat_completeness auto
termination
  by (relation "measure length") (auto intro!: diff_less DecodeLastRune_width)

declare TrimRightSpace.simps [simp del]

definition TrimSpace :: "string \<Rightarrow> string" where
  "TrimSpace s = TrimRightSpace (TrimLeftSpace s)"

subsection \<open>Case folding and quoting\<close>

definition fold_ascii :: "nat \<Rightarrow> nat" where
  "fold_ascii r = (if in_range 0x41 0x5A r then r + 0x20 else r)"

text \<open>
  \<open>strings.EqualFold\<close>: rune by rune, equal or in the same folding orbit. The orbits of \<open>k\<close> and
  \<open>s\<close> also hold the Kelvin sign and the long s; every other ASCII orbit stays within ASCII.
\<close>

definition fold_rune :: "unicode \<Rightarrow> nat \<Rightarrow> nat" where
  "fold_rune u r =
     (if r < 0x80 then fold_ascii r
      else if r = 0x212A then 0x6B else if r = 0x17F then 0x73 else uni_fold u r)"

definition EqualFold :: "unicode \<Rightarrow> string \<Rightarrow> string \<Rightarrow> bool" where
  "EqualFold u s t \<longleftrightarrow> map (fold_rune u) (runes s) = map (fold_rune u) (runes t)"

lemma EqualFold_refl [simp]: "EqualFold u s s"
  by (simp add: EqualFold_def)

lemma EqualFold_sym: "EqualFold u s t \<Longrightarrow> EqualFold u t s"
  by (simp add: EqualFold_def)

lemma EqualFold_trans: "EqualFold u s t \<Longrightarrow> EqualFold u t v \<Longrightarrow> EqualFold u s v"
  by (simp add: EqualFold_def)

subsection \<open>Numbers as strings\<close>

definition digit :: "nat \<Rightarrow> char" where
  "digit d = (if d < 10 then char_of (0x30 + d) else char_of (0x57 + d))"

text \<open>The digits of a number in a base, most significant first; a zero is the string \<open>0\<close>.\<close>

function digits :: "nat \<Rightarrow> nat \<Rightarrow> string" where
  "digits b n = (if b < 2 \<or> n < b then [digit n] else digits b (n div b) @ [digit (n mod b)])"
  by pat_completeness auto
termination
  by (relation "measure snd") auto

declare digits.simps [simp del]

abbreviation dec :: "nat \<Rightarrow> string" where
  "dec \<equiv> digits 10"

abbreviation hex :: "nat \<Rightarrow> string" where
  "hex \<equiv> digits 16"

definition Itoa :: "int \<Rightarrow> string" where
  "Itoa i = (if i < 0 then ''-'' @ dec (nat (- i)) else dec (nat i))"

subsection \<open>Joining, splitting and prefixes\<close>

fun Join :: "string list \<Rightarrow> string \<Rightarrow> string" where
  "Join [] sep = []"
| "Join [x] sep = x"
| "Join (x # xs) sep = x @ sep @ Join xs sep"

fun Split :: "char \<Rightarrow> string \<Rightarrow> string list" where
  "Split c [] = [[]]"
| "Split c (x # xs) =
     (if x = c then [] # Split c xs
      else (case Split c xs of [] \<Rightarrow> [[x]] | l # ls \<Rightarrow> (x # l) # ls))"

definition HasPrefix :: "string \<Rightarrow> string \<Rightarrow> bool" where
  "HasPrefix s p \<longleftrightarrow> take (length p) s = p"

definition CutPrefix :: "string \<Rightarrow> string \<Rightarrow> string option" where
  "CutPrefix s p = (if HasPrefix s p then Some (drop (length p) s) else None)"

lemma Split_nonempty [simp]: "Split c s \<noteq> []"
  by (cases s) (auto split: list.splits)

lemma Split_Join: "Join (Split c s) [c] = s"
proof (induction s)
  case Nil
  show ?case by simp
next
  case (Cons x xs)
  obtain l ls where sp: "Split c xs = l # ls"
    by (cases "Split c xs") auto
  show ?case
    using Cons sp by (cases ls) auto
qed

end
