(* ===== verification/Netip.thy ===== *)
theory Netip
  imports Go_Lib
begin

section \<open>Go's net/netip: addresses and prefixes\<close>

text \<open>
  The value types \<open>netip.Addr\<close> and \<open>netip.Prefix\<close> and the methods the broker calls on them.
  An address is the zero \<open>Addr\<close>, an IPv4 address or an IPv6 address with its zone; a prefix is
  an address with a length, -1 for an invalid prefix. The lemmas relate \<open>Contains\<close>, \<open>Masked\<close>
  and the overlap of two prefixes to the block number of an address: its leading bits read as a
  natural number.
\<close>

unbundle bit_operations_syntax

datatype addr = NoAddr | Addr4 "32 word" | Addr6 "128 word" string

datatype prefix = Prefix (pAddr: addr) (pBits: int)

definition zeroPrefix :: prefix where
  "zeroPrefix = Prefix NoAddr (-1)"

subsection \<open>Addresses\<close>

fun BitLen :: "addr \<Rightarrow> int" where
  "BitLen NoAddr = 0"
| "BitLen (Addr4 _) = 32"
| "BitLen (Addr6 _ _) = 128"

fun Is4 :: "addr \<Rightarrow> bool" where
  "Is4 (Addr4 _) = True"
| "Is4 _ = False"

fun Is6 :: "addr \<Rightarrow> bool" where
  "Is6 (Addr6 _ _) = True"
| "Is6 _ = False"

fun Is4In6 :: "addr \<Rightarrow> bool" where
  "Is4In6 (Addr6 w _) = (drop_bit 32 w = 0xFFFF)"
| "Is4In6 _ = False"

fun Unmap :: "addr \<Rightarrow> addr" where
  "Unmap (Addr6 w z) = (if Is4In6 (Addr6 w z) then Addr4 (ucast w) else Addr6 w z)"
| "Unmap a = a"

fun hasZone :: "addr \<Rightarrow> bool" where
  "hasZone (Addr6 _ z) = (z \<noteq> [])"
| "hasZone _ = False"

fun withoutZone :: "addr \<Rightarrow> addr" where
  "withoutZone (Addr6 w _) = Addr6 w []"
| "withoutZone a = a"

text \<open>\<open>Addr.Next\<close>: the following address, the zero \<open>Addr\<close> past the last one.\<close>

fun Next :: "addr \<Rightarrow> addr" where
  "Next NoAddr = NoAddr"
| "Next (Addr4 w) = (if w + 1 = 0 then NoAddr else Addr4 (w + 1))"
| "Next (Addr6 w z) = (if w + 1 = 0 then NoAddr else Addr6 (w + 1) z)"

text \<open>\<open>Addr.Less\<close>: by length of the family, then by value, then by zone.\<close>

fun addr_key :: "addr \<Rightarrow> nat \<times> nat \<times> string" where
  "addr_key NoAddr = (0, 0, [])"
| "addr_key (Addr4 w) = (32, unat w, [])"
| "addr_key (Addr6 w z) = (128, unat w, z)"

definition addrLess :: "addr \<Rightarrow> addr \<Rightarrow> bool" where
  "addrLess a b =
     (let (l, v, z) = addr_key a; (l', v', z') = addr_key b
      in l < l' \<or> l = l' \<and> (v < v' \<or> v = v' \<and> z < z'))"

subsection \<open>Bytes of an address\<close>

definition byte_of :: "'a::len word \<Rightarrow> nat \<Rightarrow> 8 word" where
  "byte_of w k = ucast (drop_bit (8 * k) w)"

lemma byte_of_int [code]: "byte_of w k = word_of_int (drop_bit (8 * k) (uint w))"
  by (rule bit_word_eqI) (simp add: byte_of_def bit_simps)

definition bytes4 :: "32 word \<Rightarrow> 8 word list" where
  "bytes4 w = map (byte_of w) (rev [0..<4])"

definition bytes16 :: "128 word \<Rightarrow> 8 word list" where
  "bytes16 w = map (byte_of w) (rev [0..<16])"

definition be_word :: "8 word list \<Rightarrow> 'a::len word" where
  "be_word bs = foldl (\<lambda>a b. a * 256 + ucast b) 0 bs"

lemma be_word_int [code]: "be_word bs = word_of_int (foldl (\<lambda>a b. a * 256 + uint b) 0 bs)"
  by (induction bs rule: rev_induct) (simp_all add: be_word_def)

definition v4mapped :: "32 word \<Rightarrow> 128 word" where
  "v4mapped w = 0xFFFF00000000 + ucast w"

fun As16 :: "addr \<Rightarrow> 8 word list" where
  "As16 NoAddr = replicate 16 0"
| "As16 (Addr4 w) = bytes16 (v4mapped w)"
| "As16 (Addr6 w _) = bytes16 w"

fun AsSlice :: "addr \<Rightarrow> 8 word list" where
  "AsSlice NoAddr = []"
| "AsSlice (Addr4 w) = bytes4 w"
| "AsSlice (Addr6 w _) = bytes16 w"

definition AddrFrom16 :: "8 word list \<Rightarrow> addr" where
  "AddrFrom16 bs = Addr6 (be_word bs) []"

definition AddrFromSlice :: "8 word list \<Rightarrow> addr option" where
  "AddrFromSlice bs =
     (if length bs = 4 then Some (Addr4 (be_word bs))
      else if length bs = 16 then Some (Addr6 (be_word bs) []) else None)"

subsection \<open>Address classes\<close>

definition v4 :: "32 word \<Rightarrow> nat \<Rightarrow> nat" where
  "v4 w i = unat (byte_of w (3 - i))"

definition v6 :: "128 word \<Rightarrow> nat \<Rightarrow> nat" where
  "v6 w i = unat (byte_of w (15 - i))"

definition IsLoopback :: "addr \<Rightarrow> bool" where
  "IsLoopback a = (case Unmap a of
      NoAddr \<Rightarrow> False | Addr4 w \<Rightarrow> v4 w 0 = 127 | Addr6 w _ \<Rightarrow> w = 1)"

definition IsMulticast :: "addr \<Rightarrow> bool" where
  "IsMulticast a = (case Unmap a of
      NoAddr \<Rightarrow> False | Addr4 w \<Rightarrow> v4 w 0 div 16 = 14 | Addr6 w _ \<Rightarrow> v6 w 0 = 0xFF)"

definition IsLinkLocalUnicast :: "addr \<Rightarrow> bool" where
  "IsLinkLocalUnicast a = (case Unmap a of
      NoAddr \<Rightarrow> False
    | Addr4 w \<Rightarrow> v4 w 0 = 169 \<and> v4 w 1 = 254
    | Addr6 w _ \<Rightarrow> v6 w 0 = 0xFE \<and> v6 w 1 div 64 = 2)"

definition IsPrivate :: "addr \<Rightarrow> bool" where
  "IsPrivate a = (case Unmap a of
      NoAddr \<Rightarrow> False
    | Addr4 w \<Rightarrow> v4 w 0 = 10 \<or> v4 w 0 = 172 \<and> v4 w 1 div 16 = 1 \<or> v4 w 0 = 192 \<and> v4 w 1 = 168
    | Addr6 w _ \<Rightarrow> v6 w 0 div 2 = 0x7E)"

definition IsGlobalUnicast :: "addr \<Rightarrow> bool" where
  "IsGlobalUnicast a =
     (a \<noteq> NoAddr \<and>
      (case Unmap a of
         Addr4 w \<Rightarrow> w \<noteq> 0 \<and> w \<noteq> 0xFFFFFFFF
       | b \<Rightarrow> b \<noteq> Addr6 0 []) \<and>
      \<not> IsLoopback a \<and> \<not> IsMulticast a \<and> \<not> IsLinkLocalUnicast a)"

subsection \<open>Prefixes\<close>

definition PrefixFrom :: "addr \<Rightarrow> int \<Rightarrow> prefix" where
  "PrefixFrom a bits =
     Prefix (withoutZone a)
       (if a \<noteq> NoAddr \<and> 0 \<le> bits \<and> bits \<le> BitLen a then bits else -1)"

definition IsValid :: "prefix \<Rightarrow> bool" where
  "IsValid p \<longleftrightarrow> 0 \<le> pBits p"

text \<open>Clearing the low bits of a word, the host part of an address.\<close>

definition clear_low :: "nat \<Rightarrow> 'a::len word \<Rightarrow> 'a word" where
  "clear_low n w = push_bit n (drop_bit n w)"

fun Masked :: "prefix \<Rightarrow> prefix" where
  "Masked (Prefix a b) =
     (if b < 0 then zeroPrefix
      else case a of
        NoAddr \<Rightarrow> zeroPrefix
      | Addr4 w \<Rightarrow> if 32 < b then zeroPrefix
                  else PrefixFrom (Addr4 (clear_low (32 - nat b) w)) b
      | Addr6 w z \<Rightarrow> if 128 < b then zeroPrefix
                    else PrefixFrom (Addr6 (clear_low (128 - nat b) w) z) b)"

fun Contains :: "prefix \<Rightarrow> addr \<Rightarrow> bool" where
  "Contains (Prefix p b) a =
     (if b < 0 \<or> hasZone a then False
      else case (p, a) of
        (Addr4 w, Addr4 v) \<Rightarrow> drop_bit (32 - nat b) w = drop_bit (32 - nat b) v
      | (Addr6 w _, Addr6 v _) \<Rightarrow> drop_bit (128 - nat b) w = drop_bit (128 - nat b) v
      | _ \<Rightarrow> False)"

subsection \<open>Well-formed values\<close>

text \<open>
  \<open>wf_prefix\<close> describes every prefix value the Go package can make: its constructors keep the
  length within the family and drop the zone. \<open>wf6\<close> adds that it is a valid IPv6 prefix.
\<close>

definition wf_prefix :: "prefix \<Rightarrow> bool" where
  "wf_prefix p \<longleftrightarrow>
     (pBits p = -1 \<or> pAddr p \<noteq> NoAddr \<and> 0 \<le> pBits p \<and> pBits p \<le> BitLen (pAddr p)) \<and>
     \<not> hasZone (pAddr p)"

definition wf6 :: "prefix \<Rightarrow> bool" where
  "wf6 p \<longleftrightarrow> Is6 (pAddr p) \<and> \<not> hasZone (pAddr p) \<and> 0 \<le> pBits p \<and> pBits p \<le> 128"

lemma wf_PrefixFrom [simp, wf_intros]: "wf_prefix (PrefixFrom a b)"
  by (cases a) (auto simp: wf_prefix_def PrefixFrom_def)

lemma wf_Masked [simp, wf_intros]: "wf_prefix (Masked p)"
  by (cases p) (auto simp: zeroPrefix_def wf_prefix_def PrefixFrom_def split: addr.splits)

lemma wf6E:
  assumes "wf6 p"
  obtains w b where "p = Prefix (Addr6 w []) (int b)" and "b \<le> 128"
proof (cases p)
  case (Prefix a b)
  with assms obtain w where "a = Addr6 w []"
    by (cases a) (auto simp: wf6_def)
  with Prefix assms that [of w "nat b"] show ?thesis
    by (auto simp: wf6_def)
qed

lemma wf6_Prefix [simp]: "wf6 (Prefix (Addr6 w z) b) \<longleftrightarrow> z = [] \<and> 0 \<le> b \<and> b \<le> 128"
  by (auto simp: wf6_def)

lemma wf6I: "wf_prefix p \<Longrightarrow> 0 \<le> pBits p \<Longrightarrow> Is6 (pAddr p) \<Longrightarrow> wf6 p"
  by (cases p; cases "pAddr p") (auto simp: wf_prefix_def)

subsection \<open>Block numbers\<close>

text \<open>The leading \<open>b\<close> bits of a 128-bit address as a number.\<close>

definition blk :: "nat \<Rightarrow> 128 word \<Rightarrow> nat" where
  "blk b w = unat w div 2 ^ (128 - b)"

lemma unat_lt_128: "unat (w :: 128 word) < 2 ^ 128"
  using unsigned_less [of w] by simp

lemma blk_drop_bit: "blk b w = unat (drop_bit (128 - b) w)"
  by (simp only: blk_def unat_drop_bit_eq) (simp add: drop_bit_eq_div)

lemma blk_lt: "b \<le> 128 \<Longrightarrow> blk b w < 2 ^ b"
  unfolding blk_def
  by (rule less_mult_imp_div_less) (use unat_lt_128 [of w] in \<open>simp flip: power_add\<close>)

lemma blk_128 [simp]: "blk 128 w = unat w"
  by (simp add: blk_def)

lemma blk_blk: "a \<le> b \<Longrightarrow> b \<le> 128 \<Longrightarrow> blk a w = blk b w div 2 ^ (b - a)"
  by (simp add: blk_def div_pow_div_pow)

lemma drop_bit_eq_iff_blk:
  "drop_bit (128 - b) w = drop_bit (128 - b) v \<longleftrightarrow> blk b w = blk b v" for w v :: "128 word"
  by (simp add: blk_drop_bit word_unat_eq_iff)

lemma Contains6 [netip_simps]:
  "Contains (Prefix (Addr6 w z) (int b)) (Addr6 v []) \<longleftrightarrow> blk b w = blk b v"
  by (simp add: drop_bit_eq_iff_blk)

lemma unat_clear_low:
  fixes w :: "'a::len word"
  shows "unat (clear_low n w) = unat w div 2 ^ n * 2 ^ n"
proof -
  have "unat w div 2 ^ n * 2 ^ n \<le> unat w" by simp
  also have "unat w < 2 ^ LENGTH('a)" by (rule unsigned_less)
  finally have "unat w div 2 ^ n * 2 ^ n < 2 ^ LENGTH('a)" .
  then have "take_bit LENGTH('a) (push_bit n (drop_bit n (unat w))) = unat w div 2 ^ n * 2 ^ n"
    by (simp add: push_bit_eq_mult drop_bit_eq_div take_bit_nat_eq_self)
  then show ?thesis
    by (simp only: clear_low_def unsigned_push_bit_eq unat_drop_bit_eq)
qed

lemma blk_clear_low [simp]: "blk b (clear_low (128 - b) w) = blk b w"
  by (simp add: blk_def unat_clear_low)

lemma unat_clear_low_blk: "unat (clear_low (128 - b) w) = blk b w * 2 ^ (128 - b)"
  for w :: "128 word"
  by (simp add: blk_def unat_clear_low)

lemma Masked6 [netip_simps]:
  "b \<le> 128 \<Longrightarrow> Masked (Prefix (Addr6 w z) (int b)) = Prefix (Addr6 (clear_low (128 - b) w) []) (int b)"
  by (simp add: PrefixFrom_def)

lemma wf6_Masked [simp]: "wf6 p \<Longrightarrow> wf6 (Masked p)"
  by (erule wf6E) (simp add: Masked6 del: Masked.simps)

lemma pBits_Masked [simp]: "wf6 p \<Longrightarrow> pBits (Masked p) = pBits p"
  by (erule wf6E) (simp add: Masked6 del: Masked.simps)

lemma Masked_idem [simp]: "wf6 p \<Longrightarrow> Masked (Masked p) = Masked p"
proof (erule wf6E)
  fix w b assume "p = Prefix (Addr6 w []) (int b)" and b: "b \<le> 128"
  moreover have "clear_low (128 - b) (clear_low (128 - b) w) = clear_low (128 - b) w"
    by (simp add: word_unat_eq_iff unat_clear_low)
  ultimately show ?thesis by (simp add: Masked6 del: Masked.simps)
qed

end
