(* ===== verification/Netip_Text.thy ===== *)
theory Netip_Text
  imports Netip
begin

section \<open>Go's net/netip: parsing and printing\<close>

text \<open>
  \<open>netip.ParseAddr\<close>, \<open>netip.ParsePrefix\<close> and the \<open>String\<close> methods, with the round trip: parsing
  what a valid IPv4 or zone-free IPv6 value prints gives the value back. The store keeps
  prefixes and addresses as text, so every statement about stored allocations rests on it.
\<close>

subsection \<open>Printing\<close>

definition groups :: "128 word \<Rightarrow> nat list" where
  "groups w = map (\<lambda>k. unat (drop_bit (16 * k) w) mod 65536) (rev [0..<8])"

definition word_of_groups :: "nat list \<Rightarrow> 128 word" where
  "word_of_groups gs = of_nat (foldl (\<lambda>a g. a * 65536 + g) 0 gs)"

definition octets :: "32 word \<Rightarrow> nat list" where
  "octets w = map (\<lambda>k. unat (drop_bit (8 * k) w) mod 256) (rev [0..<4])"

definition word_of_octets :: "nat list \<Rightarrow> 32 word" where
  "word_of_octets os = of_nat (foldl (\<lambda>a d. a * 256 + d) 0 os)"

definition string4 :: "32 word \<Rightarrow> string" where
  "string4 w = Join (map dec (octets w)) ''.''"

text \<open>The first longest run of at least two zero groups, as \<open>appendTo6\<close> finds it.\<close>

definition zero_run :: "nat list \<Rightarrow> nat \<Rightarrow> nat" where
  "zero_run gs i = length (takeWhile (\<lambda>g. g = 0) (drop i gs))"

definition longest_run :: "nat list \<Rightarrow> (nat \<times> nat) option" where
  "longest_run gs =
     foldl (\<lambda>best i. let l = zero_run gs i in
              case best of
                None \<Rightarrow> if 2 \<le> l then Some (i, i + l) else None
              | Some (zs, ze) \<Rightarrow> if 2 \<le> l \<and> ze - zs < l then Some (i, i + l) else best)
           None [0..<length gs]"

definition string6 :: "128 word \<Rightarrow> string" where
  "string6 w =
     (let gs = groups w in
      case longest_run gs of
        None \<Rightarrow> Join (map hex gs) '':''
      | Some (zs, ze) \<Rightarrow>
          Join (map hex (take zs gs)) '':'' @ ''::'' @ Join (map hex (drop ze gs)) '':'')"

fun addrString :: "addr \<Rightarrow> string" where
  "addrString NoAddr = ''invalid IP''"
| "addrString (Addr4 w) = string4 w"
| "addrString (Addr6 w z) =
     (if Is4In6 (Addr6 w z) then ''::ffff:'' @ string4 (ucast w) else string6 w) @
     (if z = [] then [] else ''%'' @ z)"

definition prefixString :: "prefix \<Rightarrow> string" where
  "prefixString p =
     (if IsValid p then addrString (pAddr p) @ ''/'' @ Itoa (pBits p) else ''invalid Prefix'')"

subsection \<open>Parsing\<close>

definition is_digit :: "char \<Rightarrow> bool" where
  "is_digit c \<longleftrightarrow> in_range 0x30 0x39 (byte c)"

definition hexval :: "char \<Rightarrow> nat option" where
  "hexval c =
     (if is_digit c then Some (byte c - 0x30)
      else if in_range 0x61 0x66 (byte c) then Some (byte c - 0x61 + 10)
      else if in_range 0x41 0x46 (byte c) then Some (byte c - 0x41 + 10)
      else None)"

text \<open>
  \<open>parseIPv4Fields\<close>: the value and number of digits of the current octet, and the octets before
  it. A dot with no digit before it is the first character or follows a dot.
\<close>

fun parseIPv4Fields :: "nat \<Rightarrow> nat \<Rightarrow> nat list \<Rightarrow> string \<Rightarrow> nat list option" where
  "parseIPv4Fields val digLen fs [] = (if length fs < 3 then None else Some (fs @ [val]))"
| "parseIPv4Fields val digLen fs (c # s) =
     (if is_digit c then
        if digLen = 1 \<and> val = 0 then None
        else let val' = val * 10 + (byte c - 0x30)
             in if 255 < val' then None else parseIPv4Fields val' (digLen + 1) fs s
      else if c = CHR ''.'' then
        if digLen = 0 \<or> s = [] \<or> length fs = 3 then None
        else parseIPv4Fields 0 0 (fs @ [val]) s
      else None)"

definition parseIPv4 :: "string \<Rightarrow> addr option" where
  "parseIPv4 s = map_option (\<lambda>os. Addr4 (word_of_octets os)) (parseIPv4Fields 0 0 [] s)"

text \<open>One hexadecimal field: digits read, value, rest; \<open>None\<close> for five digits or cs.\<close>

fun hexfield :: "nat \<Rightarrow> nat \<Rightarrow> string \<Rightarrow> (nat \<times> nat \<times> string) option" where
  "hexfield off acc [] = Some (off, acc, [])"
| "hexfield off acc (c # s) =
     (case hexval c of
        None \<Rightarrow> Some (off, acc, c # s)
      | Some d \<Rightarrow>
          if 3 < off then None
          else if 65535 < acc * 16 + d then None else hexfield (off + 1) (acc * 16 + d) s)"

text \<open>The main loop of \<open>parseIPv6\<close>: groups so far, position of the ellipsis, rest of the string.\<close>

function parse6loop :: "nat list \<Rightarrow> nat option \<Rightarrow> string \<Rightarrow> (nat list \<times> nat option \<times> string) option" where
  "parse6loop gs ell s =
     (if 8 \<le> length gs then Some (gs, ell, s)
      else case hexfield 0 0 s of
        None \<Rightarrow> None
      | Some (off, acc, rest) \<Rightarrow>
          if off = 0 then None
          else (case rest of
              [] \<Rightarrow> Some (gs @ [acc], ell, [])
            | c # cs \<Rightarrow>
                if c = CHR ''.'' then
                  if ell = None \<and> length gs \<noteq> 6 \<or> 6 < length gs then None
                  else (case parseIPv4Fields 0 0 [] s of
                      Some [o0, o1, o2, o3] \<Rightarrow>
                        Some (gs @ [o0 * 256 + o1, o2 * 256 + o3], ell, [])
                    | _ \<Rightarrow> None)
                else if c \<noteq> CHR '':'' then None
                else (case cs of
                    [] \<Rightarrow> None
                  | d # cs' \<Rightarrow>
                      if d \<noteq> CHR '':'' then parse6loop (gs @ [acc]) ell cs
                      else if ell \<noteq> None then None
                      else if cs' = [] then Some (gs @ [acc], Some (length gs + 1), [])
                      else parse6loop (gs @ [acc]) (Some (length gs + 1)) cs')))"
  by pat_completeness auto
termination
  by (relation "measure (\<lambda>(gs, _, _). 8 - length gs)") auto

declare parse6loop.simps [simp del]

definition expand_ellipsis :: "nat list \<times> nat option \<times> string \<Rightarrow> nat list option" where
  "expand_ellipsis r =
     (case r of (gs, ell, s) \<Rightarrow>
        if s \<noteq> [] then None
        else if length gs < 8 then
          (case ell of None \<Rightarrow> None
           | Some e \<Rightarrow> Some (take e gs @ replicate (8 - length gs) 0 @ drop e gs))
        else if ell \<noteq> None then None else Some gs)"

definition parse6groups :: "string \<Rightarrow> nat list option" where
  "parse6groups s =
     (if HasPrefix s ''::'' then
        let s' = drop 2 s in
        if s' = [] then Some (replicate 8 0)
        else Option.bind (parse6loop [] (Some 0) s') expand_ellipsis
      else Option.bind (parse6loop [] None s) expand_ellipsis)"

definition parseIPv6 :: "string \<Rightarrow> addr option" where
  "parseIPv6 s =
     (let body = takeWhile (\<lambda>c. c \<noteq> CHR ''%'') s; tail = drop (length body) s; zone = drop 1 tail
      in if tail \<noteq> [] \<and> zone = [] then None
         else map_option (\<lambda>gs. Addr6 (word_of_groups gs) zone) (parse6groups body))"

definition ParseAddr :: "string \<Rightarrow> addr option" where
  "ParseAddr s =
     (case dropWhile (\<lambda>c. c \<notin> set ''.:%'') s of
        [] \<Rightarrow> None
      | c # _ \<Rightarrow> if c = CHR ''.'' then parseIPv4 s
                else if c = CHR '':'' then parseIPv6 s else None)"

definition decval :: "string \<Rightarrow> nat" where
  "decval s = foldl (\<lambda>a c. a * 10 + (byte c - 0x30)) 0 s"

definition parseBits :: "string \<Rightarrow> int option" where
  "parseBits s =
     (if s = [] \<or> \<not> list_all is_digit s \<or> 1 < length s \<and> hd s = CHR ''0'' then None
      else Some (int (decval s)))"

definition ParsePrefix :: "string \<Rightarrow> prefix option" where
  "ParsePrefix s =
     (if CHR ''/'' \<notin> set s then None
      else let tail = takeWhile (\<lambda>c. c \<noteq> CHR ''/'') (rev s);
               bitsStr = rev tail; addrStr = take (length s - length tail - 1) s
           in case ParseAddr addrStr of
                None \<Rightarrow> None
              | Some a \<Rightarrow>
                  if hasZone a then None
                  else (case parseBits bitsStr of
                      None \<Rightarrow> None
                    | Some bits \<Rightarrow>
                        if BitLen a < bits then None else Some (PrefixFrom a bits)))"

subsection \<open>Digits\<close>

lemma byte_digit: "d < 16 \<Longrightarrow> byte (digit d) = (if d < 10 then 0x30 + d else 0x57 + d)"
  by (simp add: digit_def of_char_of)

lemma hexval_digit [simp]: "d < 16 \<Longrightarrow> hexval (digit d) = Some d"
  by (auto simp: hexval_def is_digit_def in_range_def byte_digit)

lemma is_digit_digit [simp]: "d < 10 \<Longrightarrow> is_digit (digit d)"
  by (simp add: is_digit_def in_range_def byte_digit)

lemma hexval_None: "hexval CHR '':'' = None" "hexval CHR ''.'' = None" "hexval CHR ''%'' = None"
    "hexval CHR ''/'' = None"
  by (simp_all add: hexval_def is_digit_def in_range_def)

lemma digits_hexval:
  assumes "2 \<le> b" and "b \<le> 16"
  shows "list_all (\<lambda>c. hexval c \<noteq> None) (digits b n)"
  using assms
proof (induction b n rule: digits.induct)
  case (1 b n)
  then show ?case
    by (cases "n < b") (simp_all add: digits.simps [of b n] order.strict_trans2 [of _ b 16])
qed

lemma digits_value:
  assumes "2 \<le> b" and "b \<le> 16"
  shows "foldl (\<lambda>a c. a * b + the (hexval c)) 0 (digits b n) = n"
  using assms
proof (induction b n rule: digits.induct)
  case (1 b n)
  then show ?case
    by (cases "n < b") (simp_all add: digits.simps [of b n] order.strict_trans2 [of _ b 16])
qed

lemma digits_nonempty [simp]: "digits b n \<noteq> []"
  by (subst digits.simps) simp

lemma digits_length:
  assumes "2 \<le> b" and "n < b ^ k" and "0 < k"
  shows "length (digits b n) \<le> k"
  using assms
proof (induction b n arbitrary: k rule: digits.induct)
  case (1 b n)
  show ?case
  proof (cases "n < b")
    case True
    with "1.prems" show ?thesis by (simp add: digits.simps [of b n])
  next
    case False
    with "1.prems" obtain j where k: "k = Suc j" and "0 < j"
      by (cases k; cases "k - 1") auto
    then have "n div b < b ^ j"
      using "1.prems" by (simp add: div_less_iff_less_mult mult.commute)
    with False "1.prems" "1.IH" [of j] \<open>0 < j\<close> show ?thesis
      by (simp add: digits.simps [of b n] k)
  qed
qed

text \<open>The value a list of digits of a number has: the inverse of positional splitting.\<close>

lemma foldl_positional:
  fixes n B a :: nat
  shows "foldl (\<lambda>a g. a * B + g) a (map (\<lambda>k. n div B ^ k mod B) (rev [0..<m])) =
         a * B ^ m + n mod B ^ m"
proof (induction m arbitrary: a)
  case 0
  show ?case by simp
next
  case (Suc m)
  have "n mod B ^ Suc m = B ^ m * (n div B ^ m mod B) + n mod B ^ m"
    by (metis mod_mult2_eq power_Suc2)
  with Suc show ?case by (simp add: algebra_simps)
qed

lemma groups_eq: "groups w = map (\<lambda>k. unat w div 65536 ^ k mod 65536) (rev [0..<8])"
proof -
  have "unat (drop_bit (16 * k) w) = unat w div 65536 ^ k" for k
  proof -
    have "(65536::nat) ^ k = 2 ^ (16 * k)" by (simp add: power_mult)
    then show ?thesis by (simp only: unat_drop_bit_eq) (simp add: drop_bit_eq_div)
  qed
  then show ?thesis by (simp only: groups_def)
qed

lemma word_of_groups_groups [simp]: "word_of_groups (groups w) = w"
proof -
  have "foldl (\<lambda>a g. a * 65536 + g) 0 (groups w) = unat w mod 65536 ^ 8"
    unfolding groups_eq by (subst foldl_positional) simp
  also have "\<dots> = unat w"
    using unat_lt_128 [of w] by simp
  finally show ?thesis by (simp add: word_of_groups_def)
qed

lemma length_groups [simp]: "length (groups w) = 8"
  by (simp add: groups_def)

lemma groups_lt: "g \<in> set (groups w) \<Longrightarrow> g < 65536"
  by (auto simp: groups_def)

lemma octets_eq: "octets w = map (\<lambda>k. unat w div 256 ^ k mod 256) (rev [0..<4])"
proof -
  have "unat (drop_bit (8 * k) w) = unat w div 256 ^ k" for k
  proof -
    have "(256::nat) ^ k = 2 ^ (8 * k)" by (simp add: power_mult)
    then show ?thesis by (simp only: unat_drop_bit_eq) (simp add: drop_bit_eq_div)
  qed
  then show ?thesis by (simp only: octets_def)
qed

lemma octets_value: "foldl (\<lambda>a d. a * 256 + d) 0 (octets w) = unat w"
proof -
  have "foldl (\<lambda>a d. a * 256 + d) 0 (octets w) = unat w mod 256 ^ 4"
    unfolding octets_eq by (subst foldl_positional) simp
  also have "\<dots> = unat w"
    using unsigned_less [of w, where ?'a = nat] by simp
  finally show ?thesis .
qed

lemma word_of_octets_octets [simp]: "word_of_octets (octets w) = w"
  by (simp add: word_of_octets_def octets_value)

subsection \<open>Reading fields back\<close>

lemma hexfield_run:
  assumes "list_all (\<lambda>c. hexval c \<noteq> None) ds" and "off + length ds \<le> 4" and "acc < 16 ^ off"
  shows "hexfield off acc (ds @ rest) =
         hexfield (off + length ds) (foldl (\<lambda>a c. a * 16 + the (hexval c)) acc ds) rest"
  using assms
proof (induction ds arbitrary: off acc)
  case Nil
  then show ?case by simp
next
  case (Cons c ds)
  then obtain d where d: "hexval c = Some d" by auto
  then have "d < 16" by (auto simp: hexval_def is_digit_def in_range_def split: if_splits)
  then have lt: "acc * 16 + d < 16 ^ Suc off" using Cons.prems(3) by simp
  also have "(16::nat) ^ Suc off \<le> 16 ^ 4"
    using Cons.prems(2) by (intro power_increasing) auto
  finally have "acc * 16 + d \<le> 65535" by simp
  with Cons lt d show ?case by simp
qed

definition stops :: "string \<Rightarrow> bool" where
  "stops s \<longleftrightarrow> s = [] \<or> hexval (hd s) = None"

lemma hexfield_stops: "stops s \<Longrightarrow> hexfield off acc s = Some (off, acc, s)"
  by (cases s) (auto simp: stops_def)

lemma stops_simps [simp]: "stops []" "stops (CHR '':'' # s)" "stops (CHR ''.'' # s)"
  by (simp_all add: stops_def hexval_None)

lemma hexfield_hex:
  assumes "g < 65536" and "stops rest"
  shows "hexfield 0 0 (hex g @ rest) = Some (length (hex g), g, rest)"
proof -
  have "length (hex g) \<le> 4"
    using digits_length [of 16 g 4] assms(1) by simp
  then show ?thesis
    using hexfield_run [of "hex g" 0 0 rest] digits_hexval [of 16 g] digits_value [of 16 g] assms(2)
    by (simp add: hexfield_stops)
qed

lemma hexfield_dec:
  assumes "d < 256" and "stops rest"
  shows "\<exists>v. hexfield 0 0 (dec d @ rest) = Some (length (dec d), v, rest)"
proof -
  have "length (dec d) \<le> 3"
    using digits_length [of 10 d 3] assms(1) by simp
  then show ?thesis
    using hexfield_run [of "dec d" 0 0 rest] digits_hexval [of 10 d] assms(2)
    by (simp add: hexfield_stops)
qed

lemma dec_lt_10: "d < 10 \<Longrightarrow> dec d = [digit d]"
  by (simp add: digits.simps)

lemma dec_lt_100: "10 \<le> d \<Longrightarrow> d < 100 \<Longrightarrow> dec d = [digit (d div 10), digit (d mod 10)]"
  by (subst digits.simps) (simp add: dec_lt_10 div_less_iff_less_mult)

lemma dec_lt_1000: "100 \<le> d \<Longrightarrow> d < 1000 \<Longrightarrow> dec d = dec (d div 10) @ [digit (d mod 10)]"
  by (subst digits.simps) simp

lemma octet_step [simp]:
  assumes "e < 10" and "val * 10 + e \<le> 255" and "\<not> (digLen = 1 \<and> val = 0)"
  shows "parseIPv4Fields val digLen fs (digit e # s) = parseIPv4Fields (val * 10 + e) (digLen + 1) fs s"
  using assms by (auto simp: Let_def byte_digit)

lemma parse_octet:
  assumes "d < 256"
  shows "parseIPv4Fields 0 0 fs (dec d @ s) = parseIPv4Fields d (length (dec d)) fs s"
proof -
  have d: "d div 10 * 10 + d mod 10 = d" by simp
  consider "d < 10" | "10 \<le> d" "d < 100" | "100 \<le> d" "d < 1000"
    using assms by linarith
  then show ?thesis
  proof cases
    case 1
    then show ?thesis using assms by (simp add: dec_lt_10 del: parseIPv4Fields.simps)
  next
    case 2
    then show ?thesis using assms
      by (simp add: dec_lt_100 div_less_iff_less_mult del: parseIPv4Fields.simps)
  next
    case 3
    then have "10 \<le> d div 10" "d div 10 < 100" "d div 10 \<le> 255" "d div 10 div 10 < 10"
      "0 < d div 10 div 10" "d div 10 div 10 \<le> 255"
      using assms by linarith+
    moreover have "d div 10 div 10 * 10 + d div 10 mod 10 = d div 10" by simp
    ultimately show ?thesis using 3 assms d
      by (simp add: dec_lt_1000 dec_lt_100 del: parseIPv4Fields.simps)
  qed
qed

lemma parse_octet_dot:
  assumes "d < 256" and "s \<noteq> []" and "length fs < 3"
  shows "parseIPv4Fields 0 0 fs (dec d @ CHR ''.'' # s) = parseIPv4Fields 0 0 (fs @ [d]) s"
  using assms by (simp add: parse_octet) (simp add: is_digit_def in_range_def)

lemma parse_string4:
  assumes "a < 256" "b < 256" "c < 256" "d < 256"
  shows "parseIPv4Fields 0 0 [] (Join (map dec [a, b, c, d]) ''.'') = Some [a, b, c, d]"
  using assms parse_octet [of d "[a, b, c]" "[]"]
  by (simp add: parse_octet_dot del: parseIPv4Fields.simps) simp

lemma octets_cases:
  obtains a b c d where "octets w = [a, b, c, d]" "a < 256" "b < 256" "c < 256" "d < 256"
proof (rule that)
  let ?o = "\<lambda>k. unat (drop_bit (8 * k) w) mod 256"
  show "octets w = [?o 3, ?o 2, ?o 1, ?o 0]"
    by (simp add: octets_def upt_rec)
qed simp_all

lemma parse_octets: "parseIPv4Fields 0 0 [] (string4 w) = Some (octets w)"
  by (rule octets_cases [of w]) (simp add: string4_def parse_string4 del: parseIPv4Fields.simps Join.simps list.map)

subsection \<open>The IPv6 loop reads back what was printed\<close>

abbreviation colons :: "nat list \<Rightarrow> string" where
  "colons gs \<equiv> Join (map hex gs) '':''"

lemma Join_Cons: "Join (x # xs) sep = x @ (if xs = [] then [] else sep @ Join xs sep)"
  by (cases xs) auto

lemma hex_first: "\<exists>c cs. hex g = c # cs \<and> hexval c \<noteq> None"
  using digits_hexval [of 16 g] by (cases "hex g") auto

lemma hex_not_colon: "hex g @ s = CHR '':'' # t \<longleftrightarrow> False"
  using hex_first [of g] by (auto simp: hexval_None)

lemma colons_not_colon: "gs \<noteq> [] \<Longrightarrow> colons gs @ s = CHR '':'' # t \<longleftrightarrow> False"
  by (cases gs) (auto simp: Join_Cons hex_not_colon)

lemma colons_nonempty [simp]: "colons gs = [] \<longleftrightarrow> gs = []"
  by (cases gs) (auto simp: Join_Cons)

text \<open>One group followed by a single colon and more text.\<close>

lemma parse6loop_group:
  assumes "g < 65536" and "length pre < 8" and "s = c # cs" and "c \<noteq> CHR '':''"
  shows "parse6loop pre ell (hex g @ CHR '':'' # s) = parse6loop (pre @ [g]) ell s"
  using assms hexfield_hex [of g "CHR '':'' # s"]
  by (simp add: parse6loop.simps [of pre])

lemma parse6loop_last:
  assumes "g < 65536" and "length pre < 8"
  shows "parse6loop pre ell (hex g) = Some (pre @ [g], ell, [])"
  using assms hexfield_hex [of g "[]"]
  by (simp add: parse6loop.simps [of pre])

lemma parse6loop_ellipsis:
  assumes "g < 65536" and "length pre < 8"
  shows "parse6loop pre None (hex g @ CHR '':'' # CHR '':'' # s) =
         (if s = [] then Some (pre @ [g], Some (length pre + 1), [])
          else parse6loop (pre @ [g]) (Some (length pre + 1)) s)"
  using assms hexfield_hex [of g "CHR '':'' # CHR '':'' # s"]
  by (simp add: parse6loop.simps [of pre])

lemma colons_head:
  assumes "gs \<noteq> []"
  obtains c cs where "colons gs = c # cs" and "c \<noteq> CHR '':''"
  using assms colons_not_colon [of gs "[]"] by (cases "colons gs") auto

lemma parse6loop_colons:
  assumes "gs \<noteq> []" and "\<forall>g \<in> set gs. g < 65536" and "length pre + length gs \<le> 8"
  shows "parse6loop pre ell (colons gs) = Some (pre @ gs, ell, [])"
  using assms
proof (induction gs arbitrary: pre)
  case Nil
  then show ?case by simp
next
  case (Cons g gs)
  show ?case
  proof (cases "gs = []")
    case True
    with Cons.prems show ?thesis by (simp add: parse6loop_last)
  next
    case False
    then obtain c cs where "colons gs = c # cs" "c \<noteq> CHR '':''" by (rule colons_head)
    then have "parse6loop pre ell (hex g @ CHR '':'' # colons gs) = parse6loop (pre @ [g]) ell (colons gs)"
      using Cons.prems by (intro parse6loop_group) auto
    with False Cons show ?thesis by (simp add: Join_Cons)
  qed
qed

lemma parse6loop_colons_ellipsis:
  assumes "gs \<noteq> []" and "\<forall>g \<in> set gs. g < 65536" and "length pre + length gs \<le> 8"
  shows "parse6loop pre None (colons gs @ CHR '':'' # CHR '':'' # s) =
         (if s = [] then Some (pre @ gs, Some (length pre + length gs), [])
          else parse6loop (pre @ gs) (Some (length pre + length gs)) s)"
  using assms
proof (induction gs arbitrary: pre)
  case Nil
  then show ?case by simp
next
  case (Cons g gs)
  show ?case
  proof (cases "gs = []")
    case True
    with Cons.prems show ?thesis by (simp add: parse6loop_ellipsis)
  next
    case False
    let ?r = "colons gs @ CHR '':'' # CHR '':'' # s"
    from False obtain c cs where "colons gs = c # cs" "c \<noteq> CHR '':''" by (rule colons_head)
    then have "parse6loop pre None (hex g @ CHR '':'' # ?r) = parse6loop (pre @ [g]) None ?r"
      using Cons.prems by (intro parse6loop_group) auto
    with False Cons show ?thesis by (simp add: Join_Cons)
  qed
qed

subsection \<open>The run of zeros\<close>

definition run_ok :: "nat list \<Rightarrow> (nat \<times> nat) option \<Rightarrow> bool" where
  "run_ok gs r = (case r of None \<Rightarrow> True
     | Some (zs, ze) \<Rightarrow> zs + 2 \<le> ze \<and> ze \<le> length gs \<and> take (ze - zs) (drop zs gs) = replicate (ze - zs) 0)"

lemma zero_run_replicate: "take (zero_run gs i) (drop i gs) = replicate (zero_run gs i) 0"
proof -
  have "takeWhile (\<lambda>g. g = 0) xs = replicate (length (takeWhile (\<lambda>g. g = 0) xs)) 0" for xs :: "nat list"
    by (induction xs) auto
  then show ?thesis
    by (metis takeWhile_eq_take zero_run_def)
qed

lemma zero_run_le: "i \<le> length gs \<Longrightarrow> i + zero_run gs i \<le> length gs"
  using length_takeWhile_le [of "\<lambda>g. g = 0" "drop i gs"] by (simp add: zero_run_def)

lemma foldl_invariant:
  assumes "P a" and "\<And>a x. P a \<Longrightarrow> x \<in> set xs \<Longrightarrow> P (f a x)"
  shows "P (foldl f a xs)"
  using assms by (induction xs arbitrary: a) auto

lemma longest_run_ok: "run_ok gs (longest_run gs)"
  unfolding longest_run_def
proof (rule foldl_invariant)
  show "run_ok gs None" by (simp add: run_ok_def)
next
  fix best i
  assume "run_ok gs best" and "i \<in> set [0..<length gs]"
  moreover have "run_ok gs (Some (i, i + zero_run gs i))" if "2 \<le> zero_run gs i"
    using that \<open>i \<in> set [0..<length gs]\<close> zero_run_le [of i gs] zero_run_replicate [of gs i]
    by (simp add: run_ok_def)
  ultimately show "run_ok gs (let l = zero_run gs i in
      case best of None \<Rightarrow> if 2 \<le> l then Some (i, i + l) else None
      | Some (zs, ze) \<Rightarrow> if 2 \<le> l \<and> ze - zs < l then Some (i, i + l) else best)"
    by (auto simp: Let_def run_ok_def split: option.splits prod.splits)
qed

lemma parse_colons_groups:
  assumes "length gs = 8" and "\<forall>g \<in> set gs. g < 65536"
  shows "parse6groups (colons gs) = Some gs"
proof -
  have "gs \<noteq> []" using assms(1) by auto
  then have "\<not> HasPrefix (colons gs) ''::''"
    using colons_head by (fastforce simp: HasPrefix_def)
  with \<open>gs \<noteq> []\<close> assms show ?thesis
    by (simp add: parse6groups_def parse6loop_colons expand_ellipsis_def)
qed

lemma parse_compressed_groups:
  assumes len: "length gs = 8" and lt: "\<forall>g \<in> set gs. g < 65536" and run: "run_ok gs (Some (zs, ze))"
  shows "parse6groups (colons (take zs gs) @ ''::'' @ colons (drop ze gs)) = Some gs"
proof -
  have ze: "zs + 2 \<le> ze" "ze \<le> 8" and z: "take (ze - zs) (drop zs gs) = replicate (ze - zs) 0"
    using run len by (auto simp: run_ok_def)
  have split: "gs = take zs gs @ replicate (ze - zs) 0 @ drop ze gs"
  proof -
    have "gs = take zs gs @ take (ze - zs) (drop zs gs) @ drop (ze - zs) (drop zs gs)"
      by (simp only: append_take_drop_id)
    also have "drop (ze - zs) (drop zs gs) = drop ze gs" using ze by simp
    finally show ?thesis by (simp only: z)
  qed
  have lts: "\<forall>g \<in> set (take zs gs). g < 65536" "\<forall>g \<in> set (drop ze gs). g < 65536"
    using lt by (auto dest: in_set_takeD in_set_dropD)
  have tl: "parse6loop (take zs gs) (Some zs) (colons (drop ze gs)) =
      Some (take zs gs @ drop ze gs, Some zs, [])" if "ze < 8"
    using that ze lts len parse6loop_colons [of "drop ze gs" "take zs gs"] by simp
  have ex: "expand_ellipsis (take zs gs @ drop ze gs, Some zs, []) = Some gs"
    using ze len split by (simp add: expand_ellipsis_def)
  show ?thesis
  proof (cases "zs = 0")
    case True
    then show ?thesis
      using tl ex split ze len
      by (cases "ze = 8") (auto simp: parse6groups_def HasPrefix_def)
  next
    case False
    then have ne: "take zs gs \<noteq> []" using len by auto
    then obtain c cs where c: "colons (take zs gs) = c # cs" "c \<noteq> CHR '':''" by (rule colons_head)
    then have "\<not> HasPrefix (colons (take zs gs) @ ''::'' @ colons (drop ze gs)) ''::''"
      by (simp add: HasPrefix_def)
    moreover have "parse6loop [] None (colons (take zs gs) @ CHR '':'' # CHR '':'' # colons (drop ze gs))
        = Some (take zs gs @ drop ze gs, Some zs, [])"
      using parse6loop_colons_ellipsis [of "take zs gs" "[]" "colons (drop ze gs)"] ne lts ze len tl
      by (cases "ze = 8") (auto simp: min_def)
    ultimately show ?thesis using ex by (simp add: parse6groups_def)
  qed
qed

lemma parse6groups_string6: "parse6groups (string6 w) = Some (groups w)"
  using longest_run_ok [of "groups w"] parse_compressed_groups [of "groups w"]
    parse_colons_groups [of "groups w"] groups_lt [of _ w]
  by (auto simp: string6_def Let_def split: option.splits prod.splits)

subsection \<open>Round trips\<close>

definition addr_char :: "char \<Rightarrow> bool" where
  "addr_char c \<longleftrightarrow> hexval c \<noteq> None \<or> c = CHR '':'' \<or> c = CHR ''.''"

lemma addr_char_sep [simp]: "addr_char CHR '':''" "addr_char CHR ''.''"
  by (simp_all add: addr_char_def)

lemma Join_chars:
  assumes "\<forall>s \<in> set ss. \<forall>c \<in> set s. addr_char c" and "\<forall>c \<in> set sep. addr_char c"
  shows "\<forall>c \<in> set (Join ss sep). addr_char c"
  using assms by (induction ss sep rule: Join.induct) auto

lemma digits_chars: "2 \<le> b \<Longrightarrow> b \<le> 16 \<Longrightarrow> c \<in> set (digits b n) \<Longrightarrow> addr_char c"
  using digits_hexval [of b n] by (auto simp: list_all_iff addr_char_def)

lemma string4_chars: "\<forall>c \<in> set (string4 w). addr_char c"
  unfolding string4_def by (rule Join_chars) (auto intro: digits_chars [of 10, simplified])

lemma colons_chars: "\<forall>c \<in> set (colons gs). addr_char c"
  by (rule Join_chars) (auto intro: digits_chars [of 16, simplified])

lemma string6_chars: "\<forall>c \<in> set (string6 w). addr_char c"
  using colons_chars
  by (auto simp: string6_def Let_def addr_char_def split: option.splits prod.splits)

lemma not_addr_char [simp]: "\<not> addr_char CHR ''%''" "\<not> addr_char CHR ''/''"
  by (simp_all add: addr_char_def hexval_None)

lemma first_separator:
  assumes "\<forall>c \<in> set a. hexval c \<noteq> None" and "d \<in> set ''.:%''"
  shows "dropWhile (\<lambda>c. c \<notin> set ''.:%'') (a @ d # s) = d # s"
  using assms by (induction a) (auto simp: hexval_None)

lemma string4_first: "\<exists>a s. string4 w = a @ CHR ''.'' # s \<and> (\<forall>c \<in> set a. hexval c \<noteq> None)"
proof -
  obtain a b c d where o: "octets w = [a, b, c, d]" by (rule octets_cases)
  have "string4 w = dec a @ CHR ''.'' # Join (map dec [b, c, d]) ''.''"
    by (simp add: string4_def o)
  then show ?thesis
    using digits_hexval [of 10 a] by (auto simp: list_all_iff)
qed

lemma hex_chars: "\<forall>c \<in> set (hex g). hexval c \<noteq> None"
  using digits_hexval [of 16 g] by (auto simp: list_all_iff)

lemma colons_split:
  "gs \<noteq> [] \<Longrightarrow> colons gs @ t =
     hex (hd gs) @ (if tl gs = [] then t else CHR '':'' # colons (tl gs) @ t)"
  by (cases gs) (auto simp: Join_Cons)

lemma string6_first: "\<exists>a s. string6 w = a @ CHR '':'' # s \<and> (\<forall>c \<in> set a. hexval c \<noteq> None)"
proof (cases "longest_run (groups w)")
  case None
  have "groups w \<noteq> []" and "tl (groups w) \<noteq> []"
    using length_groups [of w] by (cases "groups w"; fastforce)+
  with None have "string6 w = hex (hd (groups w)) @ CHR '':'' # colons (tl (groups w))"
    using colons_split [of "groups w" "[]"] by (simp add: string6_def Let_def)
  then show ?thesis using hex_chars by blast
next
  case (Some r)
  obtain zs ze where r: "r = (zs, ze)" by force
  let ?l = "take zs (groups w)" and ?r = "colons (drop ze (groups w))"
  have s: "string6 w = colons ?l @ CHR '':'' # CHR '':'' # ?r"
    by (simp add: string6_def Some r Let_def)
  show ?thesis
  proof (cases "?l = []")
    case True
    with s have "string6 w = [] @ CHR '':'' # CHR '':'' # ?r" by (simp only: list.map Join.simps append.simps)
    then show ?thesis by (metis empty_iff empty_set)
  next
    case False
    with s show ?thesis
      unfolding s colons_split [OF False] using hex_chars [of "hd ?l"]
      by (cases "tl ?l = []") auto
  qed
qed

lemma takeWhile_no_percent:
  "\<forall>c \<in> set s. addr_char c \<Longrightarrow> takeWhile (\<lambda>c. c \<noteq> CHR ''%'') s = s"
  by (auto simp: takeWhile_eq_all_conv)

lemma parseIPv6_plain:
  assumes "\<forall>c \<in> set s. addr_char c"
  shows "parseIPv6 s = map_option (\<lambda>gs. Addr6 (word_of_groups gs) []) (parse6groups s)"
  using assms by (simp add: parseIPv6_def Let_def takeWhile_no_percent)

lemma ParseAddr_string4: "ParseAddr (string4 w) = Some (Addr4 w)"
proof -
  obtain a s where "string4 w = a @ CHR ''.'' # s" "\<forall>c \<in> set a. hexval c \<noteq> None"
    using string4_first by blast
  then have "ParseAddr (string4 w) = parseIPv4 (string4 w)"
    using first_separator [of a "CHR ''.''" s] by (simp add: ParseAddr_def)
  then show ?thesis by (simp add: parseIPv4_def parse_octets)
qed

lemma ParseAddr_string6: "ParseAddr (string6 w) = Some (Addr6 w [])"
proof -
  obtain a s where "string6 w = a @ CHR '':'' # s" "\<forall>c \<in> set a. hexval c \<noteq> None"
    using string6_first by blast
  then have "ParseAddr (string6 w) = parseIPv6 (string6 w)"
    using first_separator [of a "CHR '':''" s] by (simp add: ParseAddr_def)
  then show ?thesis
    using string6_chars [of w] by (simp add: parseIPv6_plain parse6groups_string6)
qed

text \<open>The IPv4-mapped form: an ellipsis, the group \<open>ffff\<close> and four octets.\<close>

lemma replicate_5: "replicate 5 x = [x, x, x, x, x]"
  by (simp add: numeral_eq_Suc)

lemma parse6groups_mapped:
  assumes "octets v = [a, b, c, d]"
  shows "parse6groups (''::ffff:'' @ string4 v) =
         Some (replicate 5 0 @ [65535, a * 256 + b, c * 256 + d])"
proof -
  have lt: "a < 256" "b < 256" "c < 256" "d < 256"
    using assms octets_cases [of v] by (metis list.inject)+
  have s4: "string4 v = dec a @ CHR ''.'' # Join (map dec [b, c, d]) ''.''"
    by (simp add: string4_def assms)
  obtain x ys where x: "dec a = x # ys" "hexval x \<noteq> None"
    using digits_hexval [of 10 a] by (cases "dec a") auto
  then have "x \<noteq> CHR '':''" by (metis hexval_None(1))
  with x s4 obtain xs where xs: "string4 v = x # xs" "x \<noteq> CHR '':''" by simp
  have "hex 65535 = ''ffff''" by code_simp
  then have "parse6loop [] (Some 0) (''ffff:'' @ string4 v) = parse6loop [65535] (Some 0) (string4 v)"
    using parse6loop_group [of 65535 "[]" "string4 v" x xs "Some 0"] xs by simp
  also have "\<dots> = Some ([65535, a * 256 + b, c * 256 + d], Some 0, [])"
  proof -
    obtain n where "hexfield 0 0 (string4 v) = Some (length (dec a), n, CHR ''.'' # Join (map dec [b, c, d]) ''.'')"
      using hexfield_dec [OF lt(1), of "CHR ''.'' # Join (map dec [b, c, d]) ''.''"] s4 by auto
    then show ?thesis
      using parse_octets [of v] assms by (simp add: parse6loop.simps [of "[65535]"])
  qed
  finally show ?thesis
    by (simp add: parse6groups_def HasPrefix_def expand_ellipsis_def replicate_5)
qed

lemma mapped_value:
  fixes w :: "128 word"
  assumes "drop_bit 32 w = 0xFFFF" and "octets (ucast w) = [a, b, c, d]"
  shows "word_of_groups (replicate 5 0 @ [65535, a * 256 + b, c * 256 + d]) = w"
proof -
  have "((a * 256 + b) * 256 + c) * 256 + d = unat (ucast w :: 32 word)"
    using octets_value [of "ucast w"] assms(2) by simp
  also have "\<dots> = unat w mod 2 ^ 32"
    by (simp only: unsigned_ucast_eq) (simp add: take_bit_eq_mod)
  finally have low: "((a * 256 + b) * 256 + c) * 256 + d = unat w mod 2 ^ 32" .
  have "unat w div 2 ^ 32 = 0xFFFF"
    using arg_cong [OF assms(1), of unat] by (simp only: unat_drop_bit_eq) (simp add: drop_bit_eq_div)
  then have "unat w = 65535 * 2 ^ 32 + (((a * 256 + b) * 256 + c) * 256 + d)"
    using low div_mult_mod_eq [of "unat w" "2 ^ 32"] by simp
  then have "foldl (\<lambda>a g. a * 65536 + g) 0 (replicate 5 0 @ [65535, a * 256 + b, c * 256 + d]) = unat w"
    by (simp add: replicate_5)
  then show ?thesis by (simp add: word_of_groups_def)
qed

lemma ParseAddr_mapped:
  assumes "Is4In6 (Addr6 w [])"
  shows "ParseAddr (''::ffff:'' @ string4 (ucast w)) = Some (Addr6 w [])"
proof -
  obtain a b c d where o: "octets (ucast w :: 32 word) = [a, b, c, d]" by (rule octets_cases)
  have "\<forall>c \<in> set (''::ffff:'' @ string4 (ucast w)). addr_char c"
    using string4_chars by (auto simp: addr_char_def hexval_def in_range_def)
  then have "parseIPv6 (''::ffff:'' @ string4 (ucast w)) = Some (Addr6 w [])"
    using parse6groups_mapped [OF o] mapped_value [OF _ o] assms by (simp add: parseIPv6_plain)
  then show ?thesis by (simp add: ParseAddr_def)
qed

lemma ParseAddr_addrString:
  assumes "a \<noteq> NoAddr" and "\<not> hasZone a"
  shows "ParseAddr (addrString a) = Some a"
  using assms
  by (cases a)
    (use ParseAddr_mapped in \<open>auto simp: ParseAddr_string4 ParseAddr_string6 simp del: Is4In6.simps\<close>)

lemma addrString_chars:
  assumes "a \<noteq> NoAddr" and "\<not> hasZone a"
  shows "\<forall>c \<in> set (addrString a). addr_char c"
  using assms string4_chars string6_chars
  by (cases a) (auto simp: addr_char_def hexval_def in_range_def)

lemma hd_dec: "0 < n \<Longrightarrow> hd (dec n) \<noteq> CHR ''0''"
proof (induction n rule: less_induct)
  case (less n)
  have "digit n \<noteq> CHR ''0''" if "n < 10"
    using that less.prems byte_digit [of n] by auto
  with less.IH [of "n div 10"] show ?case
    by (cases "n < 10") (simp_all add: digits.simps [of 10 n] hd_append)
qed

lemma parseBits_dec: "parseBits (dec n) = Some (int n)"
proof -
  have "list_all is_digit (dec n)"
  proof (induction n rule: less_induct)
    case (less n)
    then show ?case
      by (cases "n < 10") (simp_all add: digits.simps [of 10 n])
  qed
  moreover have "\<not> (1 < length (dec n) \<and> hd (dec n) = CHR ''0'')"
    by (cases "n = 0") (auto simp: hd_dec digits.simps [of 10 0])
  moreover have "decval (dec n) = n"
  proof (induction n rule: less_induct)
    case (less n)
    then show ?case
      by (cases "n < 10") (simp_all add: decval_def digits.simps [of 10 n] byte_digit)
  qed
  ultimately show ?thesis by (simp add: parseBits_def)
qed

lemma ParsePrefix_parts:
  assumes "CHR ''/'' \<notin> set t"
  shows "ParsePrefix (s @ CHR ''/'' # t) =
         (case ParseAddr s of None \<Rightarrow> None
          | Some a \<Rightarrow> if hasZone a then None
              else (case parseBits t of None \<Rightarrow> None
                    | Some bits \<Rightarrow> if BitLen a < bits then None else Some (PrefixFrom a bits)))"
proof -
  have "takeWhile (\<lambda>c. c \<noteq> CHR ''/'') (rev t @ CHR ''/'' # rev s) = rev t"
    using assms by (subst takeWhile_append2) auto
  then show ?thesis by (simp add: ParsePrefix_def Let_def split: option.split)
qed

lemma dec_no_slash: "CHR ''/'' \<notin> set (dec n)"
  using digits_chars [of 10 "CHR ''/''" n] by auto

text \<open>Parsing a printed valid prefix gives the prefix back.\<close>

lemma ParsePrefix_prefixString:
  assumes "wf_prefix p" and "IsValid p"
  shows "ParsePrefix (prefixString p) = Some p"
proof -
  obtain a b where p: "p = Prefix a b" by (cases p)
  have a: "a \<noteq> NoAddr" "\<not> hasZone a" "0 \<le> b" "b \<le> BitLen a"
    using assms by (auto simp: p wf_prefix_def IsValid_def)
  have "prefixString p = addrString a @ CHR ''/'' # dec (nat b)"
    using a by (simp add: prefixString_def p IsValid_def Itoa_def)
  moreover have "PrefixFrom a b = p"
    using a by (cases a) (auto simp: PrefixFrom_def p)
  ultimately show ?thesis
    using a ParseAddr_addrString [OF a(1,2)] by (simp add: ParsePrefix_parts dec_no_slash parseBits_dec)
qed

lemma wf_ParsePrefix [wf_intros]: "ParsePrefix s = Some p \<Longrightarrow> wf_prefix p \<and> IsValid p"
proof -
  assume "ParsePrefix s = Some p"
  then obtain a bits t u where "p = PrefixFrom a bits" "ParseAddr t = Some a"
      "bits \<le> BitLen a" "parseBits u = Some bits"
    by (simp add: ParsePrefix_def Let_def split: if_splits option.splits) (metis not_less)
  moreover have "ParseAddr t \<noteq> Some NoAddr" for t
    by (auto simp: ParseAddr_def parseIPv4_def parseIPv6_def Let_def split: list.splits)
  moreover have "parseBits t = Some n \<Longrightarrow> 0 \<le> n" for t n
    by (auto simp: parseBits_def split: if_splits)
  ultimately have "p = PrefixFrom a bits" and "0 \<le> pBits p"
    by (fastforce simp: PrefixFrom_def)+
  then show ?thesis by (simp add: IsValid_def)
qed

lemma wf6_ParsePrefix: "ParsePrefix s = Some p \<Longrightarrow> Is6 (pAddr p) \<Longrightarrow> wf6 p"
  using wf_ParsePrefix [of s p] by (auto simp: IsValid_def intro: wf6I)

subsection \<open>The text interface\<close>

text \<open>
  What the store and its clients rely on: values kept as text come back unchanged. Two values
  that print alike are equal, so a uniqueness constraint on the text is one on the values.
\<close>

locale text_codec =
  fixes print :: "'a \<Rightarrow> string" and parse :: "string \<Rightarrow> 'a option" and valid :: "'a \<Rightarrow> bool"
  assumes parse_print: "valid x \<Longrightarrow> parse (print x) = Some x"
begin

lemma print_inj: "valid x \<Longrightarrow> valid y \<Longrightarrow> print x = print y \<Longrightarrow> x = y"
  by (metis option.inject parse_print)

lemma print_eq_iff: "valid x \<Longrightarrow> valid y \<Longrightarrow> print x = print y \<longleftrightarrow> x = y"
  using print_inj by blast

lemma print_nonempty: "valid x \<Longrightarrow> parse [] = None \<Longrightarrow> print x \<noteq> []"
  using parse_print by fastforce

end

interpretation prefix_text: text_codec prefixString ParsePrefix "\<lambda>p. wf_prefix p \<and> IsValid p"
  by unfold_locales (simp add: ParsePrefix_prefixString)

interpretation addr_text: text_codec addrString ParseAddr "\<lambda>a. a \<noteq> NoAddr \<and> \<not> hasZone a"
  by unfold_locales (simp add: ParseAddr_addrString)

lemma ParsePrefix_Nil [simp]: "ParsePrefix [] = None"
  by (simp add: ParsePrefix_def)

lemma ParseAddr_Nil [simp]: "ParseAddr [] = None"
  by (simp add: ParseAddr_def)

lemma wf6_valid: "wf6 p \<Longrightarrow> wf_prefix p \<and> IsValid p"
  by (erule wf6E) (auto simp: wf_prefix_def IsValid_def)

end
