(* ===== verification/Netip_Blocks.thy ===== *)
theory Netip_Blocks
  imports Netip_Text
begin

section \<open>Nested address blocks\<close>

text \<open>
  The laws of CIDR blocks that the allocator, the configuration checks and the Neighbor
  Discovery proxy rely on, stated once as a locale over any kind of prefix and interpreted on
  the prefixes of \<open>net/netip\<close>. The second part relates an IPv6 address to its 16 bytes.
\<close>

unbundle bit_operations_syntax

subsection \<open>The interface\<close>

text \<open>
  \<open>agree n a b\<close>: the two blocks agree in their first \<open>n\<close> bits. \<open>within c q\<close> is what a containment
  test of \<open>q\<close>'s address decides, \<open>meets a b\<close> what an overlap test decides.
\<close>

locale block_tree =
  fixes valid :: "'p \<Rightarrow> bool" and len :: "'p \<Rightarrow> nat" and agree :: "nat \<Rightarrow> 'p \<Rightarrow> 'p \<Rightarrow> bool"
    and within :: "'p \<Rightarrow> 'p \<Rightarrow> bool" and meets :: "'p \<Rightarrow> 'p \<Rightarrow> bool"
  assumes agree_refl: "agree n a a"
    and agree_sym: "agree n a b \<Longrightarrow> agree n b a"
    and agree_trans: "agree n a b \<Longrightarrow> agree n b c \<Longrightarrow> agree n a c"
    and agree_mono: "agree n a b \<Longrightarrow> m \<le> n \<Longrightarrow> n \<le> len a \<Longrightarrow> valid a \<Longrightarrow> agree m a b"
    and within_iff: "valid c \<Longrightarrow> valid q \<Longrightarrow> within c q \<longleftrightarrow> agree (len c) c q"
    and meets_iff: "valid a \<Longrightarrow> valid b \<Longrightarrow> meets a b \<longleftrightarrow> agree (min (len a) (len b)) a b"
begin

lemma meets_sym: "valid a \<Longrightarrow> valid b \<Longrightarrow> meets a b \<Longrightarrow> meets b a"
  by (auto simp: meets_iff min.commute intro: agree_sym)

lemma within_self: "valid a \<Longrightarrow> within a a"
  by (simp add: within_iff agree_refl)

lemma meets_self: "valid a \<Longrightarrow> meets a a"
  by (simp add: meets_iff agree_refl)

lemma within_meets: "valid c \<Longrightarrow> valid q \<Longrightarrow> within c q \<Longrightarrow> len c \<le> len q \<Longrightarrow> meets c q"
  by (simp add: within_iff meets_iff min_def)

text \<open>What meets a subblock meets the block.\<close>

lemma meets_up:
  assumes v: "valid c" "valid q" "valid u" and "within c q" and "len c \<le> len q" and "meets q u"
  shows "meets c u"
proof -
  let ?n = "min (len c) (len u)"
  have "agree (min (len q) (len u)) q u" using assms by (simp add: meets_iff)
  then have "agree ?n q u" by (rule agree_mono) (use assms in auto)
  moreover have "agree ?n c q"
    by (rule agree_mono [of "len c"]) (use assms in \<open>auto simp: within_iff\<close>)
  ultimately show ?thesis using v by (auto simp: meets_iff intro: agree_trans)
qed

text \<open>What covers a block covers its subblocks.\<close>

lemma meets_down:
  assumes v: "valid c" "valid q" "valid u" and "within c q" and "len c \<le> len q"
    and "meets c u" and "len u \<le> len c"
  shows "meets q u"
proof -
  have "agree (len u) c u" using assms by (simp add: meets_iff min_absorb2)
  moreover have "agree (len u) q c"
    by (rule agree_sym, rule agree_mono [of "len c"]) (use assms in \<open>auto simp: within_iff\<close>)
  ultimately have "agree (len u) q u" by (blast intro: agree_trans)
  then show ?thesis using assms by (simp add: meets_iff min_absorb2)
qed

text \<open>Blocks inside disjoint blocks are disjoint.\<close>

lemma disjoint_within:
  assumes v: "valid a" "valid b" "valid x" "valid y"
    and "\<not> meets a b" and "within a x" "len a \<le> len x" and "within b y" "len b \<le> len y"
  shows "\<not> meets x y"
proof
  assume "meets x y"
  then have "meets a y" using assms by (blast intro: meets_up)
  then have "meets b a" using assms by (blast intro: meets_up meets_sym)
  then show False using assms by (blast intro: meets_sym)
qed

end

subsection \<open>IPv6 prefixes\<close>

definition word6 :: "prefix \<Rightarrow> 128 word" where
  "word6 p = (case pAddr p of Addr6 w _ \<Rightarrow> w | _ \<Rightarrow> 0)"

definition len6 :: "prefix \<Rightarrow> nat" where
  "len6 p = nat (pBits p)"

definition agree6 :: "nat \<Rightarrow> prefix \<Rightarrow> prefix \<Rightarrow> bool" where
  "agree6 n p q \<longleftrightarrow> blk n (word6 p) = blk n (word6 q)"

lemma word6_Prefix [simp]: "word6 (Prefix (Addr6 w z) b) = w"
  by (simp add: word6_def)

lemma len6_Prefix [simp]: "len6 (Prefix a (int b)) = b"
  by (simp add: len6_def)

lemma len6_le: "wf6 p \<Longrightarrow> len6 p \<le> 128"
  by (auto simp: wf6_def len6_def)

lemma int_len6: "wf6 p \<Longrightarrow> int (len6 p) = pBits p"
  by (auto simp: wf6_def len6_def)

lemma Contains_agree6: "wf6 c \<Longrightarrow> wf6 q \<Longrightarrow> Contains c (pAddr q) \<longleftrightarrow> agree6 (len6 c) c q"
  by (elim wf6E) (simp add: agree6_def Contains6 del: Contains.simps)

lemma agree6_mono: "agree6 n a b \<Longrightarrow> m \<le> n \<Longrightarrow> n \<le> 128 \<Longrightarrow> agree6 m a b"
  by (simp add: agree6_def blk_blk [of m n])

lemma prefix6_eqI:
  assumes "wf6 p" "wf6 q" and "len6 p = len6 q" and "agree6 128 p q"
  shows "p = q"
  using assms by (elim wf6E) (auto simp: agree6_def word_unat_eq_iff)

lemma Masked_agree6:
  assumes "wf6 p" "wf6 q" and "Masked p = p" "Masked q = q" and "len6 p = len6 q"
    and "agree6 (len6 p) p q"
  shows "p = q"
proof -
  obtain w b where p: "p = Prefix (Addr6 w []) (int b)" "b \<le> 128" by (rule wf6E [OF assms(1)])
  obtain v c where q: "q = Prefix (Addr6 v []) (int c)" "c \<le> 128" by (rule wf6E [OF assms(2)])
  have bc: "c = b" using assms(5) p q by simp
  have "w = clear_low (128 - b) w" "v = clear_low (128 - b) v"
    using assms(3,4) p q bc by (simp_all add: Masked6 del: Masked.simps)
  then have "unat w = blk b w * 2 ^ (128 - b)" "unat v = blk b v * 2 ^ (128 - b)"
    by (metis unat_clear_low_blk)+
  moreover have "blk b w = blk b v" using assms(6) p q by (simp add: agree6_def)
  ultimately show ?thesis using p q bc by (simp add: word_unat_eq_iff)
qed

lemma agree6_Masked: "wf6 p \<Longrightarrow> agree6 (len6 p) (Masked p) p"
  by (erule wf6E) (simp add: agree6_def Masked6 del: Masked.simps)

lemma len6_Masked [simp]: "wf6 p \<Longrightarrow> len6 (Masked p) = len6 p"
  by (simp add: len6_def)

subsection \<open>The bytes of an address\<close>

lemma be_word_snoc: "be_word (bs @ [b]) = be_word bs * 256 + ucast b"
  by (simp add: be_word_def)

lemma bit_mult_256_add:
  fixes x :: "'a::len word" and b :: "8 word"
  assumes "k < LENGTH('a)"
  shows "bit (x * 256 + ucast b) k \<longleftrightarrow> (if k < 8 then bit b k else bit x (k - 8))"
proof -
  have p: "x * 256 = push_bit 8 x" by (simp add: push_bit_eq_mult)
  have "push_bit 8 x AND (ucast b :: 'a word) = 0"
    by (rule bit_word_eqI) (auto simp: bit_simps dest: bit_imp_le_length)
  then have "push_bit 8 x + ucast b = push_bit 8 x OR ucast b"
    by (simp add: disjunctive_add_eq_or)
  then show ?thesis
    using assms by (auto simp: p bit_simps dest: bit_imp_le_length)
qed

lemma bit_be_word:
  assumes "k < LENGTH('a::len)"
  shows "bit (be_word bs :: 'a word) k \<longleftrightarrow>
         k div 8 < length bs \<and> bit (bs ! (length bs - 1 - k div 8)) (k mod 8)"
  using assms
proof (induction bs arbitrary: k rule: rev_induct)
  case Nil
  show ?case by (simp add: be_word_def)
next
  case (snoc b bs)
  show ?case
  proof (cases "k < 8")
    case True
    then show ?thesis
      using snoc.prems bit_mult_256_add [of k "be_word bs" b] by (simp add: be_word_snoc)
  next
    case False
    then have k: "k div 8 = Suc ((k - 8) div 8)" "(k - 8) mod 8 = k mod 8"
      using le_div_geq [of 8 k] le_mod_geq [of 8 k] by simp_all
    have "bit (be_word (bs @ [b]) :: 'a word) k = bit (be_word bs :: 'a word) (k - 8)"
      using False snoc.prems bit_mult_256_add [of k "be_word bs" b] by (simp add: be_word_snoc)
    also have "\<dots> \<longleftrightarrow> (k - 8) div 8 < length bs \<and> bit (bs ! (length bs - 1 - (k - 8) div 8)) (k mod 8)"
      using snoc.IH [of "k - 8"] snoc.prems k by simp
    finally show ?thesis using k by (auto simp: nth_append)
  qed
qed

lemma length_bytes16 [simp]: "length (bytes16 w) = 16"
  by (simp add: bytes16_def)

lemma nth_bytes16: "i < 16 \<Longrightarrow> bytes16 w ! i = byte_of w (15 - i)"
  by (simp add: bytes16_def rev_nth)

lemma bit_byte_of: "j < 8 \<Longrightarrow> bit (byte_of w i) j \<longleftrightarrow> bit w (8 * i + j)"
  by (auto simp: byte_of_def bit_simps ac_simps)

lemma bit_bytes16: "k < 128 \<Longrightarrow> bit (bytes16 w ! (15 - k div 8)) (k mod 8) \<longleftrightarrow> bit w k"
  by (simp add: nth_bytes16 bit_byte_of)

lemma be_word_bytes16 [simp]: "be_word (bytes16 w) = w"
proof (rule bit_word_eqI)
  fix k assume k: "k < LENGTH(128)"
  then have "k div 8 < 16" by simp
  with k show "bit (be_word (bytes16 w) :: 128 word) k \<longleftrightarrow> bit w k"
    using bit_be_word [where ?'a = 128, of k "bytes16 w"] bit_bytes16 [of k w] by simp
qed

lemma bytes16_be_word:
  assumes "length bs = 16"
  shows "bytes16 (be_word bs) = bs"
proof (rule nth_equalityI)
  fix i assume "i < length (bytes16 (be_word bs :: 128 word))"
  then have i: "i < 16" by simp
  show "bytes16 (be_word bs) ! i = bs ! i"
  proof (rule bit_word_eqI)
    fix j assume "j < LENGTH(8)"
    then have j: "j < 8" by simp
    have k: "8 * (15 - i) + j < 128" "(8 * (15 - i) + j) div 8 = 15 - i" "(8 * (15 - i) + j) mod 8 = j"
      using i j by simp_all
    have "bit (bytes16 (be_word bs) ! i) j \<longleftrightarrow> bit (be_word bs :: 128 word) (8 * (15 - i) + j)"
      using i j by (simp add: nth_bytes16 bit_byte_of)
    also have "\<dots> \<longleftrightarrow> bit (bs ! i) j"
      using bit_be_word [where ?'a = 128, of "8 * (15 - i) + j" bs] i k assms by simp
    finally show "bit (bytes16 (be_word bs) ! i) j \<longleftrightarrow> bit (bs ! i) j" .
  qed
qed (simp add: assms)

text \<open>Setting one bit of one byte sets that bit of the word.\<close>

lemma mirrored_bit:
  fixes n k :: nat
  assumes "n < 128" and "k < 128"
  shows "n div 8 = 15 - k div 8 \<and> k mod 8 = 7 - n mod 8 \<longleftrightarrow> k = 127 - n"
proof -
  obtain a b where n: "n = 8 * a + b" "b < 8" "a = n div 8" "b = n mod 8"
    by (simp add: mult.commute)
  obtain c d where k: "k = 8 * c + d" "d < 8" "c = k div 8" "d = k mod 8"
    by (simp add: mult.commute)
  have c: "c < 16" using assms(2) k(1) by linarith
  have "a = 15 - c \<and> d = 7 - b \<longleftrightarrow> 8 * c + d + (8 * a + b) = 127" (is "?l \<longleftrightarrow> ?r")
  proof
    assume ?l
    then have "a + c = 15" "d + b = 7" using c n(2) by simp_all
    then show ?r by linarith
  next
    assume r: ?r
    then have "a + c < 16" "14 < a + c" using n(2) k(2) by linarith+
    then have "a + c = 15" "d + b = 7" using r by linarith+
    then show ?l by linarith
  qed
  also have "\<dots> \<longleftrightarrow> k = 127 - n" using assms n(1) k(1) by linarith
  finally show ?thesis by (simp only: n(3,4) k(3,4))
qed

lemma be_word_set_bit:
  assumes "n < 128"
  shows "be_word ((bytes16 w)[n div 8 := (bytes16 w ! (n div 8)) OR push_bit (7 - n mod 8) 1]) =
         w OR push_bit (127 - n) 1"
proof (rule bit_word_eqI)
  fix k assume "k < LENGTH(128)"
  then have k: "k < 128" by simp
  let ?bs = "(bytes16 w)[n div 8 := (bytes16 w ! (n div 8)) OR push_bit (7 - n mod 8) 1]"
  have kd: "k div 8 < 16" using k by simp
  have nd: "n div 8 < 16" using assms by simp
  have "bit (be_word ?bs :: 128 word) k \<longleftrightarrow> bit (?bs ! (15 - k div 8)) (k mod 8)"
    using bit_be_word [where ?'a = 128, of k ?bs] k kd by simp
  also have "\<dots> \<longleftrightarrow> bit w k \<or> n div 8 = 15 - k div 8 \<and> k mod 8 = 7 - n mod 8"
    using bit_bytes16 [of k w] k kd nd
    by (auto simp: nth_list_update bit_simps)
  also have "n div 8 = 15 - k div 8 \<and> k mod 8 = 7 - n mod 8 \<longleftrightarrow> k = 127 - n"
    using assms k by (rule mirrored_bit)
  finally show "bit (be_word ?bs :: 128 word) k \<longleftrightarrow> bit (w OR push_bit (127 - n) 1) k"
    using k by (auto simp: bit_simps)
qed

end
