(* ===== verification/Models.thy ===== *)
theory Models
  imports Netip_Blocks
begin

section \<open>The data model (internal/broker/models.go)\<close>

text \<open>
  The structs of \<open>models.go\<close> as records, its constants, and its functions: how a provider
  connection's strings are read as prefixes, which slice of a prefix the host keeps for itself,
  how the three levels of the IPv4 egress mode resolve, and which addresses a peer may use.
  A \<open>time.Time\<close> is a number of nanoseconds since Go's zero time.
\<close>

unbundle bit_operations_syntax

type_synonym time = int

definition warpInterfaceName :: string where "warpInterfaceName = ''wg-warp''"

definition V4ModeInherit :: string where "V4ModeInherit = ''''"
definition V4ModeOff :: string where "V4ModeOff = ''off''"
definition V4ModeNative :: string where "V4ModeNative = ''native''"
definition V4ModeWarp :: string where "V4ModeWarp = ''warp''"

definition InterTunnelIsolated :: string where "InterTunnelIsolated = ''isolated''"
definition InterTunnelGroups :: string where "InterTunnelGroups = ''groups''"
definition InterTunnelAny :: string where "InterTunnelAny = ''any''"

definition UpstreamRouted :: string where "UpstreamRouted = ''routed''"
definition UpstreamOnLink :: string where "UpstreamOnLink = ''on-link''"

lemmas mode_defs = V4ModeInherit_def V4ModeOff_def V4ModeNative_def V4ModeWarp_def
lemmas policy_defs = InterTunnelIsolated_def InterTunnelGroups_def InterTunnelAny_def
lemmas delegation_defs = UpstreamRouted_def UpstreamOnLink_def

definition validUpstreamMode :: "string \<Rightarrow> bool" where
  "validUpstreamMode m \<longleftrightarrow> m = UpstreamRouted \<or> m = UpstreamOnLink"

record settings =
  V4NAT :: bool
  V4Warp :: bool
  V4Pool :: string
  DefaultDNS :: string
  InterTunnelPolicy :: string

record upstream =
  up_ID :: int
  up_Name :: string
  up_V6CIDR :: string
  up_Mode :: string
  up_PublicV4 :: string
  up_EgressInterface :: string
  up_InterfaceName :: string
  up_EndpointHost :: string
  up_EndpointPort :: int
  up_ServerAddress :: string
  up_ServerPrivateKey :: string
  up_TransportAddress :: string
  up_MTU :: int
  up_Keepalive :: int
  up_MinPrefix :: int
  up_MaxPrefix :: int
  up_DefaultPrefix :: int
  up_V4Mode :: string
  up_TunnelCount :: int
  up_CreatedAt :: time
  up_UpdatedAt :: time

text \<open>The zero value of the struct, which a failed map lookup yields.\<close>

definition zeroUpstream :: upstream where
  "zeroUpstream = \<lparr>up_ID = 0, up_Name = [], up_V6CIDR = [], up_Mode = [], up_PublicV4 = [],
     up_EgressInterface = [], up_InterfaceName = [], up_EndpointHost = [], up_EndpointPort = 0,
     up_ServerAddress = [], up_ServerPrivateKey = [], up_TransportAddress = [], up_MTU = 0,
     up_Keepalive = 0, up_MinPrefix = 0, up_MaxPrefix = 0, up_DefaultPrefix = 0, up_V4Mode = [],
     up_TunnelCount = 0, up_CreatedAt = 0, up_UpdatedAt = 0\<rparr>"

record tunnel =
  t_ID :: int
  t_UpstreamID :: int
  t_Label :: string
  t_PublicKey :: string
  t_PresharedKey :: string
  t_PrivateKey :: string
  t_V6CIDR :: string
  t_V4Address :: string
  t_DNSOverride :: string
  t_Status :: string
  t_LastError :: string
  t_V4Enabled :: bool
  t_Enabled :: bool
  t_V4Mode :: string
  t_QuotaGiB :: int
  t_QuotaUsedBytes :: int
  t_QuotaPeriod :: string
  t_QuotaDisabled :: bool
  t_RoutingGroups :: "string list"
  t_MTUOverride :: int
  t_CreatedAt :: time
  t_UpdatedAt :: time
  t_LastHandshake :: time
  t_RXBytes :: int
  t_TXBytes :: int

definition zeroTunnel :: tunnel where
  "zeroTunnel = \<lparr>t_ID = 0, t_UpstreamID = 0, t_Label = [], t_PublicKey = [], t_PresharedKey = [],
     t_PrivateKey = [], t_V6CIDR = [], t_V4Address = [], t_DNSOverride = [], t_Status = [],
     t_LastError = [], t_V4Enabled = False, t_Enabled = False, t_V4Mode = [], t_QuotaGiB = 0,
     t_QuotaUsedBytes = 0, t_QuotaPeriod = [], t_QuotaDisabled = False, t_RoutingGroups = [],
     t_MTUOverride = 0, t_CreatedAt = 0, t_UpdatedAt = 0, t_LastHandshake = 0, t_RXBytes = 0,
     t_TXBytes = 0\<rparr>"

record routing_group =
  g_ID :: int
  g_Name :: string
  g_TunnelCount :: int
  g_CreatedAt :: time

record health =
  h_Drift :: "string list"
  h_LastReconcile :: time
  h_Error :: string

record warp_account =
  w_PrivateKey :: string
  w_PeerPublicKey :: string
  w_IPv4Address :: string
  w_Endpoint :: string
  w_DeviceID :: string
  w_AccountID :: string
  w_AccountType :: string
  w_CreatedAt :: time
  w_LastTrace :: string
  w_LastTestAt :: time

definition zeroWarpAccount :: warp_account where
  "zeroWarpAccount = \<lparr>w_PrivateKey = [], w_PeerPublicKey = [], w_IPv4Address = [], w_Endpoint = [],
     w_DeviceID = [], w_AccountID = [], w_AccountType = [], w_CreatedAt = 0, w_LastTrace = [],
     w_LastTestAt = 0\<rparr>"

subsection \<open>Reading a connection's prefixes\<close>

definition upstreamMode :: "upstream \<Rightarrow> string" where
  "upstreamMode up = (if validUpstreamMode (up_Mode up) then up_Mode up else UpstreamRouted)"

definition transportPrefix :: "upstream \<Rightarrow> prefix option" where
  "transportPrefix up =
     (case ParsePrefix (up_TransportAddress up) of
        None \<Rightarrow> None
      | Some p \<Rightarrow> if Is6 (pAddr p) then Some p else None)"

definition delegatedPrefix :: "upstream \<Rightarrow> prefix option" where
  "delegatedPrefix up =
     (case ParsePrefix (up_V6CIDR up) of
        None \<Rightarrow> None
      | Some p \<Rightarrow> if Is6 (pAddr p) then Some (Masked p) else None)"

definition serverReservation :: "upstream \<Rightarrow> prefix option" where
  "serverReservation up =
     (if upstreamMode up = UpstreamOnLink then None
      else case ParsePrefix (up_ServerAddress up) of
        None \<Rightarrow> None
      | Some server \<Rightarrow>
          (case delegatedPrefix up of
             None \<Rightarrow> None
           | Some upstream \<Rightarrow>
               if \<not> Contains upstream (pAddr server) then None
               else let server = (if pBits server < up_MaxPrefix up
                                  then PrefixFrom (pAddr server) (up_MaxPrefix up) else server)
                    in Some (Masked server)))"

definition tunnelInterfaceAddress :: "upstream \<Rightarrow> string" where
  "tunnelInterfaceAddress up =
     (case transportPrefix up of
        Some transport \<Rightarrow> if upstreamMode up = UpstreamOnLink then prefixString transport
                          else up_ServerAddress up
      | None \<Rightarrow> up_ServerAddress up)"

definition HasRoutingGroup :: "tunnel \<Rightarrow> string \<Rightarrow> bool" where
  "HasRoutingGroup t name = list_ex (\<lambda>group. group = name) (t_RoutingGroups t)"

definition Exists :: "warp_account \<Rightarrow> bool" where
  "Exists w \<longleftrightarrow> w_PrivateKey w \<noteq> [] \<and> w_PeerPublicKey w \<noteq> [] \<and> w_IPv4Address w \<noteq> [] \<and> w_Endpoint w \<noteq> []"

subsection \<open>Matching tunnels with their connections\<close>

definition upstreamsByID :: "upstream list \<Rightarrow> (int \<rightharpoonup> upstream)" where
  "upstreamsByID us = foldl (\<lambda>byID u. byID(up_ID u \<mapsto> u)) Map.empty us"

definition tunnelsByUpstream :: "upstream list \<Rightarrow> tunnel list \<Rightarrow> (int \<rightharpoonup> tunnel list)" where
  "tunnelsByUpstream us ts =
     (let known = upstreamsByID us in
      foldl (\<lambda>grouped t.
          if known (t_UpstreamID t) = None then grouped
          else grouped(t_UpstreamID t \<mapsto>
            (case grouped (t_UpstreamID t) of None \<Rightarrow> [] | Some l \<Rightarrow> l) @ [t]))
        Map.empty ts)"

subsection \<open>The IPv4 egress mode\<close>

definition globalV4Mode :: "settings \<Rightarrow> string" where
  "globalV4Mode cfg =
     (if V4Warp cfg then V4ModeWarp else if V4NAT cfg then V4ModeNative else V4ModeOff)"

definition upstreamV4Mode :: "settings \<Rightarrow> upstream \<Rightarrow> string" where
  "upstreamV4Mode cfg up = (if up_V4Mode up \<noteq> V4ModeInherit then up_V4Mode up else globalV4Mode cfg)"

definition tunnelV4Mode :: "settings \<Rightarrow> upstream \<Rightarrow> tunnel \<Rightarrow> string" where
  "tunnelV4Mode cfg up t = (if t_V4Mode t \<noteq> V4ModeInherit then t_V4Mode t else upstreamV4Mode cfg up)"

definition resolvedV4Mode :: "settings \<Rightarrow> (int \<rightharpoonup> upstream) \<Rightarrow> tunnel \<Rightarrow> string" where
  "resolvedV4Mode cfg byID t =
     (case byID (t_UpstreamID t) of None \<Rightarrow> V4ModeOff | Some up \<Rightarrow> tunnelV4Mode cfg up t)"

definition tunnelIPv4Enabled :: "settings \<Rightarrow> upstream \<Rightarrow> tunnel \<Rightarrow> bool" where
  "tunnelIPv4Enabled cfg up t \<longleftrightarrow> tunnelV4Mode cfg up t \<noteq> V4ModeOff \<and> t_V4Address t \<noteq> []"

definition validTunnelV4Mode :: "string \<Rightarrow> bool" where
  "validTunnelV4Mode m \<longleftrightarrow> m = V4ModeInherit \<or> m = V4ModeOff \<or> m = V4ModeNative \<or> m = V4ModeWarp"

subsection \<open>Addresses of a peer\<close>

text \<open>
  \<open>offsetAddr\<close> adds a 64-bit offset to the 16 bytes of an address, least significant byte first,
  and stops as soon as nothing is carried.
\<close>

fun offset_bytes :: "8 word list \<Rightarrow> 64 word \<Rightarrow> 8 word list" where
  "offset_bytes [] carry = []"
| "offset_bytes (v # vs) carry =
     (if 0 < carry then
        let sum = ucast v + (carry AND 0xff)
        in ucast sum # offset_bytes vs (drop_bit 8 carry + drop_bit 8 sum)
      else v # vs)"

definition offsetAddr :: "addr \<Rightarrow> 64 word \<Rightarrow> addr" where
  "offsetAddr base offset = AddrFrom16 (rev (offset_bytes (rev (As16 base)) offset))"

definition clientTransportAddress :: "upstream \<Rightarrow> tunnel \<Rightarrow> addr option" where
  "clientTransportAddress up t =
     (case transportPrefix up of
        None \<Rightarrow> None
      | Some transport \<Rightarrow>
          if upstreamMode up \<noteq> UpstreamOnLink \<or> t_ID t \<le> 0 then None
          else let candidate = offsetAddr (pAddr (Masked transport)) (word_of_int (t_ID t) + 1);
                   candidate = (if candidate = pAddr transport then offsetAddr candidate 1 else candidate)
               in if \<not> Contains transport candidate then None else Some candidate)"

definition tunnelAllowedIPs :: "settings \<Rightarrow> upstream \<Rightarrow> tunnel \<Rightarrow> prefix list" where
  "tunnelAllowedIPs cfg up t =
     (case ParsePrefix (t_V6CIDR t) of None \<Rightarrow> [] | Some delegated \<Rightarrow> [Masked delegated]) @
     (case clientTransportAddress up t of None \<Rightarrow> [] | Some a \<Rightarrow> [PrefixFrom a 128]) @
     (if tunnelIPv4Enabled cfg up t
      then (case ParseAddr (t_V4Address t) of None \<Rightarrow> [] | Some a \<Rightarrow> [PrefixFrom a 32])
      else [])"

end
