(* ===== verification/Allocator.thy ===== *)
theory Allocator
  imports Models
begin

section \<open>Prefix allocation (internal/broker/allocator.go)\<close>

text \<open>
  The allocator walks the binary tree of subprefixes of a pool: \<open>freePrefixCount\<close> counts the
  free, aligned subprefixes of a given length, \<open>freePrefixAt\<close> selects one by its rank, and
  \<open>allocateWithChooser\<close> draws the rank. A \<open>*big.Int\<close> is a natural number; a result of
  \<open>None\<close> is a run-time panic (an index out of range, a negative shift count, a value that does
  not fit the 16 bytes of an address), which the theorems exclude for the callers' arguments.
\<close>

unbundle bit_operations_syntax

subsection \<open>The tree operations\<close>

definition overlaps :: "prefix \<Rightarrow> prefix \<Rightarrow> bool" where
  "overlaps a b \<longleftrightarrow> Contains a (pAddr b) \<or> Contains b (pAddr a)"

text \<open>The descendants of a block among the used prefixes; \<open>None\<close> when one covers the block.\<close>

fun overlappingDescendants :: "prefix \<Rightarrow> prefix list \<Rightarrow> prefix list option" where
  "overlappingDescendants candidate [] = Some []"
| "overlappingDescendants candidate (p # used) =
     (if \<not> overlaps candidate p then overlappingDescendants candidate used
      else if pBits p \<le> pBits candidate then None
      else map_option (Cons p) (overlappingDescendants candidate used))"

text \<open>
  The two halves of an IPv6 prefix: the right one sets the bit after the prefix. Past the
  last bit the index into the 16 bytes is out of range.
\<close>

definition split :: "prefix \<Rightarrow> (prefix \<times> prefix) option" where
  "split p =
     (let n = pBits p + 1; left = Masked (PrefixFrom (pAddr p) n);
          b = As16 (pAddr p); bit = nat (n - 1); i = bit div 8
      in if \<not> Is6 (pAddr p) \<or> n < 1 \<or> 16 \<le> i then None
         else Some (left, Masked (PrefixFrom
                (AddrFrom16 (b[i := (b ! i) OR push_bit (7 - bit mod 8) 1])) n)))"

lemma split_pBits:
  assumes "split p = Some (l, r)"
  shows "pBits l = pBits p + 1" and "pBits r = pBits p + 1" and "0 \<le> pBits p" and "pBits p < 128"
proof -
  obtain w z where w: "pAddr p = Addr6 w z"
    using assms by (cases "pAddr p") (auto simp: split_def Let_def)
  have b: "0 \<le> pBits p" "pBits p < 128"
    using assms by (auto simp: split_def Let_def w split: if_splits)
  then show "0 \<le> pBits p" "pBits p < 128" by simp_all
  show "pBits l = pBits p + 1" "pBits r = pBits p + 1"
    using assms b by (auto simp: split_def Let_def w PrefixFrom_def AddrFrom16_def split: if_splits)
qed

function freePrefixCount :: "prefix \<Rightarrow> prefix list \<Rightarrow> int \<Rightarrow> nat option" where
  "freePrefixCount candidate used targetBits =
     (case overlappingDescendants candidate used of
        None \<Rightarrow> Some 0
      | Some descendants \<Rightarrow>
          if pBits candidate = targetBits \<and> descendants \<noteq> [] then Some 0
          else if descendants = [] then
            (if targetBits < pBits candidate then None
             else Some (2 ^ nat (targetBits - pBits candidate)))
          else (case split candidate of
              None \<Rightarrow> None
            | Some (left, right) \<Rightarrow>
                (case freePrefixCount left descendants targetBits of
                   None \<Rightarrow> None
                 | Some a \<Rightarrow>
                     (case freePrefixCount right descendants targetBits of
                        None \<Rightarrow> None
                      | Some b \<Rightarrow> Some (a + b)))))"
  by pat_completeness auto
termination
  by (relation "measure (\<lambda>(c, _, _). nat (128 - pBits c))") (auto dest: split_pBits)

declare freePrefixCount.simps [simp del]

definition SetBytes :: "8 word list \<Rightarrow> nat" where
  "SetBytes bs = foldl (\<lambda>a b. a * 256 + unat b) 0 bs"

definition FillBytes16 :: "nat \<Rightarrow> 8 word list option" where
  "FillBytes16 n = (if n < 2 ^ 128 then Some (bytes16 (of_nat n)) else None)"

definition prefixAtIndex :: "prefix \<Rightarrow> int \<Rightarrow> nat \<Rightarrow> prefix option" where
  "prefixAtIndex parent targetBits index =
     (if 128 < targetBits then None
      else let base = SetBytes (AsSlice (pAddr (Masked parent)));
               offset = index * 2 ^ nat (128 - targetBits)
           in case FillBytes16 (base + offset) of
                None \<Rightarrow> None
              | Some addressBytes \<Rightarrow>
                  let address = (case AddrFromSlice addressBytes of None \<Rightarrow> NoAddr | Some a \<Rightarrow> a)
                  in Some (Masked (PrefixFrom address targetBits)))"

function freePrefixAt :: "prefix \<Rightarrow> prefix list \<Rightarrow> int \<Rightarrow> nat \<Rightarrow> prefix option" where
  "freePrefixAt candidate used targetBits index =
     (let descendants = (case overlappingDescendants candidate used of None \<Rightarrow> [] | Some ds \<Rightarrow> ds)
      in if descendants = [] then prefixAtIndex candidate targetBits index
         else case split candidate of
             None \<Rightarrow> None
           | Some (left, right) \<Rightarrow>
               (case freePrefixCount left descendants targetBits of
                  None \<Rightarrow> None
                | Some leftCount \<Rightarrow>
                    if index < leftCount then freePrefixAt left descendants targetBits index
                    else freePrefixAt right descendants targetBits (index - leftCount)))"
  by pat_completeness auto
termination
  by (relation "measure (\<lambda>(c, _, _, _). nat (128 - pBits c))") (auto dest: split_pBits)

declare freePrefixAt.simps [simp del]

subsection \<open>Allocation\<close>

text \<open>
  A chooser gets the number of free prefixes and returns an index, a nil pointer (\<open>None\<close>) or an
  error.
\<close>

type_synonym chooser = "nat \<Rightarrow> int option result"

fun checkUsed :: "prefix \<Rightarrow> prefix list \<Rightarrow> prefix list result" where
  "checkUsed pool [] = Inr []"
| "checkUsed pool (p # used) =
     (let p = Masked p in
      if \<not> Is6 (pAddr p) \<or> pBits p < pBits pool \<or> \<not> Contains pool (pAddr p)
      then Inl (Errorf ''allocation %s is outside %s'' [prefixString p, prefixString pool])
      else case checkUsed pool used of Inl e \<Rightarrow> Inl e | Inr clean \<Rightarrow> Inr (p # clean))"

definition allocateWithChooser :: "prefix \<Rightarrow> prefix list \<Rightarrow> int \<Rightarrow> chooser \<Rightarrow> prefix result" where
  "allocateWithChooser pool used bits pick =
     (let pool = Masked pool in
      if \<not> Is6 (pAddr pool) then Err ''pool must be IPv6''
      else if bits < pBits pool \<or> 128 < bits
        then Inl (Errorf ''prefix /%d outside pool /%d'' [Itoa bits, Itoa (pBits pool)])
      else case checkUsed pool used of
        Inl e \<Rightarrow> Inl e
      | Inr clean \<Rightarrow>
          (case freePrefixCount pool clean bits of
             None \<Rightarrow> Inl Panic
           | Some available \<Rightarrow>
               if available = 0 then Inl ErrPoolExhausted
               else case pick available of
                 Inl e \<Rightarrow> Inl (Wrapf ''random prefix selection: %w'' [] e)
               | Inr None \<Rightarrow> Err ''random prefix selection returned an out-of-range index''
               | Inr (Some index) \<Rightarrow>
                   if index < 0 \<or> int available \<le> index
                   then Err ''random prefix selection returned an out-of-range index''
                   else case freePrefixAt pool clean bits (nat index) of
                     None \<Rightarrow> Inl Panic
                   | Some p \<Rightarrow> Inr p))"

text \<open>\<open>Allocate\<close> draws the index with \<open>crypto/rand.Int\<close>, the parameter \<open>rand\<close>.\<close>

definition Allocate :: "(nat \<Rightarrow> int result) \<Rightarrow> prefix \<Rightarrow> prefix list \<Rightarrow> int \<Rightarrow> prefix result" where
  "Allocate rand pool used bits =
     allocateWithChooser pool used bits
       (\<lambda>available. case rand available of Inl e \<Rightarrow> Inl e | Inr i \<Rightarrow> Inr (Some i))"

subsection \<open>Pool statistics\<close>

fun largestFree :: "prefix \<Rightarrow> prefix list \<Rightarrow> int list \<Rightarrow> int option" where
  "largestFree pool used [] = Some (-1)"
| "largestFree pool used (bits # rest) =
     (case freePrefixCount (Masked pool) used bits of
        None \<Rightarrow> None
      | Some n \<Rightarrow> if 0 < n then Some bits else largestFree pool used rest)"

fun allocatedUnits :: "64 word \<Rightarrow> prefix list \<Rightarrow> 64 word" where
  "allocatedUnits allocated [] = allocated"
| "allocatedUnits allocated (p # used) =
     (if pBits p \<le> 64 then
        let shift = nat (64 - pBits p) in
        if 64 \<le> shift \<or> - 1 - allocated < push_bit shift 1 then - 1
        else allocatedUnits (allocated + push_bit shift 1) used
      else allocatedUnits allocated used)"

definition PoolStats :: "prefix \<Rightarrow> prefix list \<Rightarrow> int \<Rightarrow> (64 word \<times> int) option" where
  "PoolStats pool used maxBits =
     map_option (\<lambda>largest. (allocatedUnits 0 used, largest))
       (largestFree pool used [pBits pool..maxBits])"

subsection \<open>Blocks of the tree\<close>

declare Masked.simps [simp del] Contains.simps [simp del]

lemma overlaps_agree6:
  assumes "wf6 a" and "wf6 b"
  shows "overlaps a b \<longleftrightarrow> agree6 (min (len6 a) (len6 b)) a b"
proof -
  have o: "overlaps a b \<longleftrightarrow> agree6 (len6 a) a b \<or> agree6 (len6 b) a b"
    using assms by (auto simp: overlaps_def Contains_agree6 agree6_def)
  have l: "len6 a \<le> 128" "len6 b \<le> 128" using assms by (simp_all add: len6_le)
  show ?thesis
  proof (cases "len6 a \<le> len6 b")
    case True
    then show ?thesis
      using o l agree6_mono [of "len6 b" a b "len6 a"] by (simp only: min_absorb1) blast
  next
    case False
    then show ?thesis
      using o l agree6_mono [of "len6 a" a b "len6 b"] by (simp add: min_def) blast
  qed
qed

interpretation net6: block_tree wf6 len6 agree6 "\<lambda>c q. Contains c (pAddr q)" overlaps
proof unfold_locales
  show "agree6 n a c" if "agree6 n a b" "agree6 n b c" for n a b c
    using that by (simp add: agree6_def)
  show "agree6 m a b" if "agree6 n a b" "m \<le> n" "n \<le> len6 a" "wf6 a" for n m a b
    using that(1,2) by (rule agree6_mono) (use that len6_le order_trans in blast)
qed (auto simp: agree6_def Contains_agree6 overlaps_agree6)

lemma blk_Suc_masked:
  assumes "w = clear_low (128 - b) w" and "b < 128"
  shows "blk (Suc b) w = 2 * blk b w"
proof -
  have "unat w = blk b w * 2 ^ (128 - b)" using assms(1) unat_clear_low_blk by metis
  moreover have "128 - b = Suc (128 - Suc b)" using assms(2) by simp
  ultimately have "unat w = (2 * blk b w) * 2 ^ (128 - Suc b)" by (simp only: power_Suc ac_simps)
  then have "unat w div 2 ^ (128 - Suc b) = 2 * blk b w"
    by (metis nonzero_mult_div_cancel_right power_not_zero zero_neq_numeral)
  then show ?thesis by (simp only: blk_def [of "Suc b"])
qed

lemma blk_set_bit:
  assumes "w = clear_low (128 - b) w" and "b < 128"
  shows "blk (Suc b) (w OR push_bit (127 - b) 1) = 2 * blk b w + 1"
proof -
  let ?d = "drop_bit (127 - b) w"
  have e: "unat ?d = 2 * blk b w"
    using blk_Suc_masked [OF assms] assms(2) by (simp add: blk_drop_bit)
  have "drop_bit (127 - b) (push_bit (127 - b) (1 :: 128 word)) = 1"
    using assms(2) by (intro bit_word_eqI) (auto simp: bit_simps)
  then have "drop_bit (127 - b) (w OR push_bit (127 - b) 1) = ?d OR 1"
    by (simp add: drop_bit_or)
  then have "blk (Suc b) (w OR push_bit (127 - b) 1) = unat (?d OR 1)"
    using assms(2) by (simp add: blk_drop_bit)
  also have "\<dots> = unat ?d OR 1" by (simp add: unsigned_or_eq)
  also have "\<dots> = 2 * blk b w + 1" unfolding e by (simp only: or_one_eq) simp
  finally show ?thesis .
qed

lemma SetBytes_lt: "SetBytes bs < 256 ^ length bs"
proof (induction bs rule: rev_induct)
  case (snoc b bs)
  have "unat b < 256" using unsigned_less [of b] by simp
  moreover have "SetBytes (bs @ [b]) = SetBytes bs * 256 + unat b" by (simp add: SetBytes_def)
  ultimately show ?case using snoc by simp
qed (simp add: SetBytes_def)

lemma SetBytes_bytes16 [simp]: "SetBytes (bytes16 w) = unat w"
proof -
  have "be_word bs = (of_nat (SetBytes bs) :: 128 word)" for bs
    by (induction bs rule: rev_induct) (simp_all add: be_word_def SetBytes_def)
  then have "w = of_nat (SetBytes (bytes16 w))" by (metis be_word_bytes16)
  moreover have "SetBytes (bytes16 w) < 2 ^ 128" using SetBytes_lt [of "bytes16 w"] by simp
  moreover have "unat (of_nat k :: 128 word) = k" if "k < 2 ^ 128" for k
    using that by (simp add: unat_of_nat)
  ultimately show ?thesis by metis
qed

text \<open>Equations that evaluate on the address word instead of its bytes.\<close>

lemma split_code [code]:
  "split p = (case pAddr p of
      Addr6 w z \<Rightarrow>
        if 0 \<le> pBits p \<and> pBits p < 128
        then Some (Masked (Prefix (Addr6 w []) (pBits p + 1)),
                   Masked (Prefix (Addr6 (w OR push_bit (127 - nat (pBits p)) 1) []) (pBits p + 1)))
        else None
    | _ \<Rightarrow> None)"
proof (cases "pAddr p")
  case (Addr6 w z)
  moreover have "be_word ((bytes16 w)[nat b div 8 := (bytes16 w ! (nat b div 8)) OR push_bit (7 - nat b mod 8) 1]) =
      w OR push_bit (127 - nat b) 1" if "0 \<le> b" "b < 128" for b
    using be_word_set_bit [of "nat b" w] that by (simp add: nat_less_iff)
  moreover have "nat b div 8 < 16 \<longleftrightarrow> b < 128" for b by (simp add: div_less_iff_less_mult) linarith
  ultimately show ?thesis
    by (auto simp: split_def Let_def PrefixFrom_def AddrFrom16_def not_le simp flip: not_less)
qed (simp_all add: split_def Let_def)

lemma prefixAtIndex_code [code]:
  "prefixAtIndex parent targetBits index =
     (if 128 < targetBits then None
      else let base = (case pAddr (Masked parent) of
                 Addr6 w z \<Rightarrow> unat w | a \<Rightarrow> SetBytes (AsSlice a));
               n = base + index * 2 ^ nat (128 - targetBits)
           in if n < 2 ^ 128
              then Some (Masked (PrefixFrom (Addr6 (of_nat n) []) targetBits)) else None)"
  by (simp add: prefixAtIndex_def FillBytes16_def AddrFromSlice_def Let_def split: addr.split)

text \<open>The halves of an aligned block are aligned, one bit longer, and continue its block number.\<close>

lemma split_blocks:
  assumes "wf6 c" and "Masked c = c" and "len6 c < 128"
  obtains l r where "split c = Some (l, r)"
    and "wf6 l" "Masked l = l" "len6 l = Suc (len6 c)"
    and "wf6 r" "Masked r = r" "len6 r = Suc (len6 c)"
    and "blk (Suc (len6 c)) (word6 l) = 2 * blk (len6 c) (word6 c)"
    and "blk (Suc (len6 c)) (word6 r) = 2 * blk (len6 c) (word6 c) + 1"
proof -
  obtain w b where c: "c = Prefix (Addr6 w []) (int b)" "b \<le> 128" by (rule wf6E [OF assms(1)])
  have b: "b < 128" using assms(3) c by simp
  have w: "w = clear_low (128 - b) w"
    using assms(2) c by (simp add: Masked6 del: Masked.simps)
  define l where "l = Masked (Prefix (Addr6 w []) (int (Suc b)))"
  define r where "r = Masked (Prefix (Addr6 (w OR push_bit (127 - b) 1) []) (int (Suc b)))"
  have l': "l = Prefix (Addr6 (clear_low (128 - Suc b) w) []) (int (Suc b))"
    unfolding l_def by (rule Masked6) (use b in simp)
  have r': "r = Prefix (Addr6 (clear_low (128 - Suc b) (w OR push_bit (127 - b) 1)) []) (int (Suc b))"
    unfolding r_def by (rule Masked6) (use b in simp)
  have wf: "wf6 l" "wf6 r" unfolding l' r' using b by simp_all
  have "split c = Some (l, r)"
    using b be_word_set_bit [OF b, of w]
    by (simp add: split_def c Let_def l_def r_def PrefixFrom_def AddrFrom16_def add.commute
        del: Masked.simps)
  moreover have "Masked l = l" "Masked r = r"
    unfolding l_def r_def by (rule Masked_idem, use b in simp)+
  moreover have "blk (Suc b) (word6 l) = 2 * blk b w"
    unfolding l' word6_Prefix blk_clear_low by (rule blk_Suc_masked [OF w b])
  moreover have "blk (Suc b) (word6 r) = 2 * blk b w + 1"
    unfolding r' word6_Prefix blk_clear_low by (rule blk_set_bit [OF w b])
  moreover have "len6 l = Suc b" "len6 r = Suc b" unfolding l' r' by (rule len6_Prefix)+
  ultimately show thesis using that [of l r] wf c by simp
qed

subsection \<open>The free subprefixes of a block\<close>

text \<open>
  The specification: the aligned prefixes of length \<open>t\<close> inside \<open>c\<close> that overlap no used prefix.
\<close>

definition free_prefixes :: "prefix \<Rightarrow> prefix list \<Rightarrow> int \<Rightarrow> prefix set" where
  "free_prefixes c used t =
     {q. wf6 q \<and> Masked q = q \<and> pBits q = t \<and> Contains c (pAddr q) \<and>
         (\<forall>u\<in>set used. \<not> overlaps q u)}"

lemma overlappingDescendants_SomeD:
  assumes "overlappingDescendants c used = Some ds"
  shows "ds = filter (overlaps c) used" and "\<forall>u\<in>set ds. pBits c < pBits u"
  using assms by (induction used arbitrary: ds) (auto split: if_splits)

lemma overlappingDescendants_NoneD:
  "overlappingDescendants c used = None \<Longrightarrow> \<exists>u\<in>set used. overlaps c u \<and> pBits u \<le> pBits c"
  by (induction used) (auto split: if_splits)

text \<open>A block's number at its own length determines it, and decides what it contains.\<close>

definition number6 :: "prefix \<Rightarrow> nat" where
  "number6 q = blk (len6 q) (word6 q)"

lemma number6_inject:
  assumes "wf6 p" "wf6 q" "Masked p = p" "Masked q = q" "len6 p = len6 q" "number6 p = number6 q"
  shows "p = q"
  by (rule Masked_agree6) (use assms in \<open>simp_all add: number6_def agree6_def\<close>)

lemma Contains_number6:
  assumes "wf6 c" "wf6 q" and "len6 c \<le> len6 q"
  shows "Contains c (pAddr q) \<longleftrightarrow> number6 q div 2 ^ (len6 q - len6 c) = number6 c"
proof -
  have "blk (len6 c) (word6 q) = number6 q div 2 ^ (len6 q - len6 c)"
    unfolding number6_def by (rule blk_blk) (use assms len6_le in auto)
  then show ?thesis using assms by (auto simp: Contains_agree6 agree6_def number6_def)
qed

lemma prefixAtIndex_block:
  assumes c: "wf6 c" "Masked c = c" and n: "len6 c \<le> n" "n \<le> 128" and i: "i < 2 ^ (n - len6 c)"
  obtains q where "prefixAtIndex c (int n) i = Some q" and "wf6 q" and "Masked q = q"
    and "len6 q = n" and "number6 q = number6 c * 2 ^ (n - len6 c) + i"
proof -
  obtain w b where w: "c = Prefix (Addr6 w []) (int b)" "b \<le> 128" by (rule wf6E [OF c(1)])
  have "w = clear_low (128 - b) w"
    using c(2) w by (simp add: Masked6 del: Masked.simps)
  then have uw: "unat w = blk b w * 2 ^ (128 - b)" using unat_clear_low_blk by metis
  define k where "k = blk b w * 2 ^ (n - b) + i"
  have bn: "b \<le> n" "i < 2 ^ (n - b)" using n i w by simp_all
  have kn: "k < 2 ^ n"
  proof -
    have "k < (blk b w + 1) * 2 ^ (n - b)" using bn by (simp add: k_def)
    also have "\<dots> \<le> 2 ^ b * 2 ^ (n - b)" using blk_lt [OF w(2), of w] by (intro mult_right_mono) auto
    finally show ?thesis using bn by (simp flip: power_add)
  qed
  have pw: "(2::nat) ^ (128 - b) = 2 ^ (n - b) * 2 ^ (128 - n)" using bn n by (simp flip: power_add)
  have sum: "unat w + i * 2 ^ (128 - n) = k * 2 ^ (128 - n)"
    unfolding uw pw k_def by (simp add: algebra_simps)
  have lt: "k * 2 ^ (128 - n) < 2 ^ 128"
  proof -
    have "k * 2 ^ (128 - n) < 2 ^ n * 2 ^ (128 - n)" using kn by simp
    also have "\<dots> = 2 ^ 128" using n by (simp flip: power_add)
    finally show ?thesis .
  qed
  define q where "q = Masked (Prefix (Addr6 (of_nat (k * 2 ^ (128 - n))) []) (int n))"
  have q: "q = Prefix (Addr6 (clear_low (128 - n) (of_nat (k * 2 ^ (128 - n)))) []) (int n)"
    unfolding q_def by (rule Masked6) (use n in simp)
  have "prefixAtIndex c (int n) i = Some q"
    using n c(2) sum lt
    by (simp add: prefixAtIndex_def w FillBytes16_def AddrFromSlice_def PrefixFrom_def q_def nat_diff_distrib
        del: Masked.simps)
  moreover have "number6 q = k"
  proof -
    have "unat (of_nat (k * 2 ^ (128 - n)) :: 128 word) = k * 2 ^ (128 - n)"
      using lt by (simp add: unat_of_nat del: of_nat_mult of_nat_power)
    then show ?thesis unfolding q number6_def len6_Prefix word6_Prefix blk_clear_low
      by (simp only: blk_def) simp
  qed
  moreover have "Masked q = q" unfolding q_def by (rule Masked_idem) (use n in simp)
  moreover have "wf6 q" "len6 q = n" unfolding q using n by simp_all
  ultimately show thesis using that w by (simp add: k_def number6_def)
qed

text \<open>The cases of the recursion, on the specification's side.\<close>

lemma free_blocked:
  assumes "wf6 c" "\<forall>u\<in>set used. wf6 u" "pBits c \<le> t"
    and "overlappingDescendants c used = None"
  shows "free_prefixes c used t = {}"
proof -
  obtain u where u: "u \<in> set used" "overlaps c u" "pBits u \<le> pBits c"
    using overlappingDescendants_NoneD [OF assms(4)] by blast
  have "overlaps q u" if "wf6 q" "pBits q = t" "Contains c (pAddr q)" for q
    by (rule net6.meets_down [of c]) (use that assms u in \<open>auto simp: len6_def\<close>)
  then show ?thesis using u(1) by (auto simp: free_prefixes_def)
qed

lemma free_exact:
  assumes "wf6 c" "Masked c = c" "u \<in> set used" "overlaps c u"
  shows "free_prefixes c used (pBits c) = {}"
proof -
  have "q = c" if "wf6 q" "Masked q = q" "pBits q = pBits c" "Contains c (pAddr q)" for q
  proof -
    have l: "len6 q = len6 c" using that by (simp add: len6_def)
    show ?thesis
      by (rule Masked_agree6) (use that assms l in \<open>auto simp: Contains_agree6 agree6_def\<close>)
  qed
  then show ?thesis using assms by (auto simp: free_prefixes_def)
qed

lemma free_filter:
  assumes "wf6 c" "\<forall>u\<in>set used. wf6 u" "pBits c \<le> t"
  shows "free_prefixes c (filter (overlaps c) used) t = free_prefixes c used t"
proof -
  have "overlaps c u" if "wf6 q" "pBits q = t" "Contains c (pAddr q)" "u \<in> set used" "overlaps q u" for q u
    using that assms by (intro net6.meets_up [of c q u]) (auto simp: len6_def)
  then show ?thesis by (auto simp: free_prefixes_def)
qed

lemma free_empty_bij:
  assumes c: "wf6 c" "Masked c = c" and n: "len6 c \<le> n" "n \<le> 128"
  shows "bij_betw (\<lambda>i. the (prefixAtIndex c (int n) i)) {..<2 ^ (n - len6 c)} (free_prefixes c [] (int n))"
proof -
  let ?f = "\<lambda>i. the (prefixAtIndex c (int n) i)" and ?d = "2 ^ (n - len6 c) :: nat"
  have f: "wf6 (?f i) \<and> Masked (?f i) = ?f i \<and> len6 (?f i) = n \<and> number6 (?f i) = number6 c * ?d + i"
    if "i < ?d" for i
    using prefixAtIndex_block [OF c n that] by (metis option.sel)
  have "?f i \<in> free_prefixes c [] (int n)" if "i < ?d" for i
    using f [OF that] that c n
    by (auto simp: free_prefixes_def Contains_number6 simp flip: int_len6)
  moreover have "\<exists>i < ?d. q = ?f i" if "q \<in> free_prefixes c [] (int n)" for q
  proof -
    have q: "wf6 q" "Masked q = q" "len6 q = n" "Contains c (pAddr q)"
      using that by (auto simp: free_prefixes_def len6_def)
    let ?i = "number6 q mod ?d"
    have "number6 q = number6 c * ?d + ?i"
      using q c n Contains_number6 [of c q] by (metis div_mult_mod_eq)
    moreover have i: "?i < ?d" by simp
    ultimately have "q = ?f ?i" using f [OF i] q by (metis number6_inject)
    with i show ?thesis by blast
  qed
  moreover have "inj_on ?f {..<?d}"
    by (rule inj_onI) (metis f add_left_cancel lessThan_iff)
  ultimately show ?thesis by (auto simp: bij_betw_def)
qed

lemma free_halves:
  assumes c: "wf6 c" "len6 c < 128" and l: "wf6 l" "len6 l = Suc (len6 c)"
    and r: "wf6 r" "len6 r = Suc (len6 c)"
    and nl: "blk (Suc (len6 c)) (word6 l) = 2 * blk (len6 c) (word6 c)"
    and nr: "blk (Suc (len6 c)) (word6 r) = 2 * blk (len6 c) (word6 c) + 1"
  shows "free_prefixes c used t = free_prefixes l used t \<union> free_prefixes r used t"
    and "free_prefixes l used t \<inter> free_prefixes r used t = {}"
proof -
  let ?B = "\<lambda>q. blk (Suc (len6 c)) (word6 q)"
  have h: "Contains l (pAddr q) \<longleftrightarrow> ?B q = 2 * blk (len6 c) (word6 c)"
    "Contains r (pAddr q) \<longleftrightarrow> ?B q = 2 * blk (len6 c) (word6 c) + 1"
    "Contains c (pAddr q) \<longleftrightarrow> ?B q div 2 = blk (len6 c) (word6 c)" if "wf6 q" for q
    using that c l r nl nr blk_blk [of "len6 c" "Suc (len6 c)" "word6 q"]
    by (auto simp: Contains_agree6 agree6_def)
  show "free_prefixes c used t = free_prefixes l used t \<union> free_prefixes r used t"
    unfolding free_prefixes_def using h by (auto simp: div_eq_iff_range)
  show "free_prefixes l used t \<inter> free_prefixes r used t = {}"
    unfolding free_prefixes_def using h by auto
qed

subsection \<open>Correctness of the recursion\<close>

lemma bij_betw_append:
  fixes f g :: "nat \<Rightarrow> 'a"
  assumes "bij_betw f {..<m} A" "bij_betw g {..<n} B" "A \<inter> B = {}"
  shows "bij_betw (\<lambda>i. if i < m then f i else g (i - m)) {..<m + n} (A \<union> B)"
proof -
  have "bij_betw (\<lambda>i. if i < m then f i else g (i - m)) {..<m} A"
    using assms(1) by (rule bij_betw_cong [THEN iffD1, rotated]) simp
  moreover have "bij_betw (\<lambda>i. i - m) {m..<m + n} {..<n}"
    by (rule bij_betw_byWitness [where f' = "\<lambda>i. i + m"]) auto
  then have "bij_betw (g \<circ> (\<lambda>i. i - m)) {m..<m + n} B" using assms(2) by (rule bij_betw_trans)
  then have "bij_betw (\<lambda>i. if i < m then f i else g (i - m)) {m..<m + n} B"
    by (rule bij_betw_cong [THEN iffD1, rotated]) simp
  moreover have "{..<m + n} = {..<m} \<union> {m..<m + n}" by auto
  ultimately show ?thesis using assms(3) by (simp add: bij_betw_combine)
qed

text \<open>
  The invariant of the recursion: the count is defined, and the ranks below it enumerate the
  free prefixes without repetition.
\<close>

definition enumerates :: "prefix \<Rightarrow> prefix list \<Rightarrow> int \<Rightarrow> nat \<Rightarrow> bool" where
  "enumerates c used t n \<longleftrightarrow>
     freePrefixCount c used t = Some n \<and>
     bij_betw (\<lambda>i. the (freePrefixAt c used t i)) {..<n} (free_prefixes c used t) \<and>
     (\<forall>i<n. freePrefixAt c used t i \<noteq> None)"

lemma enumerates_unused:
  assumes c: "wf6 c" "Masked c = c" and t: "pBits c \<le> t" "t \<le> 128" and used: "\<forall>u\<in>set used. wf6 u"
    and ds: "overlappingDescendants c used = Some []"
  shows "enumerates c used t (2 ^ nat (t - pBits c))"
proof -
  have t': "t = int (nat t)" and len: "nat (t - pBits c) = nat t - len6 c" "len6 c \<le> nat t" "nat t \<le> 128"
    using c t by (auto simp: len6_def wf6_def)
  have "freePrefixCount c used t = Some (2 ^ nat (t - pBits c))"
    using ds t by (simp add: freePrefixCount.simps [of c])
  moreover have "freePrefixAt c used t i = prefixAtIndex c (int (nat t)) i" for i
    using ds t' by (simp add: freePrefixAt.simps [of c])
  moreover have "free_prefixes c used t = free_prefixes c [] (int (nat t))"
    using free_filter [OF c(1) used t(1)] overlappingDescendants_SomeD(1) [OF ds] t' by simp
  moreover have "prefixAtIndex c (int (nat t)) i \<noteq> None" if "i < 2 ^ (nat t - len6 c)" for i
    using prefixAtIndex_block [OF c len(2,3) that] by blast
  ultimately show ?thesis
    unfolding enumerates_def using free_empty_bij [OF c len(2,3)] len(1) by simp
qed

lemma enumerates_split:
  assumes ds: "overlappingDescendants c used = Some ds" "ds \<noteq> []" and t: "pBits c \<noteq> t"
    and lr: "split c = Some (l, r)" and "enumerates l ds t a" and "enumerates r ds t b"
    and free: "free_prefixes c used t = free_prefixes l ds t \<union> free_prefixes r ds t"
      "free_prefixes l ds t \<inter> free_prefixes r ds t = {}"
  shows "enumerates c used t (a + b)"
proof -
  have a: "freePrefixCount l ds t = Some a" "\<forall>i<a. freePrefixAt l ds t i \<noteq> None"
      "bij_betw (\<lambda>i. the (freePrefixAt l ds t i)) {..<a} (free_prefixes l ds t)"
    and b: "freePrefixCount r ds t = Some b" "\<forall>i<b. freePrefixAt r ds t i \<noteq> None"
      "bij_betw (\<lambda>i. the (freePrefixAt r ds t i)) {..<b} (free_prefixes r ds t)"
    using assms by (simp_all add: enumerates_def)
  have at: "freePrefixAt c used t i =
      (if i < a then freePrefixAt l ds t i else freePrefixAt r ds t (i - a))" for i
    using ds lr a(1) by (simp add: freePrefixAt.simps [of c])
  then have "(\<lambda>i. the (freePrefixAt c used t i)) =
      (\<lambda>i. if i < a then the (freePrefixAt l ds t i) else the (freePrefixAt r ds t (i - a)))"
    by auto
  moreover have "freePrefixCount c used t = Some (a + b)"
    using ds t lr a(1) b(1) by (simp add: freePrefixCount.simps [of c])
  ultimately show ?thesis
    unfolding enumerates_def using at a(2) b(2) bij_betw_append [OF a(3) b(3) free(2)] free(1)
    by auto
qed

lemma free_prefix_enumeration:
  assumes "wf6 c" "Masked c = c" "\<forall>u\<in>set used. wf6 u" "pBits c \<le> t" "t \<le> 128"
  shows "\<exists>n. enumerates c used t n"
  using assms
proof (induction c used t rule: freePrefixCount.induct)
  case (1 c used t)
  note prems = "1.prems"
  show ?case
  proof (cases "overlappingDescendants c used")
    case None
    then have "enumerates c used t 0"
      using free_blocked [OF prems(1,3,4)]
      by (simp add: enumerates_def freePrefixCount.simps [of c] bij_betw_def)
    then show ?thesis ..
  next
    case (Some ds)
    note ds = overlappingDescendants_SomeD [OF Some]
    consider "pBits c = t" "ds \<noteq> []" | "ds = []" | "pBits c < t" "ds \<noteq> []"
      using prems(4) by fastforce
    then show ?thesis
    proof cases
      case 1
      then have "\<exists>u\<in>set used. overlaps c u" using ds(1) by (simp add: filter_empty_conv)
      then have "enumerates c used t 0"
        using 1 Some free_exact [OF prems(1,2)]
        by (auto simp: enumerates_def freePrefixCount.simps [of c] bij_betw_def)
      then show ?thesis ..
    next
      case 2
      then show ?thesis using enumerates_unused prems Some by blast
    next
      case 3
      then have b: "len6 c < 128" using prems(1,5) by (auto simp: len6_def wf6_def)
      obtain l r where lr: "split c = Some (l, r)"
        and l: "wf6 l" "Masked l = l" "len6 l = Suc (len6 c)"
        and r: "wf6 r" "Masked r = r" "len6 r = Suc (len6 c)"
        and nums: "blk (Suc (len6 c)) (word6 l) = 2 * blk (len6 c) (word6 c)"
          "blk (Suc (len6 c)) (word6 r) = 2 * blk (len6 c) (word6 c) + 1"
        by (rule split_blocks [OF prems(1,2) b])
      have bits: "pBits l \<le> t" "pBits r \<le> t" and wfds: "\<forall>u\<in>set ds. wf6 u"
        using split_pBits(1,2) [OF lr] 3 prems(3) ds(1) by auto
      have nb: "\<not> (pBits c = t \<and> ds \<noteq> [])" using 3 by simp
      obtain a where a: "enumerates l ds t a"
        using "1.IH"(1) [OF Some nb 3(2) lr refl l(1,2) wfds bits(1) prems(5)] ..
      then have "freePrefixCount l ds t = Some a" by (simp add: enumerates_def)
      from "1.IH"(2) [OF Some nb 3(2) lr refl this r(1,2) wfds bits(2) prems(5)]
      obtain m where m: "enumerates r ds t m" ..
      note halves = free_halves [OF prems(1) b l(1,3) r(1,3) nums, of ds t]
      have "free_prefixes c used t = free_prefixes l ds t \<union> free_prefixes r ds t"
        using halves(1) free_filter [OF prems(1,3,4)] ds(1) by simp
      with enumerates_split [OF Some 3(2) _ lr a m _ halves(2)] 3(1) show ?thesis by auto
    qed
  qed
qed

subsection \<open>Facts about whole allocations\<close>

lemma checkUsed_ok:
  "(\<forall>u\<in>set used. Is6 (pAddr (Masked u)) \<and> pBits pool \<le> pBits (Masked u) \<and> Contains pool (pAddr (Masked u)))
   \<Longrightarrow> checkUsed pool used = Inr (map Masked used)"
  by (induction used) (auto simp: Let_def)

lemma wf6_Masked_Is6: "Is6 (pAddr (Masked p)) \<Longrightarrow> wf6 (Masked p) \<and> Masked (Masked p) = Masked p"
proof -
  assume 6: "Is6 (pAddr (Masked p))"
  then obtain w z where p: "pAddr p = Addr6 w z"
    by (cases p; cases "pAddr p") (auto simp: Masked.simps zeroPrefix_def PrefixFrom_def split: if_splits)
  then have b: "0 \<le> pBits p" "pBits p \<le> 128"
    using 6 by (cases p; auto simp: Masked.simps zeroPrefix_def split: if_splits)+
  then have "Masked p = Masked (Prefix (Addr6 w []) (pBits p))"
    using p by (cases p) (simp add: Masked.simps PrefixFrom_def)
  then show ?thesis using b by simp
qed

text \<open>The request is one the allocator accepts: a valid IPv6 pool and recorded prefixes inside it.\<close>

definition alloc_request :: "prefix \<Rightarrow> prefix list \<Rightarrow> int \<Rightarrow> bool" where
  "alloc_request pool used bits \<longleftrightarrow>
     Is6 (pAddr (Masked pool)) \<and> pBits (Masked pool) \<le> bits \<and> bits \<le> 128 \<and>
     (\<forall>u\<in>set used. Is6 (pAddr (Masked u)) \<and> pBits (Masked pool) \<le> pBits (Masked u) \<and>
        Contains (Masked pool) (pAddr (Masked u)))"

abbreviation available_prefixes :: "prefix \<Rightarrow> prefix list \<Rightarrow> int \<Rightarrow> prefix set" where
  "available_prefixes pool used bits \<equiv> free_prefixes (Masked pool) (map Masked used) bits"

lemma request_enumeration:
  assumes "alloc_request pool used bits"
  obtains n where "enumerates (Masked pool) (map Masked used) bits n"
    and "checkUsed (Masked pool) used = Inr (map Masked used)"
proof -
  have "wf6 (Masked pool)" "Masked (Masked pool) = Masked pool"
    and "\<forall>u\<in>set (map Masked used). wf6 u"
    using assms wf6_Masked_Is6 by (auto simp: alloc_request_def)
  then obtain n where "enumerates (Masked pool) (map Masked used) bits n"
    using free_prefix_enumeration assms by (metis alloc_request_def)
  with assms that show thesis by (auto simp: alloc_request_def intro!: checkUsed_ok)
qed

lemma allocateWithChooser_request:
  assumes "allocateWithChooser pool used bits pick = Inr q"
  shows "alloc_request pool used bits"
proof -
  have pool: "Is6 (pAddr (Masked pool))" "pBits (Masked pool) \<le> bits" "bits \<le> 128"
    using assms by (auto simp: allocateWithChooser_def Let_def split: if_splits)
  have "is_ok (checkUsed (Masked pool) used)"
    using assms by (auto simp: allocateWithChooser_def Let_def split: if_splits sum.splits)
  then have "Is6 (pAddr (Masked u)) \<and> pBits (Masked pool) \<le> pBits (Masked u) \<and>
      Contains (Masked pool) (pAddr (Masked u))" if "u \<in> set used" for u
    using that by (induction used) (auto simp: Let_def split: if_splits sum.splits)
  with pool show ?thesis by (simp add: alloc_request_def)
qed

lemma allocateWithChooser_enumerates:
  assumes "alloc_request pool used bits" and n: "enumerates (Masked pool) (map Masked used) bits n"
  shows "allocateWithChooser pool used bits pick =
    (if n = 0 then Inl ErrPoolExhausted
     else case pick n of
       Inl e \<Rightarrow> Inl (Wrapf ''random prefix selection: %w'' [] e)
     | Inr None \<Rightarrow> Err ''random prefix selection returned an out-of-range index''
     | Inr (Some i) \<Rightarrow>
         if i < 0 \<or> int n \<le> i then Err ''random prefix selection returned an out-of-range index''
         else Inr (the (freePrefixAt (Masked pool) (map Masked used) bits (nat i))))"
proof -
  have clean: "checkUsed (Masked pool) used = Inr (map Masked used)"
    using request_enumeration assms(1) by blast
  have some: "freePrefixAt (Masked pool) (map Masked used) bits (nat i) \<noteq> None"
    if "\<not> i < 0" "\<not> int n \<le> i" for i
    using n that by (auto simp: enumerates_def nat_less_iff)
  show ?thesis
    using assms(1) n
    by (simp add: allocateWithChooser_def alloc_request_def enumerates_def Let_def clean
        split: sum.split option.split) (use some in blast)
qed

lemma enumerates_card:
  assumes "enumerates c used t n"
  shows "card (free_prefixes c used t) = n" and "finite (free_prefixes c used t)"
  using assms by (auto simp: enumerates_def dest: bij_betw_same_card bij_betw_finite)

lemma enumerates_zero_iff: "enumerates c used t n \<Longrightarrow> n = 0 \<longleftrightarrow> free_prefixes c used t = {}"
  using enumerates_card [of c used t n] by auto

lemma allocated_is_free:
  assumes "allocateWithChooser pool used bits pick = Inr q"
  shows "q \<in> available_prefixes pool used bits"
proof -
  note req = allocateWithChooser_request [OF assms]
  obtain n where n: "enumerates (Masked pool) (map Masked used) bits n"
    by (rule request_enumeration [OF req])
  let ?f = "\<lambda>i. the (freePrefixAt (Masked pool) (map Masked used) bits i)"
  obtain i where "0 \<le> i" "i < int n" "q = ?f (nat i)"
    using assms
    by (auto simp: allocateWithChooser_enumerates [OF req n] not_less not_le
        split: if_splits sum.splits option.splits)
  moreover have "bij_betw ?f {..<n} (available_prefixes pool used bits)"
    using n by (simp add: enumerates_def)
  ultimately show ?thesis by (auto simp: bij_betw_def nat_less_iff)
qed

subsection \<open>What an allocator promises its clients\<close>

text \<open>
  \<open>alloc pool used q\<close>: with the prefixes \<open>used\<close> recorded, a request on \<open>pool\<close> may return \<open>q\<close>. A
  family of disjoint blocks of the pool stays one when the new block is recorded.
\<close>

locale block_allocator = block_tree +
  fixes alloc :: "'p \<Rightarrow> 'p list \<Rightarrow> 'p \<Rightarrow> bool"
  assumes alloc_valid: "alloc pool used q \<Longrightarrow> valid q"
    and alloc_within: "alloc pool used q \<Longrightarrow> within pool q \<and> len pool \<le> len q"
    and alloc_fresh: "alloc pool used q \<Longrightarrow> u \<in> set used \<Longrightarrow> \<not> meets q u"
begin

definition family :: "'p \<Rightarrow> 'p list \<Rightarrow> bool" where
  "family pool us \<longleftrightarrow>
     (\<forall>u\<in>set us. valid u \<and> within pool u \<and> len pool \<le> len u) \<and>
     (\<forall>i<length us. \<forall>j<i. \<not> meets (us ! i) (us ! j))"

lemma family_Nil: "family pool []"
  by (simp add: family_def)

lemma family_snoc:
  "family pool (us @ [q]) \<longleftrightarrow> family pool us \<and> valid q \<and> within pool q \<and> len pool \<le> len q \<and>
     (\<forall>u\<in>set us. \<not> meets q u)"
  by (auto simp: family_def nth_append less_Suc_eq all_set_conv_all_nth)

lemma alloc_keeps_family: "family pool us \<Longrightarrow> set us \<subseteq> set used \<Longrightarrow> alloc pool used q \<Longrightarrow> family pool (us @ [q])"
  using alloc_valid alloc_within alloc_fresh by (auto simp: family_snoc)

text \<open>Blocks allocated from disjoint pools never meet.\<close>

lemma alloc_disjoint_pools:
  assumes "valid a" "valid b" "\<not> meets a b" "alloc a used p" "alloc b used' q"
  shows "\<not> meets p q"
  using assms alloc_valid alloc_within by (meson disjoint_within)

end

lemma overlaps_sym: "overlaps a b \<Longrightarrow> overlaps b a"
  by (auto simp: overlaps_def)

interpretation alloc6: block_allocator wf6 len6 agree6 "\<lambda>c q. Contains c (pAddr q)" overlaps
    "\<lambda>pool used q. \<exists>bits pick. allocateWithChooser pool used bits pick = Inr q \<and> Masked pool = pool \<and> map Masked used = used"
proof unfold_locales
  fix pool used q
  assume "\<exists>bits pick. allocateWithChooser pool used bits pick = Inr q \<and> Masked pool = pool \<and> map Masked used = used"
  then obtain bits pick where a: "allocateWithChooser pool used bits pick = Inr q" "Masked pool = pool" "map Masked used = used"
    by blast
  note q = allocated_is_free [OF a(1)] allocateWithChooser_request [OF a(1)]
  show "wf6 q" using q by (simp add: free_prefixes_def)
  show "Contains pool (pAddr q) \<and> len6 pool \<le> len6 q"
    using q a(2) by (auto simp: free_prefixes_def alloc_request_def len6_def)
  show "\<not> overlaps q u" if "u \<in> set used" for u
    using q a(3) that by (simp add: free_prefixes_def)
qed

subsection \<open>Statistics\<close>

lemma allocatedUnits_saturates:
  assumes "\<forall>p\<in>set used. 0 \<le> pBits p"
  shows "unat (allocatedUnits a used) =
    min (2 ^ 64 - 1) (unat a + (\<Sum>p\<leftarrow>filter (\<lambda>p. pBits p \<le> 64) used. 2 ^ nat (64 - pBits p)))"
  using assms
proof (induction used arbitrary: a)
  case Nil
  have "unat a < 2 ^ 64" using unsigned_less [of a] by simp
  then show ?case by simp
next
  case (Cons p used)
  have "unat a < 2 ^ 64" using unsigned_less [of a] by simp
  then have a: "unat a \<le> 2 ^ 64 - 1" by simp
  let ?s = "nat (64 - pBits p)"
  have "unat (- 1 - a) = unat (- 1 :: 64 word) - unat a"
    by (rule unat_sub) (simp add: word_order.extremum)
  moreover have m1: "unat (- 1 :: 64 word) = 2 ^ 64 - 1" by (simp add: unsigned_minus_1_eq_mask mask_eq_exp_minus_1)
  ultimately have room: "unat (- 1 - a) = 2 ^ 64 - 1 - unat a" by simp
  have shl: "unat (push_bit ?s (1 :: 64 word)) = 2 ^ ?s" if "?s < 64"
    using that by (simp only: unsigned_push_bit_eq) (simp add: push_bit_eq_mult take_bit_nat_eq_self)
  have big: "(2::nat) ^ 64 \<le> 2 ^ ?s" if "64 \<le> ?s" using that by (intro power_increasing) auto
  consider "64 < pBits p" | "pBits p \<le> 64" "64 \<le> ?s" | "pBits p \<le> 64" "?s < 64" "2 ^ 64 - 1 - unat a < 2 ^ ?s"
    | "pBits p \<le> 64" "?s < 64" "2 ^ ?s \<le> 2 ^ 64 - 1 - unat a" by linarith
  then show ?case
  proof cases
    case 4
    then have "unat (a + push_bit ?s 1) = unat a + 2 ^ ?s"
      using a shl by (simp add: unat_add_lem [THEN iffD1])
    with 4 Cons a room shl show ?thesis by (auto simp: word_less_nat_alt Let_def add.assoc)
  qed (use Cons a room shl big m1 in \<open>auto simp: word_less_nat_alt Let_def\<close>)
qed

text \<open>The search for the largest free block stops at the first length that has one.\<close>

lemma largestFree_first:
  assumes "\<forall>b\<in>set bs. freePrefixCount (Masked pool) used b \<noteq> None"
  shows "largestFree pool used bs =
    Some (case find (\<lambda>b. the (freePrefixCount (Masked pool) used b) > 0) bs of None \<Rightarrow> -1 | Some b \<Rightarrow> b)"
  using assms by (induction bs) auto

lemma find_upto_Some_iff:
  "find P [a..b] = Some x \<longleftrightarrow> a \<le> x \<and> x \<le> b \<and> P x \<and> (\<forall>y. a \<le> y \<and> y < x \<longrightarrow> \<not> P y)"
proof (induction a b rule: upto.induct)
  case (1 a b)
  show ?case
  proof (cases "a \<le> b")
    case True
    have "find P [a..b] = (if P a then Some a else find P [a + 1..b])"
      using True by (simp add: upto_rec1)
    moreover have "(\<forall>y. a \<le> y \<and> y < x \<longrightarrow> \<not> P y) \<longleftrightarrow> (\<forall>y. a + 1 \<le> y \<and> y < x \<longrightarrow> \<not> P y)" if "\<not> P a"
      using that by (metis order_le_less zless_add1_eq add1_zle_eq)
    ultimately show ?thesis using 1 [OF True] True
      by (auto simp: not_le dest: spec [of _ a])
  next
    case False
    then show ?thesis by auto
  qed
qed

subsection \<open>Properties\<close>

text \<open>
  C5. A successful allocation is an aligned IPv6 prefix of the requested length inside the pool
  that overlaps none of the recorded allocations, whatever the chooser does.
\<close>

theorem allocate_sound:
  assumes "allocateWithChooser pool used bits pick = Inr q"
  shows "wf6 q \<and> Masked q = q \<and> pBits q = bits \<and> Contains (Masked pool) (pAddr q) \<and>
    (\<forall>u\<in>set used. \<not> overlaps q (Masked u))"
  using allocated_is_free [OF assms] by (simp add: free_prefixes_def)

theorem allocate_sound_witness:
  "wf6 (Prefix (Addr6 6 []) 128) \<and>
   \<not> overlaps (Prefix (Addr6 6 []) 128)
      (Prefix (Addr6 5 []) 128)"
proof -
  have "allocateWithChooser (Prefix (Addr6 4 []) 126)
      [Prefix (Addr6 5 []) 128] 128 (\<lambda>_. Inr (Some 1)) =
      Inr (Prefix (Addr6 6 []) 128)"
    by code_simp
  moreover have "Masked (Prefix (Addr6 5 []) 128) =
      Prefix (Addr6 5 []) 128"
    by code_simp
  ultimately show ?thesis using allocate_sound by fastforce
qed

text \<open>
  C14. The selection is uniform and complete: an accepted request hands the chooser the number of
  free prefixes of the requested length, and the indices below that number correspond one to one
  to the free prefixes, each of which the matching index allocates.
\<close>

theorem allocate_uniform:
  assumes "alloc_request pool used bits"
  shows "\<exists>e. bij_betw e {..<card (available_prefixes pool used bits)} (available_prefixes pool used bits) \<and>
    (\<forall>pick i. i < card (available_prefixes pool used bits) \<longrightarrow>
       pick (card (available_prefixes pool used bits)) = Inr (Some (int i)) \<longrightarrow>
       allocateWithChooser pool used bits pick = Inr (e i))"
proof -
  obtain n where n: "enumerates (Masked pool) (map Masked used) bits n"
    by (rule request_enumeration [OF assms])
  then have "bij_betw (\<lambda>i. the (freePrefixAt (Masked pool) (map Masked used) bits i)) {..<n}
      (available_prefixes pool used bits)"
    by (simp add: enumerates_def)
  then show ?thesis unfolding enumerates_card(1) [OF n]
    by (intro exI conjI) (assumption, auto simp: allocateWithChooser_enumerates [OF assms n])
qed

text \<open>
  C32. Every failure of an accepted request is accounted for: \<open>ErrPoolExhausted\<close> exactly when no
  aligned free prefix of that length exists, the chooser's own error wrapped, and a refusal of an
  index that is missing or out of range; no request panics.
\<close>

theorem allocate_failures:
  assumes "alloc_request pool used bits"
  shows "(allocateWithChooser pool used bits pick = Inl ErrPoolExhausted \<longleftrightarrow>
       available_prefixes pool used bits = {}) \<and>
     (available_prefixes pool used bits \<noteq> {} \<longrightarrow>
       (case pick (card (available_prefixes pool used bits)) of
          Inl e \<Rightarrow> allocateWithChooser pool used bits pick = Inl (Wrapf ''random prefix selection: %w'' [] e)
        | Inr None \<Rightarrow> \<not> is_ok (allocateWithChooser pool used bits pick)
        | Inr (Some i) \<Rightarrow> is_ok (allocateWithChooser pool used bits pick) \<longleftrightarrow>
            0 \<le> i \<and> i < int (card (available_prefixes pool used bits)))) \<and>
     allocateWithChooser pool used bits pick \<noteq> Inl Panic"
proof -
  obtain n where n: "enumerates (Masked pool) (map Masked used) bits n"
    by (rule request_enumeration [OF assms])
  show ?thesis
    using enumerates_zero_iff [OF n]
    by (auto simp: allocateWithChooser_enumerates [OF assms n] enumerates_card [OF n]
        split: sum.split option.split)
qed

text \<open>
  C25. The counting recursion, which never enumerates the address space, is defined on every aligned
  block and returns the number of free prefixes.
\<close>

theorem freePrefixCount_card:
  assumes "wf6 c" and "Masked c = c" and "\<forall>u\<in>set used. wf6 u" and "pBits c \<le> t" and "t \<le> 128"
  shows "freePrefixCount c used t = Some (card (free_prefixes c used t))"
proof -
  obtain n where n: "enumerates c used t n" using free_prefix_enumeration assms by blast
  show ?thesis using n enumerates_card(1) [OF n] by (simp add: enumerates_def)
qed

theorem freePrefixCount_card_witness:
  "card (free_prefixes (Prefix (Addr6 4 []) 126)
     [Prefix (Addr6 5 []) 128] 128) = 3"
proof -
  let ?c = "Prefix (Addr6 4 []) 126"
  let ?u = "[Prefix (Addr6 5 []) 128]"
  have "freePrefixCount ?c ?u 128 = Some (card (free_prefixes ?c ?u 128))"
    by (rule freePrefixCount_card) (simp_all, code_simp)
  moreover have "freePrefixCount ?c ?u 128 = Some 3" by code_simp
  ultimately show ?thesis by simp
qed

theorem allocate_uniform_witness:
  "\<exists>e. bij_betw e {..<3::nat} (available_prefixes (Prefix (Addr6 4 []) 126)
     [Prefix (Addr6 5 []) 128] 128)"
proof -
  let ?c = "Prefix (Addr6 4 []) 126"
  let ?u = "[Prefix (Addr6 5 []) 128]"
  have r: "alloc_request ?c ?u 128" by code_simp
  have "freePrefixCount ?c ?u 128 = Some 3" by code_simp
  moreover have "enumerates ?c ?u 128 n \<Longrightarrow> freePrefixCount ?c ?u 128 = Some n" for n
    by (simp add: enumerates_def)
  moreover have "Masked ?c = ?c" "map Masked ?u = ?u" by code_simp+
  ultimately have "card (available_prefixes ?c ?u 128) = 3"
    using request_enumeration [OF r] enumerates_card(1) by (metis option.inject)
  with allocate_uniform [OF r] show ?thesis by auto
qed

theorem allocate_failures_witness:
  "allocateWithChooser (Prefix (Addr6 4 []) 126)
     [Prefix (Addr6 5 []) 128] 126 (\<lambda>_. Inr (Some 0)) = Inl ErrPoolExhausted \<and>
   available_prefixes (Prefix (Addr6 4 []) 126)
     [Prefix (Addr6 5 []) 128] 126 = {}"
proof -
  let ?c = "Prefix (Addr6 4 []) 126"
  let ?u = "[Prefix (Addr6 5 []) 128]"
  have r: "alloc_request ?c ?u 126" by code_simp
  have "allocateWithChooser ?c ?u 126 (\<lambda>_. Inr (Some 0)) = Inl ErrPoolExhausted" by code_simp
  with allocate_failures [OF r, of "\<lambda>_. Inr (Some 0)"] show ?thesis by blast
qed

text \<open>
  C26. The statistics never panic: the allocated /64 units are the exact sum, saturated at the largest
  64-bit number, and the largest free block is the shortest length up to \<open>maxBits\<close> that has a
  free prefix, or -1 when none has.
\<close>

theorem PoolStats_correct:
  assumes "wf6 pool" and "\<forall>u\<in>set used. wf6 u" and "maxBits \<le> 128"
  shows "\<exists>allocated largest. PoolStats pool used maxBits = Some (allocated, largest) \<and>
    unat allocated = min (2 ^ 64 - 1) (\<Sum>p\<leftarrow>filter (\<lambda>p. pBits p \<le> 64) used. 2 ^ nat (64 - pBits p)) \<and>
    (largest = -1 \<and> (\<forall>b. pBits pool \<le> b \<and> b \<le> maxBits \<longrightarrow> free_prefixes (Masked pool) used b = {}) \<or>
     pBits pool \<le> largest \<and> largest \<le> maxBits \<and> free_prefixes (Masked pool) used largest \<noteq> {} \<and>
     (\<forall>b. pBits pool \<le> b \<and> b < largest \<longrightarrow> free_prefixes (Masked pool) used b = {}))"
proof -
  have pool: "wf6 (Masked pool)" "Masked (Masked pool) = Masked pool" "pBits (Masked pool) = pBits pool"
    using assms(1) by simp_all
  have free: "freePrefixCount (Masked pool) used b = Some (card (free_prefixes (Masked pool) used b)) \<and>
      (card (free_prefixes (Masked pool) used b) > 0 \<longleftrightarrow> free_prefixes (Masked pool) used b \<noteq> {})"
    if b: "pBits pool \<le> b" "b \<le> maxBits" for b
  proof -
    have "pBits (Masked pool) \<le> b" "b \<le> 128" using b pool(3) assms(3) by simp_all
    then obtain n where n: "enumerates (Masked pool) used b n"
      using free_prefix_enumeration [OF pool(1,2) assms(2)] by blast
    show ?thesis using n enumerates_card [OF n] by (auto simp: enumerates_def card_gt_0_iff)
  qed
  define found where "found = find (\<lambda>b. the (freePrefixCount (Masked pool) used b) > 0) [pBits pool..maxBits]"
  have largest: "largestFree pool used [pBits pool..maxBits] =
      Some (case found of None \<Rightarrow> -1 | Some b \<Rightarrow> b)"
    unfolding found_def by (rule largestFree_first) (use free in auto)
  have "case found of
      None \<Rightarrow> \<forall>b. pBits pool \<le> b \<and> b \<le> maxBits \<longrightarrow> free_prefixes (Masked pool) used b = {}
    | Some l \<Rightarrow> pBits pool \<le> l \<and> l \<le> maxBits \<and> free_prefixes (Masked pool) used l \<noteq> {} \<and>
        (\<forall>b. pBits pool \<le> b \<and> b < l \<longrightarrow> free_prefixes (Masked pool) used b = {})"
  proof (cases found)
    case None
    then have "\<forall>b\<in>{pBits pool..maxBits}. \<not> the (freePrefixCount (Masked pool) used b) > 0"
      by (simp add: found_def find_None_iff)
    with None free show ?thesis by auto
  next
    case (Some l)
    then have l: "pBits pool \<le> l" "l \<le> maxBits" "the (freePrefixCount (Masked pool) used l) > 0"
      "\<And>b. pBits pool \<le> b \<Longrightarrow> b < l \<Longrightarrow> \<not> the (freePrefixCount (Masked pool) used b) > 0"
      by (simp_all add: found_def find_upto_Some_iff)
    have "free_prefixes (Masked pool) used b = {}" if "pBits pool \<le> b" "b < l" for b
      using l(2) l(4) [OF that] free [of b] that by simp
    with Some l free [of l] show ?thesis by simp
  qed
  moreover have "\<forall>p\<in>set used. 0 \<le> pBits p" using assms(2) by (auto simp: wf6_def)
  note allocatedUnits_saturates [OF this, of 0]
  ultimately show ?thesis
    unfolding PoolStats_def largest by (cases found) auto
qed

theorem PoolStats_correct_witness:
  "PoolStats (Prefix (Addr6 4 []) 126) [Prefix (Addr6 5 []) 128] 128 = Some (0, 127) \<and>
   free_prefixes (Masked (Prefix (Addr6 4 []) 126)) [Prefix (Addr6 5 []) 128] 127 \<noteq> {}"
proof -
  have "PoolStats (Prefix (Addr6 4 []) 126) [Prefix (Addr6 5 []) 128] 128 = Some (0, 127)" by code_simp
  with PoolStats_correct [of "Prefix (Addr6 4 []) 126" "[Prefix (Addr6 5 []) 128]" 128]
  show ?thesis by auto
qed

end
