(* ===== verification/Ndp.thy ===== *)
theory Ndp
  imports Allocator "HOL-Library.Multiset"
begin

section \<open>Neighbor Discovery proxying (internal/broker/ndp.go)\<close>

text \<open>
  Packets are lists of bytes. The parser checks a solicitation, the builder renders an
  advertisement, both use the ICMPv6 checksum, whose sum is a 32-bit machine word; the proxy sets
  say for which addresses the host answers. A slice \<open>b[i:j]\<close> is \<open>slice i j b\<close>; the guards of the
  code keep every slice in range.
\<close>

unbundle bit_operations_syntax

type_synonym bytes = "8 word list"

definition slice :: "nat \<Rightarrow> nat \<Rightarrow> 'a list \<Rightarrow> 'a list" where
  "slice i j xs = take (j - i) (drop i xs)"

definition ipv6HeaderLength :: nat where "ipv6HeaderLength = 40"
definition protocolICMPv6 :: nat where "protocolICMPv6 = 58"
definition ndpHopLimit :: nat where "ndpHopLimit = 255"
definition icmpv6NeighborSolicitation :: nat where "icmpv6NeighborSolicitation = 135"
definition icmpv6NeighborAdvertisement :: nat where "icmpv6NeighborAdvertisement = 136"
definition ndpOptionTargetLinkLayer :: nat where "ndpOptionTargetLinkLayer = 2"
definition ndpMessageLength :: nat where "ndpMessageLength = 24"
definition ndpAdvertisementLength :: nat where "ndpAdvertisementLength = ndpMessageLength + 8"
definition ndpFlagRouter :: nat where "ndpFlagRouter = 0x80"
definition ndpFlagSolicited :: nat where "ndpFlagSolicited = 0x40"
definition ethernetAddressLength :: nat where "ethernetAddressLength = 6"
definition ethernetHeaderLength :: nat where "ethernetHeaderLength = 14"

lemmas ndp_consts = ipv6HeaderLength_def protocolICMPv6_def ndpHopLimit_def
  icmpv6NeighborSolicitation_def icmpv6NeighborAdvertisement_def ndpOptionTargetLinkLayer_def
  ndpMessageLength_def ndpAdvertisementLength_def ndpFlagRouter_def ndpFlagSolicited_def
  ethernetAddressLength_def ethernetHeaderLength_def

subsection \<open>The checksum\<close>

text \<open>\<open>encoding/binary\<close>: \<open>BigEndian.Uint16\<close> and \<open>BigEndian.PutUint16\<close>.\<close>

definition Uint16 :: "8 word \<Rightarrow> 8 word \<Rightarrow> 16 word" where
  "Uint16 hi lo = ucast hi * 256 + ucast lo"

definition PutUint16 :: "16 word \<Rightarrow> bytes" where
  "PutUint16 v = [ucast (drop_bit 8 v), ucast v]"

text \<open>The loop over the pairs of bytes, with the odd last byte shifted into the high half.\<close>

fun sum_words :: "32 word \<Rightarrow> bytes \<Rightarrow> 32 word" where
  "sum_words acc (a # b # rest) = sum_words (acc + ucast (Uint16 a b)) rest"
| "sum_words acc [a] = acc + push_bit 8 (ucast a)"
| "sum_words acc [] = acc"

lemma fold_carry_less:
  fixes s :: "32 word"
  assumes "0xffff < s"
  shows "unat (drop_bit 16 s + (s AND 0xffff)) < unat s"
    and "unat (drop_bit 16 s + (s AND 0xffff)) = unat s div 65536 + unat s mod 65536"
proof -
  have s: "unat s < 2 ^ 32" using unsigned_less [of s] by simp
  have hi: "unat (drop_bit 16 s) = unat s div 65536"
    by (simp only: unat_drop_bit_eq) (simp add: drop_bit_eq_div)
  have "s AND 0xffff = take_bit 16 s"
    by (simp add: take_bit_eq_mask mask_eq_exp_minus_1)
  then have lo: "unat (s AND 0xffff) = unat s mod 65536"
    by (simp only: unsigned_take_bit_eq) (simp add: take_bit_eq_mod)
  have "unat s div 65536 < 65536" using s by (simp add: div_less_iff_less_mult)
  then have "unat (drop_bit 16 s) + unat (s AND 0xffff) < 2 ^ 32" using hi lo by simp
  then show eq: "unat (drop_bit 16 s + (s AND 0xffff)) = unat s div 65536 + unat s mod 65536"
    using hi lo by (simp add: unat_add_lem [THEN iffD1])
  have "65535 < unat s" using assms by (simp add: word_less_nat_alt)
  then have "1 \<le> unat s div 65536" by (simp add: div_greater_zero_iff)
  moreover have "unat s = unat s div 65536 * 65536 + unat s mod 65536" by simp
  ultimately show "unat (drop_bit 16 s + (s AND 0xffff)) < unat s" using eq by linarith
qed

function fold_carry :: "32 word \<Rightarrow> 32 word" where
  "fold_carry acc = (if 0xffff < acc then fold_carry (drop_bit 16 acc + (acc AND 0xffff)) else acc)"
  by pat_completeness auto
termination
  by (relation "measure unat") (auto intro: fold_carry_less)

declare fold_carry.simps [simp del]

definition icmpv6Checksum :: "addr \<Rightarrow> addr \<Rightarrow> bytes \<Rightarrow> 16 word" where
  "icmpv6Checksum source destination message =
     (let acc = sum_words (sum_words 0 (As16 source)) (As16 destination);
          acc = acc + of_nat (length message) + of_nat protocolICMPv6;
          acc = sum_words acc message
      in NOT (ucast (fold_carry acc)))"

subsection \<open>Parsing and building\<close>

record neighborSolicitation =
  Source :: addr
  Destination :: addr
  Target :: addr

definition parseNeighborSolicitation :: "bytes \<Rightarrow> neighborSolicitation result" where
  "parseNeighborSolicitation packet =
     (let bad = Err ''packet is not a valid neighbor solicitation'' in
      if length packet < ipv6HeaderLength + ndpMessageLength \<or> drop_bit 4 (packet ! 0) \<noteq> 6 then bad
      else if unat (packet ! 6) \<noteq> protocolICMPv6 \<or> unat (packet ! 7) \<noteq> ndpHopLimit then bad
      else let payloadLength = unat (Uint16 (packet ! 4) (packet ! 5)) in
      if payloadLength < ndpMessageLength \<or> length packet < ipv6HeaderLength + payloadLength then bad
      else let message = slice ipv6HeaderLength (ipv6HeaderLength + payloadLength) packet in
      if unat (message ! 0) \<noteq> icmpv6NeighborSolicitation \<or> message ! 1 \<noteq> 0 then bad
      else case (AddrFromSlice (slice 8 24 packet), AddrFromSlice (slice 24 40 packet),
                 AddrFromSlice (slice 8 24 message)) of
        (Some source, Some destination, Some target) \<Rightarrow>
          if icmpv6Checksum source destination message \<noteq> 0 then bad
          else if \<not> IsGlobalUnicast target \<and> \<not> IsPrivate target then bad
          else if \<not> IsGlobalUnicast source \<and> \<not> IsPrivate source \<and> \<not> IsLinkLocalUnicast source then bad
          else Inr \<lparr>Source = source, Destination = destination, Target = target\<rparr>
      | _ \<Rightarrow> bad)"

text \<open>The ICMPv6 message of an advertisement, with the checksum field given.\<close>

definition advertisement_message :: "bytes \<Rightarrow> bytes \<Rightarrow> bytes \<Rightarrow> bytes" where
  "advertisement_message checksum target hardware =
     [of_nat icmpv6NeighborAdvertisement, 0] @ checksum @
     [of_nat ndpFlagRouter OR of_nat ndpFlagSolicited, 0, 0, 0] @ target @
     [of_nat ndpOptionTargetLinkLayer, 1] @ hardware"

definition buildNeighborAdvertisement :: "addr \<Rightarrow> addr \<Rightarrow> bytes \<Rightarrow> bytes result" where
  "buildNeighborAdvertisement target destination hardware =
     (if \<not> Is6 target \<or> \<not> Is6 destination
      then Err ''neighbor advertisement requires IPv6 addresses''
      else if length hardware \<noteq> ethernetAddressLength
      then Err ''neighbor discovery proxying requires an Ethernet upstream interface''
      else let header = [push_bit 4 6, 0, 0, 0] @ PutUint16 (of_nat ndpAdvertisementLength) @
                        [of_nat protocolICMPv6, of_nat ndpHopLimit] @ As16 target @ As16 destination;
               message = advertisement_message [0, 0] (As16 target) hardware;
               checksum = PutUint16 (icmpv6Checksum target destination message)
           in Inr (header @ message[2 := checksum ! 0, 3 := checksum ! 1]))"

subsection \<open>Proxy sets\<close>

record ndpProxySet =
  Delegated :: "prefix list"
  Local :: "addr list"

definition emptySet :: ndpProxySet where
  "emptySet = \<lparr>Delegated = [], Local = []\<rparr>"

definition ndp_empty :: "ndpProxySet \<Rightarrow> bool" where
  "ndp_empty s \<longleftrightarrow> Delegated s = []"

definition shouldAnswer :: "ndpProxySet \<Rightarrow> addr \<Rightarrow> bool" where
  "shouldAnswer s target \<longleftrightarrow>
     Is6 target \<and> \<not> list_ex (\<lambda>local. local = target) (Local s) \<and>
     list_ex (\<lambda>prefix. Contains prefix target) (Delegated s)"

definition ndp_equal :: "ndpProxySet \<Rightarrow> ndpProxySet \<Rightarrow> bool" where
  "ndp_equal s other \<longleftrightarrow>
     length (Delegated s) = length (Delegated other) \<and> length (Local s) = length (Local other) \<and>
     list_all2 (=) (Delegated s) (Delegated other) \<and> list_all2 (=) (Local s) (Local other)"

text \<open>\<open>sort.Slice\<close> with a comparison function, as an insertion sort.\<close>

fun insert_by :: "('a \<Rightarrow> 'a \<Rightarrow> bool) \<Rightarrow> 'a \<Rightarrow> 'a list \<Rightarrow> 'a list" where
  "insert_by lt x [] = [x]"
| "insert_by lt x (y # ys) = (if lt y x then y # insert_by lt x ys else x # y # ys)"

definition sort_by :: "('a \<Rightarrow> 'a \<Rightarrow> bool) \<Rightarrow> 'a list \<Rightarrow> 'a list" where
  "sort_by lt xs = foldr (insert_by lt) xs []"

definition prefixLess :: "prefix \<Rightarrow> prefix \<Rightarrow> bool" where
  "prefixLess p q =
     (if pAddr p \<noteq> pAddr q then addrLess (pAddr p) (pAddr q) else pBits p < pBits q)"

definition ndp_sort :: "ndpProxySet \<Rightarrow> ndpProxySet" where
  "ndp_sort s = \<lparr>Delegated = sort_by prefixLess (Delegated s), Local = sort_by addrLess (Local s)\<rparr>"

definition ndp_merge :: "ndpProxySet \<Rightarrow> ndpProxySet \<Rightarrow> ndpProxySet" where
  "ndp_merge s other =
     ndp_sort \<lparr>Delegated = Delegated s @ Delegated other, Local = Local s @ Local other\<rparr>"

definition proxyBlock :: "prefix \<Rightarrow> tunnel \<Rightarrow> prefix list" where
  "proxyBlock upstream tunnel =
     (if \<not> t_Enabled tunnel then []
      else case ParsePrefix (t_V6CIDR tunnel) of
        None \<Rightarrow> []
      | Some prefix \<Rightarrow> if \<not> Contains upstream (pAddr prefix) then [] else [Masked prefix])"

definition ndpProxySetFor :: "upstream \<Rightarrow> tunnel list \<Rightarrow> addr list \<Rightarrow> ndpProxySet" where
  "ndpProxySetFor up tunnels local =
     (if upstreamMode up \<noteq> UpstreamOnLink then emptySet
      else case delegatedPrefix up of
        None \<Rightarrow> emptySet
      | Some upstream \<Rightarrow>
          ndp_sort
            \<lparr>Delegated = concat (map (proxyBlock upstream) tunnels),
             Local = filter (\<lambda>address. Is6 address \<and> Contains upstream address) local\<rparr>)"

text \<open>
  The maps of the Go code are maps here; a missing key of \<open>tunnels\<close> or \<open>local\<close> yields the nil
  slice, a missing set the zero value.
\<close>

definition slice_at :: "('k \<rightharpoonup> 'a list) \<Rightarrow> 'k \<Rightarrow> 'a list" where
  "slice_at m k = (case m k of None \<Rightarrow> [] | Some l \<Rightarrow> l)"

definition ndpProxySetsFor ::
    "upstream list \<Rightarrow> (int \<rightharpoonup> tunnel list) \<Rightarrow> (string \<rightharpoonup> addr list) \<Rightarrow> (string \<rightharpoonup> ndpProxySet)" where
  "ndpProxySetsFor upstreams tunnels local =
     foldl (\<lambda>sets up.
        if upstreamMode up \<noteq> UpstreamOnLink \<or> up_EgressInterface up = [] then sets
        else let set = ndpProxySetFor up (slice_at tunnels (up_ID up)) (slice_at local (up_EgressInterface up))
             in if ndp_empty set then sets
                else let existing = (case sets (up_EgressInterface up) of None \<Rightarrow> emptySet | Some s \<Rightarrow> s)
                     in sets(up_EgressInterface up \<mapsto> ndp_merge existing set))
       Map.empty upstreams"

subsection \<open>Facts about the checksum\<close>

text \<open>The unbounded sum of the 16-bit groups.\<close>

fun sum_nat :: "bytes \<Rightarrow> nat" where
  "sum_nat (a # b # rest) = unat a * 256 + unat b + sum_nat rest"
| "sum_nat [a] = unat a * 256"
| "sum_nat [] = 0"

lemma unat_byte_lt: "unat (b :: 8 word) < 256"
  using unsigned_less [of b] by simp

lemma unat_Uint16: "unat (Uint16 a b) = unat a * 256 + unat b"
  using unat_byte_lt [of a] unat_byte_lt [of b]
  by (simp add: Uint16_def unat_word_ariths unsigned_ucast_eq take_bit_eq_mod)

lemma unat_sum_words:
  "unat acc + sum_nat bs < 2 ^ 32 \<Longrightarrow> unat (sum_words acc bs) = unat acc + sum_nat bs"
proof (induction acc bs rule: sum_words.induct)
  case (1 acc a b rest)
  have u: "unat (ucast (Uint16 a b) :: 32 word) = unat a * 256 + unat b"
    using unat_byte_lt [of a] unat_byte_lt [of b]
    by (simp add: unsigned_ucast_eq take_bit_nat_eq_self unat_Uint16)
  have "unat (acc + ucast (Uint16 a b)) = unat acc + (unat a * 256 + unat b)"
    using "1.prems" u by (simp add: unat_add_lem [THEN iffD1])
  with 1 show ?case by simp
next
  case (2 acc a)
  have "unat (push_bit 8 (ucast a :: 32 word)) = unat a * 256"
    using unat_byte_lt [of a]
    by (simp add: push_bit_eq_mult unat_word_ariths unsigned_ucast_eq take_bit_eq_mod)
  with 2 show ?case by (simp add: unat_add_lem [THEN iffD1])
qed simp

lemma sum_nat_le: "2 * sum_nat bs \<le> 65535 * (length bs + 1)"
proof (induction bs rule: sum_nat.induct)
  case (1 a b rest)
  then show ?case using unat_byte_lt [of a] unat_byte_lt [of b] by simp
next
  case (2 a)
  then show ?case using unat_byte_lt [of a] by simp
qed simp

lemma fold_carry_range: "unat (fold_carry s) < 65536"
proof (induction s rule: fold_carry.induct)
  case (1 s)
  then show ?case
    by (cases "0xffff < s") (simp_all add: fold_carry.simps [of s] word_less_nat_alt)
qed

lemma fold_carry_mod: "unat (fold_carry s) mod 65535 = unat s mod 65535"
proof (induction s rule: fold_carry.induct)
  case (1 s)
  have "unat s mod 65535 = (unat s div 65536 + unat s mod 65536) mod 65535"
  proof -
    have "unat s = unat s div 65536 * 65535 + (unat s div 65536 + unat s mod 65536)" by simp
    then show ?thesis by (metis mod_mult_self3)
  qed
  with 1 fold_carry_less(2) [of s] show ?case
    by (cases "0xffff < s") (simp_all add: fold_carry.simps [of s])
qed

lemma fold_carry_pos: "0 < unat s \<Longrightarrow> 0 < unat (fold_carry s)"
proof (induction s rule: fold_carry.induct)
  case (1 s)
  show ?case
  proof (cases "0xffff < s")
    case True
    have "0 < unat s div 65536 + unat s mod 65536"
      using "1.prems" by (metis add_eq_0_iff_both_eq_0 div_mult_mod_eq mult_0 neq0_conv)
    then show ?thesis
      using 1 True fold_carry_less(2) [OF True] by (simp add: fold_carry.simps [of s])
  next
    case False
    then show ?thesis using "1.prems" by (simp add: fold_carry.simps [of s])
  qed
qed

text \<open>The sum over the pseudo-header and the message, without wrap-around.\<close>

definition icmp_sum :: "addr \<Rightarrow> addr \<Rightarrow> bytes \<Rightarrow> nat" where
  "icmp_sum source destination message =
     sum_nat (As16 source) + sum_nat (As16 destination) + length message + 58 + sum_nat message"

lemma length_As16 [simp]: "length (As16 a) = 16"
  by (cases a) simp_all

lemma icmpv6Checksum_fold:
  assumes "length message \<le> 65535"
  obtains s where "unat s = icmp_sum source destination message"
    and "icmpv6Checksum source destination message = NOT (ucast (fold_carry s))"
proof -
  define s0 where "s0 = sum_words (sum_words 0 (As16 source)) (As16 destination)"
  define s1 where "s1 = s0 + of_nat (length message) + of_nat protocolICMPv6"
  have b: "sum_nat (As16 a) \<le> 557048" for a using sum_nat_le [of "As16 a"] by simp
  have m: "2 * sum_nat message \<le> 65535 * 65536"
  proof -
    have "65535 * (length message + 1) \<le> 65535 * 65536" using assms by (intro mult_le_mono2) simp
    with sum_nat_le [of message] show ?thesis by (rule order_trans)
  qed
  have "unat (sum_words 0 (As16 source)) = sum_nat (As16 source)"
    using unat_sum_words [of 0 "As16 source"] b [of source] by simp
  then have s0: "unat s0 = sum_nat (As16 source) + sum_nat (As16 destination)"
    using unat_sum_words [of "sum_words 0 (As16 source)" "As16 destination"] b [of source] b [of destination]
    by (simp add: s0_def)
  have "s1 = s0 + of_nat (length message + 58)" by (simp add: s1_def protocolICMPv6_def)
  moreover have "unat (of_nat (length message + 58) :: 32 word) = length message + 58"
    using assms by (simp add: unat_of_nat del: of_nat_add)
  ultimately have s1: "unat s1 = unat s0 + (length message + 58)"
    using s0 b [of source] b [of destination] assms by (simp add: unat_add_lem [THEN iffD1] del: of_nat_add)
  have "unat (sum_words s1 message) = icmp_sum source destination message"
    using unat_sum_words [of s1 message] s1 s0 b [of source] b [of destination] m assms
    by (simp add: icmp_sum_def)
  then show thesis
    by (rule that) (simp add: icmpv6Checksum_def Let_def s0_def s1_def)
qed

lemma PutUint16_bytes: "unat (PutUint16 v ! 0) * 256 + unat (PutUint16 v ! 1) = unat v"
proof -
  have v: "unat v < 65536" using unsigned_less [of v] by simp
  have "unat (drop_bit 8 v) = unat v div 256"
    by (simp only: unat_drop_bit_eq) (simp add: drop_bit_eq_div)
  then show ?thesis using v
    by (simp add: PutUint16_def unsigned_ucast_eq take_bit_eq_mod div_less_iff_less_mult)
qed

lemma sum_nat_checksum_field:
  assumes "4 \<le> length m" and "m ! 2 = 0" and "m ! 3 = 0"
  shows "sum_nat (m[2 := x, 3 := y]) = sum_nat m + (unat x * 256 + unat y)"
proof -
  obtain a b c d rest where "m = a # b # c # d # rest"
    using assms(1) by (auto simp: Suc_le_length_iff eval_nat_numeral)
  with assms show ?thesis by (simp add: numeral_2_eq_2 numeral_3_eq_3)
qed

lemma unat_NOT_fold:
  assumes "unat (s :: 32 word) < 65536"
  shows "unat (NOT (ucast s) :: 16 word) = 65535 - unat s"
proof -
  have "unat (ucast s :: 16 word) = unat s"
    using assms by (simp add: unsigned_ucast_eq take_bit_nat_eq_self)
  moreover have "NOT w = - 1 - w" for w :: "16 word" by (simp add: not_eq_complement)
  moreover have "unat (- 1 - w) = unat (- 1 :: 16 word) - unat w" for w :: "16 word"
    by (rule unat_sub) (simp add: word_order.extremum)
  moreover have "unat (- 1 :: 16 word) = 65535" by (simp add: unsigned_minus_1_eq_mask mask_eq_exp_minus_1)
  ultimately show ?thesis by simp
qed

text \<open>Filling in the checksum makes the message verify.\<close>

lemma checksum_verifies:
  assumes m: "4 \<le> length m" "length m \<le> 65535" "m ! 2 = 0" "m ! 3 = 0"
    and c_def: "c = PutUint16 (icmpv6Checksum source destination m)"
  shows "icmpv6Checksum source destination (m[2 := c ! 0, 3 := c ! 1]) = 0"
proof -
  obtain s where s: "unat s = icmp_sum source destination m"
    and cs: "icmpv6Checksum source destination m = NOT (ucast (fold_carry s))"
    by (rule icmpv6Checksum_fold [OF m(2)])
  have "length (m[2 := c ! 0, 3 := c ! 1]) \<le> 65535" using m by simp
  then obtain s' where s': "unat s' = icmp_sum source destination (m[2 := c ! 0, 3 := c ! 1])"
    and cs': "icmpv6Checksum source destination (m[2 := c ! 0, 3 := c ! 1]) = NOT (ucast (fold_carry s'))"
    by (rule icmpv6Checksum_fold)
  let ?f = "unat (fold_carry s)"
  have "unat s' = unat s + (65535 - ?f)"
    using s s' cs m PutUint16_bytes [of "icmpv6Checksum source destination m"]
      unat_NOT_fold [OF fold_carry_range [of s]]
    by (simp add: icmp_sum_def sum_nat_checksum_field c_def)
  moreover have "(unat s + (65535 - ?f)) mod 65535 = (?f + (65535 - ?f)) mod 65535"
    using fold_carry_mod [of s] by (metis mod_add_left_eq)
  ultimately have "unat s' mod 65535 = 0" using fold_carry_range [of s] by simp
  then have "65535 dvd unat (fold_carry s')" using fold_carry_mod [of s'] by (simp add: mod_eq_0_iff_dvd)
  then obtain k where k: "unat (fold_carry s') = 65535 * k" ..
  moreover have "0 < unat (fold_carry s')" "unat (fold_carry s') < 65536"
    using fold_carry_pos [of s'] fold_carry_range [of s'] s' by (auto simp: icmp_sum_def)
  ultimately have "unat (fold_carry s') = 65535" by (cases k) auto
  then have "unat (NOT (ucast (fold_carry s')) :: 16 word) = 0" using unat_NOT_fold [of "fold_carry s'"] by simp
  then show ?thesis unfolding cs' by (simp only: unat_eq_zero)
qed

subsection \<open>Facts about the proxy sets\<close>

lemma mset_insert_by [simp]: "mset (insert_by lt x xs) = add_mset x (mset xs)"
  by (induction xs) auto

lemma mset_sort_by [simp]: "mset (sort_by lt xs) = mset xs"
  by (induction xs) (simp_all add: sort_by_def)

lemma set_sort_by [simp]: "set (sort_by lt xs) = set xs"
  by (metis mset_sort_by set_mset_mset)

text \<open>
  A comparison that is a strict total order: sorting by it gives an ordered list that depends only
  on the elements and their multiplicity, so an unstable sort is as good as a stable one.
\<close>

locale sort_order =
  fixes lt :: "'a \<Rightarrow> 'a \<Rightarrow> bool"
  assumes lt_irrefl: "\<not> lt x x"
    and lt_trans: "lt x y \<Longrightarrow> lt y z \<Longrightarrow> lt x z"
    and lt_total: "x \<noteq> y \<Longrightarrow> lt x y \<or> lt y x"
begin

lemma lt_asym: "lt x y \<Longrightarrow> \<not> lt y x"
  using lt_trans lt_irrefl by blast

lemma le_trans: "\<not> lt y x \<Longrightarrow> \<not> lt z y \<Longrightarrow> \<not> lt z x"
  using lt_trans [of z x y] lt_total [of x y] by auto

lemma insert_by_commute: "insert_by lt x \<circ> insert_by lt y = insert_by lt y \<circ> insert_by lt x"
proof
  fix zs
  show "(insert_by lt x \<circ> insert_by lt y) zs = (insert_by lt y \<circ> insert_by lt x) zs"
    using lt_irrefl lt_trans lt_total by (induction zs) (auto, metis+)
qed

lemma sort_by_mset: "mset xs = mset ys \<Longrightarrow> sort_by lt xs = sort_by lt ys"
  unfolding sort_by_def
  by (simp add: foldr_fold insert_by_commute fold_multiset_equiv [of xs "insert_by lt" ys])

lemma sorted_insert_by:
  "sorted_wrt (\<lambda>a b. \<not> lt b a) xs \<Longrightarrow> sorted_wrt (\<lambda>a b. \<not> lt b a) (insert_by lt x xs)"
proof (induction xs)
  case (Cons y ys)
  have "set (insert_by lt x ys) = insert x (set ys)"
    by (metis mset_insert_by set_mset_add_mset_insert set_mset_mset)
  then show ?case using Cons by (auto dest: lt_asym le_trans)
qed simp

lemma sorted_sort_by: "sorted_wrt (\<lambda>a b. \<not> lt b a) (sort_by lt xs)"
  unfolding sort_by_def by (induction xs) (simp_all add: sorted_insert_by)

end

lemma addr_key_inject: "addr_key a = addr_key b \<longleftrightarrow> a = b"
  by (cases a; cases b) (auto simp: word_unat_eq_iff)

lemma addrLess_key:
  "addrLess a b \<longleftrightarrow> fst (addr_key a) < fst (addr_key b) \<or>
     fst (addr_key a) = fst (addr_key b) \<and>
     (fst (snd (addr_key a)) < fst (snd (addr_key b)) \<or>
      fst (snd (addr_key a)) = fst (snd (addr_key b)) \<and> snd (snd (addr_key a)) < snd (snd (addr_key b)))"
  by (simp add: addrLess_def split_beta)

interpretation addr_order: sort_order addrLess
proof
  show "addrLess a b \<or> addrLess b a" if "a \<noteq> b" for a b
  proof -
    have "addr_key a \<noteq> addr_key b" using that by (simp add: addr_key_inject)
    then show ?thesis by (auto simp: addrLess_key prod_eq_iff)
  qed
qed (auto simp: addrLess_key)

interpretation prefix_order: sort_order prefixLess
proof
  show "prefixLess p r" if "prefixLess p q" "prefixLess q r" for p q r
    using that addr_order.lt_trans [of "pAddr p" "pAddr q" "pAddr r"] addr_order.lt_asym [of "pAddr p" "pAddr q"]
    by (auto simp: prefixLess_def split: if_splits)
  show "prefixLess p q \<or> prefixLess q p" if "p \<noteq> q" for p q
    using that addr_order.lt_total [of "pAddr p" "pAddr q"]
    by (cases p; cases q) (auto simp: prefixLess_def)
qed (simp add: prefixLess_def)

lemma ndp_sort_eq_iff:
  "ndp_sort s = ndp_sort s' \<longleftrightarrow>
     mset (Delegated s) = mset (Delegated s') \<and> mset (Local s) = mset (Local s')"
  unfolding ndp_sort_def
  by (auto intro: prefix_order.sort_by_mset addr_order.sort_by_mset dest: arg_cong [of _ _ mset])

lemma ndp_equal_iff: "ndp_equal s t \<longleftrightarrow> s = t"
  by (auto simp: ndp_equal_def list.rel_eq)

lemma shouldAnswer_sort [simp]: "shouldAnswer (ndp_sort s) a \<longleftrightarrow> shouldAnswer s a"
  by (simp add: shouldAnswer_def ndp_sort_def list_ex_iff)

lemma ndp_sort_simps [simp]:
  "set (Delegated (ndp_sort s)) = set (Delegated s)" "set (Local (ndp_sort s)) = set (Local s)"
  by (simp_all add: ndp_sort_def)

text \<open>A proxied prefix of a connection: the block of an enabled tunnel inside its delegation.\<close>

definition proxied :: "upstream \<Rightarrow> tunnel list \<Rightarrow> prefix set" where
  "proxied up ts = {q. upstreamMode up = UpstreamOnLink \<and> (\<exists>d t p. delegatedPrefix up = Some d \<and>
     t \<in> set ts \<and> t_Enabled t \<and> ParsePrefix (t_V6CIDR t) = Some p \<and> Contains d (pAddr p) \<and> q = Masked p)}"

lemma Delegated_SetFor: "set (Delegated (ndpProxySetFor up ts local)) = proxied up ts"
proof -
  have "q \<in> set (proxyBlock d t) \<longleftrightarrow> t_Enabled t \<and> (\<exists>p. ParsePrefix (t_V6CIDR t) = Some p \<and>
      Contains d (pAddr p) \<and> q = Masked p)" for q t d
    by (cases "ParsePrefix (t_V6CIDR t)") (auto simp: proxyBlock_def)
  then show ?thesis
    by (auto simp: ndpProxySetFor_def proxied_def emptySet_def split: option.splits)
qed

lemma Local_SetFor:
  "set (Local (ndpProxySetFor up ts local)) =
     {a. a \<in> set local \<and> Is6 a \<and> upstreamMode up = UpstreamOnLink \<and>
         (\<exists>d. delegatedPrefix up = Some d \<and> Contains d a)}"
  by (auto simp: ndpProxySetFor_def emptySet_def split: option.splits)

lemma proxied_onlink: "q \<in> proxied up ts \<Longrightarrow> upstreamMode up = UpstreamOnLink"
  by (simp add: proxied_def)

lemma ndp_merge_simps [simp]:
  "set (Delegated (ndp_merge s t)) = set (Delegated s) \<union> set (Delegated t)"
  "set (Local (ndp_merge s t)) = set (Local s) \<union> set (Local t)"
  by (simp_all add: ndp_merge_def)

text \<open>
  The connections that contribute to an interface: those of the interface with at least one
  proxied prefix.
\<close>

definition contributing :: "upstream list \<Rightarrow> (int \<rightharpoonup> tunnel list) \<Rightarrow> string \<Rightarrow> upstream set" where
  "contributing ups ts i =
     {up. up \<in> set ups \<and> up_EgressInterface up = i \<and> i \<noteq> [] \<and> proxied up (slice_at ts (up_ID up)) \<noteq> {}}"

definition set_at :: "(string \<rightharpoonup> ndpProxySet) \<Rightarrow> string \<Rightarrow> ndpProxySet" where
  "set_at sets i = (case sets i of None \<Rightarrow> emptySet | Some s \<Rightarrow> s)"

lemma set_at_simps [simp]:
  "set_at Map.empty i = emptySet" "set_at (m(j \<mapsto> s)) i = (if i = j then s else set_at m i)"
  by (simp_all add: set_at_def)

lemma emptySet_simps [simp]: "Delegated emptySet = []" "Local emptySet = []"
  by (simp_all add: emptySet_def)

lemma ndpProxySetsFor_snoc:
  "ndpProxySetsFor (ups @ [up]) ts loc =
     (if up_EgressInterface up \<noteq> [] \<and> proxied up (slice_at ts (up_ID up)) \<noteq> {}
      then (ndpProxySetsFor ups ts loc)(up_EgressInterface up \<mapsto>
        ndp_merge (set_at (ndpProxySetsFor ups ts loc) (up_EgressInterface up))
          (ndpProxySetFor up (slice_at ts (up_ID up)) (slice_at loc (up_EgressInterface up))))
      else ndpProxySetsFor ups ts loc)"
proof -
  have "ndp_empty (ndpProxySetFor up (slice_at ts (up_ID up)) l) \<longleftrightarrow>
      proxied up (slice_at ts (up_ID up)) = {}" for l
    by (simp add: ndp_empty_def flip: Delegated_SetFor [where local = l])
  then show ?thesis
    by (auto simp: ndpProxySetsFor_def Let_def set_at_def dest: proxied_onlink)
qed

lemma ndpProxySetsFor_at:
  "set (Delegated (set_at (ndpProxySetsFor ups ts loc) i)) =
     (\<Union>up \<in> contributing ups ts i. proxied up (slice_at ts (up_ID up)))"
  "set (Local (set_at (ndpProxySetsFor ups ts loc) i)) =
     (\<Union>up \<in> contributing ups ts i.
        {a. a \<in> set (slice_at loc i) \<and> Is6 a \<and> (\<exists>d. delegatedPrefix up = Some d \<and> Contains d a)})"
proof (induction ups rule: rev_induct)
  case (snoc up ups)
  have c: "contributing (ups @ [up]) ts i = contributing ups ts i \<union>
      (if up_EgressInterface up = i \<and> i \<noteq> [] \<and> proxied up (slice_at ts (up_ID up)) \<noteq> {} then {up} else {})"
    by (auto simp: contributing_def)
  have at: "set_at (ndpProxySetsFor (ups @ [up]) ts loc) i =
      (if up_EgressInterface up = i \<and> i \<noteq> [] \<and> proxied up (slice_at ts (up_ID up)) \<noteq> {}
       then ndp_merge (set_at (ndpProxySetsFor ups ts loc) i)
         (ndpProxySetFor up (slice_at ts (up_ID up)) (slice_at loc i))
       else set_at (ndpProxySetsFor ups ts loc) i)"
    unfolding ndpProxySetsFor_snoc by (cases "up_EgressInterface up = i") simp_all
  {
    case 1
    show ?case unfolding at c by (simp add: Delegated_SetFor snoc(1))
  next
    case 2
    have "proxied up (slice_at ts (up_ID up)) \<noteq> {} \<Longrightarrow> upstreamMode up = UpstreamOnLink"
      by (auto dest: proxied_onlink)
    then show ?case unfolding at c by (simp add: Local_SetFor snoc(2))
  }
qed (simp_all add: ndpProxySetsFor_def contributing_def)

text \<open>The decision on an interface: no listener, no answer.\<close>

definition answers_on :: "(string \<rightharpoonup> ndpProxySet) \<Rightarrow> string \<Rightarrow> addr \<Rightarrow> bool" where
  "answers_on sets i a = (case sets i of None \<Rightarrow> False | Some s \<Rightarrow> shouldAnswer s a)"

lemma answers_on_set_at: "answers_on sets i a \<longleftrightarrow> shouldAnswer (set_at sets i) a"
  by (simp add: answers_on_def set_at_def shouldAnswer_def split: option.split)

lemma answers_on_iff:
  "answers_on (ndpProxySetsFor ups ts loc) i a \<longleftrightarrow>
     Is6 a \<and> (\<exists>up \<in> contributing ups ts i. \<exists>q \<in> proxied up (slice_at ts (up_ID up)). Contains q a) \<and>
     \<not> (a \<in> set (slice_at loc i) \<and>
        (\<exists>up \<in> contributing ups ts i. \<exists>d. delegatedPrefix up = Some d \<and> Contains d a))"
  unfolding answers_on_set_at shouldAnswer_def list_ex_iff ndpProxySetsFor_at by auto

lemma wf6_delegated: "delegatedPrefix up = Some d \<Longrightarrow> wf6 d \<and> Masked d = d"
proof -
  assume "delegatedPrefix up = Some d"
  then obtain p where p: "ParsePrefix (up_V6CIDR up) = Some p" "Is6 (pAddr p)" "d = Masked p"
    by (auto simp: delegatedPrefix_def split: option.splits if_splits)
  have "wf6 p" using p(1,2) by (rule wf6_ParsePrefix)
  then show ?thesis using p(3) by simp
qed

lemma Contains_trans:
  assumes "wf6 d" "wf6 p" "len6 d \<le> len6 p" "Contains d (pAddr p)" "Contains (Masked p) a"
  shows "Contains d a"
proof -
  have "Contains p a \<longleftrightarrow> Contains (Masked p) a"
    using assms(2) by (elim wf6E) (cases a; auto simp: Masked6 Contains.simps drop_bit_eq_iff_blk)
  then have "Contains p a" using assms(5) by simp
  then obtain w where a: "a = Addr6 w []"
    using assms(2) by (elim wf6E) (cases a; auto simp: Contains.simps split: if_splits)
  let ?q = "Prefix (Addr6 w []) 128"
  have "wf6 ?q" by simp
  then have "agree6 (len6 d) p ?q"
    using \<open>Contains p a\<close> assms a Contains_agree6 [of p ?q] agree6_mono [of "len6 p" p ?q "len6 d"] len6_le [of p]
    by simp
  moreover have "agree6 (len6 d) d p" using assms Contains_agree6 [of d p] by simp
  ultimately have "agree6 (len6 d) d ?q" by (simp add: agree6_def)
  then show ?thesis using assms(1) a \<open>wf6 ?q\<close> Contains_agree6 [of d ?q] by simp
qed

subsection \<open>Properties\<close>

text \<open>
  C30. A rendered advertisement is a valid packet: 72 bytes, IPv6 with next header ICMPv6, hop limit
  255 and the right payload length, from the proxied target to the solicitor, a solicited router
  advertisement without Override for the target that carries the interface's link-layer address,
  and its checksum verifies.
\<close>

theorem advertisement_valid:
  assumes "Is6 target" and "Is6 destination" and "length hardware = 6"
  shows "\<exists>packet. buildNeighborAdvertisement target destination hardware = Inr packet \<and>
    length packet = 72 \<and> drop_bit 4 (packet ! 0) = 6 \<and> Uint16 (packet ! 4) (packet ! 5) = 32 \<and>
    packet ! 6 = 58 \<and> packet ! 7 = 255 \<and>
    slice 8 24 packet = As16 target \<and> slice 24 40 packet = As16 destination \<and>
    packet ! 40 = 136 \<and> packet ! 41 = 0 \<and> packet ! 44 = 0xC0 \<and>
    slice 48 64 packet = As16 target \<and> packet ! 64 = 2 \<and> packet ! 65 = 1 \<and>
    slice 66 72 packet = hardware \<and>
    icmpv6Checksum target destination (slice 40 72 packet) = 0"
proof -
  define header where "header = [push_bit 4 6 :: 8 word, 0, 0, 0] @ PutUint16 (of_nat ndpAdvertisementLength) @
      [of_nat protocolICMPv6, of_nat ndpHopLimit] @ As16 target @ As16 destination"
  define m where "m = advertisement_message [0, 0] (As16 target) hardware"
  define c where "c = PutUint16 (icmpv6Checksum target destination m)"
  have b: "buildNeighborAdvertisement target destination hardware = Inr (header @ m[2 := c ! 0, 3 := c ! 1])"
    using assms by (simp add: buildNeighborAdvertisement_def Let_def ethernetAddressLength_def header_def m_def c_def)
  have lm: "length m = 32" and m23: "m ! 2 = 0" "m ! 3 = 0"
    using assms by (simp_all add: m_def advertisement_message_def ndp_consts nth_append)
  have m': "m[2 := c ! 0, 3 := c ! 1] = advertisement_message [c ! 0, c ! 1] (As16 target) hardware"
    by (simp add: m_def advertisement_message_def list_update_append eval_nat_numeral)
  have h: "length header = 40" by (simp add: header_def PutUint16_def)
  have "slice 40 72 (header @ m[2 := c ! 0, 3 := c ! 1]) = m[2 := c ! 0, 3 := c ! 1]"
    using h lm by (simp add: slice_def)
  then have "icmpv6Checksum target destination (slice 40 72 (header @ m[2 := c ! 0, 3 := c ! 1])) = 0"
    using checksum_verifies [of m c target destination] lm m23 c_def by simp
  moreover have "packet ! 44 = 0xC0 \<and> slice 48 64 packet = As16 target"
    if "packet = header @ m[2 := c ! 0, 3 := c ! 1]" for packet
    using h unfolding that m'
    by (simp add: slice_def advertisement_message_def nth_append ndp_consts)
  ultimately show ?thesis
    unfolding b using h lm assms
    by (intro exI [of _ "header @ m[2 := c ! 0, 3 := c ! 1]"] conjI)
      (simp_all add: slice_def header_def m_def advertisement_message_def nth_append ndp_consts
        PutUint16_def Uint16_def nth_Cons' list_update_append)
qed

theorem advertisement_valid_witness:
  "\<exists>packet. buildNeighborAdvertisement (Addr6 0x20010db8000000000000000000000001 []) (Addr6 0xfe800000000000000000000000000002 [])
     [2, 0, 0, 0, 0, 1] = Inr packet \<and> length packet = 72"
  using advertisement_valid [of "Addr6 0x20010db8000000000000000000000001 []"
      "Addr6 0xfe800000000000000000000000000002 []" "[2, 0, 0, 0, 0, 1]"]
  by auto

text \<open>
  C17. What the host proxies on an interface, over all connections that share it: exactly the IPv6
  addresses inside the block of an enabled tunnel of an on-link connection of that interface, less
  the host's own addresses there that lie in the delegation of a proxying connection.
\<close>

theorem proxy_answers_exactly:
  "answers_on (ndpProxySetsFor ups ts loc) i a \<longleftrightarrow>
     Is6 a \<and> i \<noteq> [] \<and>
     (\<exists>up \<in> set ups. \<exists>d. \<exists>t \<in> set (slice_at ts (up_ID up)). \<exists>p.
        upstreamMode up = UpstreamOnLink \<and> up_EgressInterface up = i \<and> delegatedPrefix up = Some d \<and>
        t_Enabled t \<and> ParsePrefix (t_V6CIDR t) = Some p \<and> Contains d (pAddr p) \<and>
        Contains (Masked p) a) \<and>
     \<not> (a \<in> set (slice_at loc i) \<and>
        (\<exists>up \<in> contributing ups ts i. \<exists>d. delegatedPrefix up = Some d \<and> Contains d a))"
proof -
  have "(\<exists>up \<in> contributing ups ts i. \<exists>q \<in> proxied up (slice_at ts (up_ID up)). Contains q a) \<longleftrightarrow>
      i \<noteq> [] \<and> (\<exists>up \<in> set ups. up_EgressInterface up = i \<and>
        (\<exists>q \<in> proxied up (slice_at ts (up_ID up)). Contains q a))"
    by (auto simp: contributing_def)
  moreover have "(\<exists>q \<in> proxied up l. Contains q a) \<longleftrightarrow> (\<exists>d. \<exists>t \<in> set l. \<exists>p. upstreamMode up = UpstreamOnLink \<and>
      delegatedPrefix up = Some d \<and> t_Enabled t \<and> ParsePrefix (t_V6CIDR t) = Some p \<and>
      Contains d (pAddr p) \<and> Contains (Masked p) a)" for up l
    unfolding proxied_def by blast
  ultimately show ?thesis unfolding answers_on_iff by blast
qed

text \<open>
  The host never answers for an address configured on the interface itself, provided every
  tunnel's block is no shorter than the delegation it comes from.
\<close>

theorem proxy_spares_local:
  assumes "\<forall>up \<in> set ups. \<forall>t \<in> set (slice_at ts (up_ID up)). \<forall>d p.
      delegatedPrefix up = Some d \<longrightarrow> ParsePrefix (t_V6CIDR t) = Some p \<longrightarrow>
      Contains d (pAddr p) \<longrightarrow> pBits d \<le> pBits p"
    and "a \<in> set (slice_at loc i)"
  shows "\<not> answers_on (ndpProxySetsFor ups ts loc) i a"
proof
  assume "answers_on (ndpProxySetsFor ups ts loc) i a"
  then have nolocal: "\<not> (\<exists>up \<in> contributing ups ts i. \<exists>d. delegatedPrefix up = Some d \<and> Contains d a)"
    and ex: "\<exists>up \<in> contributing ups ts i. \<exists>q \<in> proxied up (slice_at ts (up_ID up)). Contains q a"
    using assms(2) by (auto simp: answers_on_iff)
  from ex obtain up q where up: "up \<in> contributing ups ts i" and q: "q \<in> proxied up (slice_at ts (up_ID up))" "Contains q a"
    by blast
  then obtain d t p where d: "delegatedPrefix up = Some d" and t: "t \<in> set (slice_at ts (up_ID up))"
    and p: "ParsePrefix (t_V6CIDR t) = Some p" "Contains d (pAddr p)" "Contains (Masked p) a"
    by (auto simp: proxied_def)
  have "up \<in> set ups" using up by (simp add: contributing_def)
  have wfd: "wf6 d" using wf6_delegated d by blast
  then have "Is6 (pAddr p)" using p(2) by (elim wf6E) (cases "pAddr p"; simp add: Contains.simps)
  then have "wf6 p" using p(1) wf6_ParsePrefix by blast
  moreover have "pBits d \<le> pBits p" using assms(1) \<open>up \<in> set ups\<close> t d p by blast
  then have "len6 d \<le> len6 p" by (simp add: len6_def)
  ultimately have "Contains d a" using Contains_trans wfd p by blast
  with nolocal up d show False by blast
qed

text \<open>
  Proxy sets are canonical: after sorting, the comparison the reconciler uses holds exactly when
  the two sets have the same prefixes and the same local addresses with the same multiplicity.
\<close>

theorem proxy_set_canonical:
  "ndp_equal (ndp_sort s) (ndp_sort t) \<longleftrightarrow>
     mset (Delegated s) = mset (Delegated t) \<and> mset (Local s) = mset (Local t)"
  by (simp add: ndp_equal_iff ndp_sort_eq_iff)

theorem proxy_spares_local_witness:
  "\<not> answers_on (ndpProxySetsFor
      [zeroUpstream\<lparr>up_ID := 1, up_Mode := UpstreamOnLink, up_V6CIDR := ''2001:db8::/48'', up_EgressInterface := ''eth0''\<rparr>]
      [1 \<mapsto> [zeroTunnel\<lparr>t_Enabled := True, t_V6CIDR := ''2001:db8::/64''\<rparr>]]
      [''eth0'' \<mapsto> [Addr6 0x20010db8000000000000000000000001 []]])
     ''eth0'' (Addr6 0x20010db8000000000000000000000001 [])"
proof -
  have p: "ParsePrefix ''2001:db8::/48'' = Some (Prefix (Addr6 0x20010db8000000000000000000000000 []) 48)"
    "ParsePrefix ''2001:db8::/64'' = Some (Prefix (Addr6 0x20010db8000000000000000000000000 []) 64)"
    by code_simp+
  show ?thesis
    by (rule proxy_spares_local)
      (auto simp: p delegatedPrefix_def slice_at_def zeroUpstream_def zeroTunnel_def wf6_Prefix)
qed

end
