(* ===== verification/Upstream_Config.thy ===== *)
theory Upstream_Config
  imports Ndp
begin

section \<open>Configuration rules (the validation half of internal/broker/service.go)\<close>

text \<open>
  The pure functions of \<open>service.go\<close>: which settings, provider connections, routing groups and
  quotas are accepted, how a connection is normalised before it is stored, and the WireGuard
  configuration handed to a client. A function that returns only an error is a function into
  \<open>error option\<close>, \<open>None\<close> for nil. The case tables of \<open>strings.EqualFold\<close> are the parameter \<open>uni\<close>.
\<close>

definition newError :: "string \<Rightarrow> error" where
  "newError m = Errorf m []"

subsection \<open>Global settings\<close>

definition validInterTunnelPolicy :: "string \<Rightarrow> bool" where
  "validInterTunnelPolicy policy \<longleftrightarrow>
     policy = InterTunnelIsolated \<or> policy = InterTunnelGroups \<or> policy = InterTunnelAny"

definition validateSettings :: "settings \<Rightarrow> error option" where
  "validateSettings v =
     (if V4NAT v \<and> V4Warp v
      then Some (newError ''native IPv4 NAT and Cloudflare WARP IPv4 egress cannot be enabled together'')
      else if (V4NAT v \<or> V4Warp v) \<and>
              (case ParsePrefix (V4Pool v) of None \<Rightarrow> True | Some pool \<Rightarrow> \<not> Is4 (pAddr pool))
      then Some (newError ''v4 pool must be an IPv4 CIDR'')
      else if \<not> validInterTunnelPolicy (InterTunnelPolicy v)
      then Some (newError ''invalid inter-tunnel routing policy'')
      else None)"

subsection \<open>Transport addresses\<close>

text \<open>\<open>fmt.Sprintf(defaultTransportPrefix, index)\<close>, with \<open>%x\<close> the hexadecimal index.\<close>

definition defaultTransportPrefix :: "nat \<Rightarrow> string" where
  "defaultTransportPrefix index = ''fd00:6b72:6f6b:'' @ hex index @ ''::1/64''"

fun firstFreeTransport :: "(string \<Rightarrow> bool) \<Rightarrow> nat list \<Rightarrow> string" where
  "firstFreeTransport taken [] = defaultTransportPrefix 0"
| "firstFreeTransport taken (index # rest) =
     (let candidate = defaultTransportPrefix index in
      case ParsePrefix candidate of
        None \<Rightarrow> firstFreeTransport taken rest
      | Some prefix \<Rightarrow>
          if \<not> taken (prefixString (Masked prefix)) then candidate
          else firstFreeTransport taken rest)"

definition takenTransports :: "upstream list \<Rightarrow> string list" where
  "takenTransports others =
     map (\<lambda>transport. prefixString (Masked transport)) (List.map_filter transportPrefix others)"

definition defaultTransportAddress :: "upstream list \<Rightarrow> string" where
  "defaultTransportAddress others =
     firstFreeTransport (\<lambda>s. s \<in> set (takenTransports others)) [0..<0x10000]"

definition othersExcept :: "upstream list \<Rightarrow> int \<Rightarrow> upstream list" where
  "othersExcept upstreams ident = filter (\<lambda>up. up_ID up \<noteq> ident) upstreams"

subsection \<open>The edited fields\<close>

record UpstreamInput =
  in_ID :: int
  in_Name :: string
  in_V6CIDR :: string
  in_Mode :: string
  in_PublicV4 :: string
  in_EgressInterface :: string
  in_InterfaceName :: string
  in_EndpointHost :: string
  in_EndpointPort :: int
  in_ServerAddress :: string
  in_TransportAddress :: string
  in_MTU :: int
  in_Keepalive :: int
  in_MinPrefix :: int
  in_MaxPrefix :: int
  in_DefaultPrefix :: int
  in_V4Mode :: string

definition apply_input :: "UpstreamInput \<Rightarrow> upstream \<Rightarrow> upstream" where
  "apply_input inp existing = existing
     \<lparr>up_Name := TrimSpace (in_Name inp), up_V6CIDR := TrimSpace (in_V6CIDR inp),
      up_Mode := TrimSpace (in_Mode inp), up_PublicV4 := TrimSpace (in_PublicV4 inp),
      up_EgressInterface := TrimSpace (in_EgressInterface inp),
      up_InterfaceName := TrimSpace (in_InterfaceName inp),
      up_EndpointHost := TrimSpace (in_EndpointHost inp), up_EndpointPort := in_EndpointPort inp,
      up_ServerAddress := TrimSpace (in_ServerAddress inp),
      up_TransportAddress := TrimSpace (in_TransportAddress inp),
      up_MTU := in_MTU inp, up_Keepalive := in_Keepalive inp, up_MinPrefix := in_MinPrefix inp,
      up_MaxPrefix := in_MaxPrefix inp, up_DefaultPrefix := in_DefaultPrefix inp,
      up_V4Mode := in_V4Mode inp\<rparr>"

subsection \<open>Normalisation\<close>

text \<open>The defaults of zero fields.\<close>

definition fillDefaults :: "upstream \<Rightarrow> upstream" where
  "fillDefaults v = v
     \<lparr>up_MTU := (if up_MTU v = 0 then 1420 else up_MTU v),
      up_Keepalive := (if up_Keepalive v = 0 then 25 else up_Keepalive v),
      up_EndpointPort := (if up_EndpointPort v = 0 then 51820 else up_EndpointPort v)\<rparr>"

text \<open>The prefix limits: one size for a /64 or longer, clamped into range otherwise.\<close>

definition clampLimits :: "int \<Rightarrow> upstream \<Rightarrow> upstream" where
  "clampLimits bits v =
     (if 64 \<le> bits then v\<lparr>up_MinPrefix := bits, up_MaxPrefix := bits, up_DefaultPrefix := bits\<rparr>
      else let minp = min (max (up_MinPrefix v) bits) 128;
               maxp = min (max (up_MaxPrefix v) minp) 128;
               defp = min (max (up_DefaultPrefix v) minp) maxp
           in v\<lparr>up_MinPrefix := minp, up_MaxPrefix := maxp, up_DefaultPrefix := defp\<rparr>)"

definition normalizeUpstream :: "upstream \<Rightarrow> upstream list \<Rightarrow> upstream result" where
  "normalizeUpstream v others =
     (let v = fillDefaults v in
      if \<not> validTunnelV4Mode (up_V4Mode v) then Err ''invalid IPv4 egress mode for this upstream''
      else case ParsePrefix (up_V6CIDR v) of
        None \<Rightarrow> Inr v
      | Some p \<Rightarrow>
          if \<not> Is6 (pAddr p) then Inr v
          else
            let upstream = Masked p;
                v = v\<lparr>up_V6CIDR := prefixString upstream\<rparr>;
                v = (if \<not> validUpstreamMode (up_Mode v) then v\<lparr>up_Mode := UpstreamRouted\<rparr> else v);
                v = clampLimits (pBits upstream) v;
                v = (if up_Mode v = UpstreamOnLink \<and> up_TransportAddress v = []
                     then v\<lparr>up_TransportAddress := defaultTransportAddress (othersExcept others (up_ID v))\<rparr>
                     else v)
            in if up_TransportAddress v \<noteq> [] then
                 (case ParsePrefix (up_TransportAddress v) of
                    None \<Rightarrow> Err ''WireGuard transport address must be an IPv6 CIDR''
                  | Some transport \<Rightarrow> Inr (v\<lparr>up_TransportAddress := prefixString transport\<rparr>))
               else Inr v)"

subsection \<open>Validation\<close>

definition hasControl :: "string \<Rightarrow> bool" where
  "hasControl s = list_ex IsControl (runes s)"

definition limitsOK :: "upstream \<Rightarrow> int \<Rightarrow> bool" where
  "limitsOK v bits \<longleftrightarrow> \<not> (up_MinPrefix v < bits \<or> up_MaxPrefix v < up_MinPrefix v \<or> 128 < up_MaxPrefix v \<or>
     up_DefaultPrefix v < up_MinPrefix v \<or> up_MaxPrefix v < up_DefaultPrefix v)"

text \<open>The checks that concern the addresses, given the parsed delegation \<open>p\<close>.\<close>

definition validateAddressing :: "upstream \<Rightarrow> prefix \<Rightarrow> error option" where
  "validateAddressing v p =
     (if up_TransportAddress v \<noteq> [] \<and>
         (case ParsePrefix (up_TransportAddress v) of None \<Rightarrow> True | Some t \<Rightarrow> \<not> Is6 (pAddr t))
      then Some (newError ''WireGuard transport address must be an IPv6 CIDR'')
      else if up_TransportAddress v \<noteq> [] \<and>
         (case ParsePrefix (up_TransportAddress v) of None \<Rightarrow> False | Some t \<Rightarrow> Contains p (pAddr t))
      then Some (newError ''WireGuard transport address must be outside the delegated prefix; use a ULA such as fd00:0:0:1::1/64'')
      else if upstreamMode v = UpstreamOnLink \<and> up_ServerAddress v \<noteq> []
      then Some (newError ''on-link delegation hands the entire prefix downstream, so it cannot also reserve a server address: clear the server address field'')
      else if upstreamMode v = UpstreamOnLink \<and> up_TransportAddress v = []
      then Some (newError ''on-link delegation requires a WireGuard transport address outside the delegated prefix, such as fd00:0:0:1::1/64'')
      else None)"

definition validateLink :: "upstream \<Rightarrow> prefix \<Rightarrow> error option" where
  "validateLink v p =
     (if up_EndpointHost v = [] then Some (newError ''endpoint hostname or address is required'')
      else if up_EgressInterface v = [] then Some (newError ''upstream egress interface is required'')
      else if up_InterfaceName v = [] then Some (newError ''WireGuard interface name is required'')
      else if up_InterfaceName v = warpInterfaceName
      then Some (newError ''WireGuard interface name is reserved for Cloudflare WARP'')
      else if 15 < length (up_InterfaceName v)
      then Some (newError ''WireGuard interface name must be at most 15 characters'')
      else if up_InterfaceName v = up_EgressInterface v
      then Some (newError ''the WireGuard interface cannot be the upstream egress interface'')
      else if up_EndpointPort v < 1 \<or> 65535 < up_EndpointPort v
      then Some (newError ''invalid endpoint port'')
      else if up_ServerAddress v \<noteq> [] \<and>
         (case ParsePrefix (up_ServerAddress v) of None \<Rightarrow> True | Some s \<Rightarrow> \<not> Contains p (pAddr s))
      then Some (newError ''server address must be a CIDR within the upstream prefix'')
      else if up_MTU v < 1280 \<or> 9000 < up_MTU v
      then Some (newError ''MTU must be between 1280 and 9000'')
      else if up_Keepalive v < 0 \<or> 3600 < up_Keepalive v
      then Some (newError ''keepalive must be between 0 and 3600 seconds'')
      else None)"

definition validateUpstream :: "upstream \<Rightarrow> error option" where
  "validateUpstream v =
     (if up_Name v = [] then Some (newError ''upstream name is required'')
      else if 64 < RuneCountInString (up_Name v)
      then Some (newError ''upstream name must be at most 64 characters'')
      else if hasControl (up_Name v)
      then Some (newError ''upstream name cannot contain control characters'')
      else case ParsePrefix (up_V6CIDR v) of
        None \<Rightarrow> Some (newError ''upstream IPv6 must be an IPv6 CIDR'')
      | Some p \<Rightarrow>
          if \<not> Is6 (pAddr p) then Some (newError ''upstream IPv6 must be an IPv6 CIDR'')
          else if \<not> validUpstreamMode (upstreamMode v)
          then Some (newError ''invalid upstream delegation mode'')
          else if \<not> limitsOK v (pBits p)
          then Some (newError ''prefix limits must satisfy upstream <= min <= default <= max <= 128'')
          else (case validateAddressing v p of
              Some e \<Rightarrow> Some e
            | None \<Rightarrow> validateLink v p))"

definition JoinHostPort :: "string \<Rightarrow> string \<Rightarrow> string" where
  "JoinHostPort host port =
     (if CHR '':'' \<in> set host then ''['' @ host @ '']:'' @ port else host @ '':'' @ port)"

text \<open>The conflict of a candidate with one other connection.\<close>

definition upstreamConflict :: "unicode \<Rightarrow> upstream \<Rightarrow> prefix \<Rightarrow> upstream \<Rightarrow> error option" where
  "upstreamConflict uni candidate prefix other =
     (if EqualFold uni (up_Name other) (up_Name candidate)
      then Some (newError ''another upstream already uses that name'')
      else if up_InterfaceName other = up_InterfaceName candidate
      then Some (newError ''another upstream already uses that WireGuard interface name'')
      else if up_InterfaceName other = up_EgressInterface candidate
      then Some (Errorf ''egress interface %s belongs to upstream %q; chain upstreams through a separate interface instead''
             [up_EgressInterface candidate, up_Name other])
      else if up_EgressInterface other = up_InterfaceName candidate
      then Some (Errorf ''WireGuard interface %s is the egress interface of upstream %q''
             [up_InterfaceName candidate, up_Name other])
      else if (case delegatedPrefix other of None \<Rightarrow> False | Some q \<Rightarrow> overlaps prefix q)
      then Some (Errorf ''delegated prefix %s overlaps upstream %q (%s)''
             [prefixString prefix, up_Name other,
              (case delegatedPrefix other of None \<Rightarrow> [] | Some q \<Rightarrow> prefixString q)])
      else if (case (transportPrefix candidate, transportPrefix other) of
                 (Some t, Some q) \<Rightarrow> overlaps (Masked t) (Masked q) | _ \<Rightarrow> False)
      then Some (Errorf ''WireGuard transport range %s overlaps upstream %q (%s)''
             [(case transportPrefix candidate of None \<Rightarrow> [] | Some t \<Rightarrow> prefixString t), up_Name other,
              (case transportPrefix other of None \<Rightarrow> [] | Some q \<Rightarrow> prefixString q)])
      else if up_EndpointPort other = up_EndpointPort candidate \<and>
              EqualFold uni (up_EndpointHost other) (up_EndpointHost candidate)
      then Some (Errorf ''upstream %q already listens on %s''
             [up_Name other, JoinHostPort (up_EndpointHost candidate) (Itoa (up_EndpointPort candidate))])
      else None)"

fun checkOthers :: "(upstream \<Rightarrow> error option) \<Rightarrow> int \<Rightarrow> upstream list \<Rightarrow> error option" where
  "checkOthers conflict ident [] = None"
| "checkOthers conflict ident (other # existing) =
     (if up_ID other = ident then checkOthers conflict ident existing
      else case conflict other of Some e \<Rightarrow> Some e | None \<Rightarrow> checkOthers conflict ident existing)"

definition validateUpstreamUniqueness :: "unicode \<Rightarrow> upstream \<Rightarrow> upstream list \<Rightarrow> error option" where
  "validateUpstreamUniqueness uni candidate existing =
     (case delegatedPrefix candidate of
        None \<Rightarrow> Some (newError ''upstream IPv6 must be an IPv6 CIDR'')
      | Some prefix \<Rightarrow> checkOthers (upstreamConflict uni candidate prefix) (up_ID candidate) existing)"

fun checkAllocations :: "prefix \<Rightarrow> prefix option \<Rightarrow> tunnel list \<Rightarrow> error option" where
  "checkAllocations prefix reserved [] = None"
| "checkAllocations prefix reserved (tunnel # tunnels) =
     (case ParsePrefix (t_V6CIDR tunnel) of
        None \<Rightarrow> checkAllocations prefix reserved tunnels
      | Some a \<Rightarrow>
          let allocation = Masked a in
          if \<not> Contains prefix (pAddr allocation) \<or> pBits allocation < pBits prefix
          then Some (Errorf ''tunnel %q is allocated %s, which is outside the new delegated prefix %s''
                 [t_Label tunnel, prefixString allocation, prefixString prefix])
          else if (case reserved of None \<Rightarrow> False | Some r \<Rightarrow> overlaps r allocation)
          then Some (Errorf ''the server address reserves %s, which tunnel %q already holds''
                 [(case reserved of None \<Rightarrow> [] | Some r \<Rightarrow> prefixString r), t_Label tunnel])
          else checkAllocations prefix reserved tunnels)"

definition validateUpstreamAgainstTunnels :: "upstream \<Rightarrow> tunnel list \<Rightarrow> error option" where
  "validateUpstreamAgainstTunnels up tunnels =
     (case delegatedPrefix up of
        None \<Rightarrow> Some (newError ''upstream IPv6 must be an IPv6 CIDR'')
      | Some prefix \<Rightarrow> checkAllocations prefix (serverReservation up) tunnels)"

subsection \<open>Routing groups and quotas\<close>

definition validateRoutingGroup :: "string \<Rightarrow> error option" where
  "validateRoutingGroup grp =
     (if 64 < RuneCountInString grp then Some (newError ''routing group must be at most 64 characters'')
      else if hasControl grp then Some (newError ''routing group cannot contain control characters'')
      else None)"

fun collectGroups :: "string list \<Rightarrow> string set \<Rightarrow> string set result" where
  "collectGroups [] unique = Inr unique"
| "collectGroups (g # names) unique =
     (let grp = TrimSpace g in
      if grp = [] then collectGroups names unique
      else case validateRoutingGroup grp of
        Some err \<Rightarrow> Inl err
      | None \<Rightarrow> collectGroups names (insert grp unique))"

definition normalizeRoutingGroups :: "string list \<Rightarrow> string list result" where
  "normalizeRoutingGroups names =
     (case collectGroups names {} of Inl e \<Rightarrow> Inl e | Inr unique \<Rightarrow> Inr (sorted_list_of_set unique))"

definition validateQuota :: "int \<Rightarrow> error option" where
  "validateQuota quotaGiB =
     (if quotaGiB < 1 \<or> 2 ^ 33 - 1 < quotaGiB
      then Some (newError ''monthly quota must be between 1 and 8589934591 GiB'') else None)"

subsection \<open>The client's configuration\<close>

definition firstUsable :: "prefix \<Rightarrow> addr" where
  "firstUsable p =
     (if pBits p = BitLen (pAddr p) then pAddr (Masked p) else Next (pAddr (Masked p)))"

definition chooseMTU :: "tunnel \<Rightarrow> upstream \<Rightarrow> int" where
  "chooseMTU t up = (if 0 < t_MTUOverride t then t_MTUOverride t else up_MTU up)"

text \<open>
  \<open>publicKey\<close> stands for \<open>wgtypes.ParseKey\<close> followed by \<open>PublicKey().String()\<close>, \<open>None\<close> for a
  private key that does not parse.
\<close>

definition clientAddress :: "settings \<Rightarrow> upstream \<Rightarrow> tunnel \<Rightarrow> prefix \<Rightarrow> string" where
  "clientAddress cfg up t delegated =
     (case clientTransportAddress up t of
        None \<Rightarrow> addrString (firstUsable delegated) @ ''/'' @ Itoa (pBits delegated)
      | Some client \<Rightarrow>
          addrString client @ ''/'' @
          Itoa (case transportPrefix up of None \<Rightarrow> -1 | Some transport \<Rightarrow> pBits transport)) @
     (if tunnelIPv4Enabled cfg up t then '', '' @ t_V4Address t @ ''/32'' else [])"

definition clientNotes :: "upstream \<Rightarrow> tunnel \<Rightarrow> prefix \<Rightarrow> string" where
  "clientNotes up t delegated =
     (case clientTransportAddress up t of
        None \<Rightarrow> []
      | Some client \<Rightarrow>
          ''# Routed to this peer: '' @ prefixString (Masked delegated) @ nl @
          ''# Put that prefix on the LAN and advertise it there (OpenWrt: RA server, DHCPv6 server, NDP disabled).'' @ nl @
          ''# Do not add it to this interface: the LAN needs the whole /64 for SLAAC.'' @ nl)"

definition ClientConfig :: "(string \<Rightarrow> string option) \<Rightarrow> tunnel \<Rightarrow> upstream \<Rightarrow> settings \<Rightarrow> string" where
  "ClientConfig publicKey t up cfg =
     (let priv = (if t_PrivateKey t = [] then ''<client-private-key>'' else t_PrivateKey t);
          dns = (if t_DNSOverride t = [] then DefaultDNS cfg else t_DNSOverride t)
      in case ParsePrefix (t_V6CIDR t) of
        None \<Rightarrow> []
      | Some delegated \<Rightarrow>
          let allowed = (if tunnelIPv4Enabled cfg up t then ''0.0.0.0/0, ::/0'' else ''::/0'');
              pub = (case publicKey (up_ServerPrivateKey up) of None \<Rightarrow> [] | Some k \<Rightarrow> k);
              endpoint = JoinHostPort (up_EndpointHost up) (Itoa (up_EndpointPort up))
          in clientNotes up t delegated @ ''[Interface]'' @ nl @ ''PrivateKey = '' @ priv @ nl @
             ''Address = '' @ clientAddress cfg up t delegated @ nl @ ''DNS = '' @ dns @ nl @
             ''MTU = '' @ Itoa (chooseMTU t up) @ nl @ nl @ ''[Peer]'' @ nl @ ''PublicKey = '' @ pub @ nl @
             ''PresharedKey = '' @ t_PresharedKey t @ nl @ ''Endpoint = '' @ endpoint @ nl @
             ''AllowedIPs = '' @ allowed @ nl @ ''PersistentKeepalive = '' @ Itoa (up_Keepalive up) @ nl)"

subsection \<open>Facts about client addresses\<close>

unbundle bit_operations_syntax

text \<open>The value of a byte sequence, least significant byte first.\<close>

fun le_value :: "8 word list \<Rightarrow> nat" where
  "le_value [] = 0"
| "le_value (v # vs) = unat v + 256 * le_value vs"

lemma SetBytes_rev: "SetBytes (rev vs) = le_value vs"
  by (induction vs) (simp_all add: SetBytes_def)

lemma offset_step:
  fixes v :: "8 word" and c :: "64 word"
  defines "s \<equiv> ucast v + (c AND 0xff)"
  shows "unat s = unat v + unat c mod 256"
    and "unat (drop_bit 8 c + drop_bit 8 s) = unat c div 256 + unat s div 256"
    and "unat (ucast s :: 8 word) = unat s mod 256"
proof -
  have v: "unat v < 256" and c: "unat c < 2 ^ 64" using unsigned_less [of v] unsigned_less [of c] by simp_all
  have uv: "unat (ucast v :: 64 word) = unat v"
    using v by (simp add: unsigned_ucast_eq take_bit_nat_eq_self)
  have "c AND 0xff = take_bit 8 c" by (simp add: take_bit_eq_mask mask_eq_exp_minus_1)
  then have uc: "unat (c AND 0xff) = unat c mod 256"
    by (simp only: unsigned_take_bit_eq) (simp add: take_bit_eq_mod)
  have "unat (ucast v :: 64 word) + unat (c AND 0xff) < 2 ^ 64"
    unfolding uv uc using v by (simp add: order_less_trans [of _ "256 + 256"])
  then show s: "unat s = unat v + unat c mod 256"
    unfolding s_def using uv uc by (simp add: unat_add_lem [THEN iffD1])
  have d: "unat (drop_bit 8 x) = unat x div 256" for x :: "64 word"
    by (simp only: unat_drop_bit_eq) (simp add: drop_bit_eq_div)
  have "unat s < 512" using s v by (simp add: order_less_trans [of _ "256 + 256"])
  then have "unat c div 256 + unat s div 256 < 2 ^ 64"
    using c by (simp add: div_less_iff_less_mult)
  then show "unat (drop_bit 8 c + drop_bit 8 s) = unat c div 256 + unat s div 256"
    using d [of c] d [of s] by (simp add: unat_add_lem [THEN iffD1])
  show "unat (ucast s :: 8 word) = unat s mod 256"
    by (simp add: unsigned_ucast_eq take_bit_eq_mod)
qed

lemma le_value_offset:
  "le_value (offset_bytes vs c) mod 256 ^ length vs = (le_value vs + unat c) mod 256 ^ length vs"
proof (induction vs c rule: offset_bytes.induct)
  case (2 v vs c)
  show ?case
  proof (cases "0 < c")
    case True
    define s :: "64 word" where "s = ucast v + (c AND 0xff)"
    define c' where "c' = drop_bit 8 c + drop_bit 8 s"
    note step = offset_step [where v = v and c = c, folded s_def, folded c'_def]
    have "le_value (offset_bytes (v # vs) c) = unat s mod 256 + 256 * le_value (offset_bytes vs c')"
      using True step(3) by (simp add: Let_def s_def c'_def)
    also have "\<dots> mod (256 * 256 ^ length vs) =
        (unat s mod 256 + 256 * (le_value vs + unat c')) mod (256 * 256 ^ length vs)"
    proof -
      have "(256 * le_value (offset_bytes vs c')) mod (256 * 256 ^ length vs) =
          (256 * (le_value vs + unat c')) mod (256 * 256 ^ length vs)"
        using "2.IH" [OF True s_def] by (simp only: c'_def mult_mod_right [symmetric])
      then show ?thesis by (rule mod_add_cong [OF refl])
    qed
    also have "unat s mod 256 + 256 * (le_value vs + unat c') = le_value (v # vs) + unat c"
    proof -
      have "unat s mod 256 + 256 * unat c' = unat s + 256 * (unat c div 256)"
        using step(2) by (simp add: algebra_simps)
      also have "\<dots> = unat v + unat c" using step(1) by simp
      finally show ?thesis by (simp add: algebra_simps)
    qed
    finally show ?thesis by simp
  next
    case False
    then show ?thesis by (simp add: word_gt_0)
  qed
qed simp

lemma length_offset_bytes [simp]: "length (offset_bytes vs c) = length vs"
  by (induction vs c rule: offset_bytes.induct) (auto simp: Let_def)

text \<open>The bytewise addition with carry is addition of 128-bit words.\<close>

lemma be_word_SetBytes: "be_word bs = (of_nat (SetBytes bs) :: 'a::len word)"
  by (induction bs rule: rev_induct) (simp_all add: be_word_def SetBytes_def)

lemma of_nat_mod_128: "(of_nat (k mod 256 ^ 16) :: 128 word) = of_nat k"
  by (simp add: of_nat_mod word_of_nat_eq_iff take_bit_eq_mod)

lemma offsetAddr_add: "offsetAddr (Addr6 w z) n = Addr6 (w + ucast n) []"
proof -
  let ?bs = "rev (offset_bytes (rev (bytes16 w)) n)"
  have "be_word ?bs = (of_nat (le_value (offset_bytes (rev (bytes16 w)) n)) :: 128 word)"
    by (simp add: be_word_SetBytes SetBytes_rev)
  also have "\<dots> = of_nat (le_value (offset_bytes (rev (bytes16 w)) n) mod 256 ^ 16)"
    by (rule sym, subst of_nat_mod_128) (rule refl)
  also have "\<dots> = of_nat ((le_value (rev (bytes16 w)) + unat n) mod 256 ^ 16)"
    using le_value_offset [of "rev (bytes16 w)" n] by simp
  also have "\<dots> = of_nat (le_value (rev (bytes16 w)) + unat n)"
    by (subst of_nat_mod_128) (rule refl)
  also have "le_value (rev (bytes16 w)) = unat w" using SetBytes_rev [of "rev (bytes16 w)"] by simp
  also have "of_nat (unat w + unat n) = w + ucast n" by (simp only: of_nat_add of_nat_unat ucast_id)
  finally show ?thesis by (simp add: offsetAddr_def AddrFrom16_def)
qed

lemma transportPrefix_Some: "transportPrefix up = Some p \<longleftrightarrow> ParsePrefix (up_TransportAddress up) = Some p \<and> Is6 (pAddr p)"
  by (auto simp: transportPrefix_def split: option.splits if_splits)

lemma delegatedPrefix_Some:
  "delegatedPrefix up = Some d \<longleftrightarrow> (\<exists>p. ParsePrefix (up_V6CIDR up) = Some p \<and> Is6 (pAddr p) \<and> d = Masked p)"
  by (auto simp: delegatedPrefix_def split: option.splits if_splits)

lemma clientTransportAddress_Some:
  assumes "clientTransportAddress up t = Some a"
  obtains w b x where "transportPrefix up = Some (Prefix (Addr6 w []) (int b))" and "b \<le> 128"
    and "x = clear_low (128 - b) w + ucast (word_of_int (t_ID t) + 1 :: 64 word)" and "0 < t_ID t"
    and "a = Addr6 (if x = w then x + 1 else x) []" and "Contains (Prefix (Addr6 w []) (int b)) a"
proof -
  obtain p where p: "transportPrefix up = Some p" "0 < t_ID t"
    using assms by (auto simp: clientTransportAddress_def split: option.splits if_splits)
  then have "wf6 p" using wf6_ParsePrefix by (auto simp: transportPrefix_Some)
  then obtain w b where wb: "p = Prefix (Addr6 w []) (int b)" "b \<le> 128" by (rule wf6E)
  let ?x = "clear_low (128 - b) w + ucast (word_of_int (t_ID t) + 1 :: 64 word)"
  have "a = Addr6 (if ?x = w then ?x + 1 else ?x) [] \<and> Contains p a"
    using assms p wb
    by (auto simp: clientTransportAddress_def Let_def Masked6 offsetAddr_add split: if_splits)
  with that p wb show thesis by blast
qed

lemma ucast_ID:
  assumes "0 < i" "i < 2 ^ 63"
  shows "(ucast (word_of_int i + 1 :: 64 word) :: 128 word) = of_int (i + 1)"
proof -
  have u: "uint (word_of_int i + 1 :: 64 word) = i + 1"
    using assms by (simp add: uint_word_ariths uint_word_of_int take_bit_int_eq_self_iff)
  show ?thesis by (subst ucast_eq) (simp add: u)
qed

lemma of_int_inject_128:
  fixes i j :: int
  assumes "0 \<le> i" "i < 2 ^ 64" "0 \<le> j" "j < 2 ^ 64" "(of_int i :: 128 word) = of_int j"
  shows "i = j"
proof -
  have "uint (of_int k :: 128 word) = k" if "0 \<le> k" "k < 2 ^ 64" for k
    using that by (simp add: uint_word_of_int take_bit_int_eq_self_iff)
  then show ?thesis using assms by metis
qed

subsection \<open>Facts about the rules\<close>

lemma limitsOK_clamp:
  assumes "0 \<le> bits" "bits \<le> 128"
  shows "limitsOK (clampLimits bits v) bits"
  using assms by (auto simp: limitsOK_def clampLimits_def Let_def)

lemma clampLimits_fields [simp]:
  "up_V6CIDR (clampLimits b v) = up_V6CIDR v" "up_Mode (clampLimits b v) = up_Mode v"
  "up_TransportAddress (clampLimits b v) = up_TransportAddress v" "up_ID (clampLimits b v) = up_ID v"
  "up_MTU (clampLimits b v) = up_MTU v" "up_Keepalive (clampLimits b v) = up_Keepalive v"
  "up_EndpointPort (clampLimits b v) = up_EndpointPort v" "up_V4Mode (clampLimits b v) = up_V4Mode v"
  by (simp_all add: clampLimits_def Let_def)

lemma clampLimits_id: "limitsOK v b \<Longrightarrow> b < 64 \<Longrightarrow> clampLimits b v = v"
  by (simp add: limitsOK_def clampLimits_def Let_def)

lemma clampLimits_idem [simp]:
  assumes "0 \<le> b" "b \<le> 128"
  shows "clampLimits b (clampLimits b v) = clampLimits b v"
proof (cases "64 \<le> b")
  case True
  then show ?thesis by (simp add: clampLimits_def)
next
  case False
  then show ?thesis using limitsOK_clamp [OF assms, of v] by (intro clampLimits_id) simp_all
qed

lemma clampLimits_update [simp]:
  "clampLimits b (v\<lparr>up_TransportAddress := s\<rparr>) = (clampLimits b v)\<lparr>up_TransportAddress := s\<rparr>"
  "clampLimits b (v\<lparr>up_V6CIDR := s\<rparr>) = (clampLimits b v)\<lparr>up_V6CIDR := s\<rparr>"
  "clampLimits b (v\<lparr>up_Mode := s\<rparr>) = (clampLimits b v)\<lparr>up_Mode := s\<rparr>"
  by (cases v; simp only: clampLimits_def Let_def upstream.simps if_distrib [of "up_TransportAddress_update _"]
      if_distrib [of "up_V6CIDR_update _"] if_distrib [of "up_Mode_update _"])+

lemma limitsOK_update [simp]: "limitsOK (v\<lparr>up_TransportAddress := s\<rparr>) b = limitsOK v b"
  by (simp add: limitsOK_def)

text \<open>Two connections that can coexist.\<close>

definition compatible :: "unicode \<Rightarrow> upstream \<Rightarrow> upstream \<Rightarrow> bool" where
  "compatible uni a b \<longleftrightarrow>
     \<not> EqualFold uni (up_Name a) (up_Name b) \<and> up_InterfaceName a \<noteq> up_InterfaceName b \<and>
     up_InterfaceName a \<noteq> up_EgressInterface b \<and> up_EgressInterface a \<noteq> up_InterfaceName b \<and>
     (\<forall>p q. delegatedPrefix a = Some p \<longrightarrow> delegatedPrefix b = Some q \<longrightarrow> \<not> overlaps p q) \<and>
     (\<forall>p q. transportPrefix a = Some p \<longrightarrow> transportPrefix b = Some q \<longrightarrow> \<not> overlaps (Masked p) (Masked q)) \<and>
     \<not> (up_EndpointPort a = up_EndpointPort b \<and> EqualFold uni (up_EndpointHost a) (up_EndpointHost b))"

lemma compatible_sym: "compatible uni a b \<Longrightarrow> compatible uni b a"
  unfolding compatible_def using EqualFold_sym overlaps_sym by metis

lemma upstreamConflict_None:
  "delegatedPrefix c = Some p \<Longrightarrow> upstreamConflict uni c p b = None \<longleftrightarrow> compatible uni b c"
  unfolding upstreamConflict_def compatible_def
  by (auto split: option.splits dest: overlaps_sym)

lemma checkOthers_None:
  "checkOthers f i bs = None \<longleftrightarrow> (\<forall>b\<in>set bs. up_ID b \<noteq> i \<longrightarrow> f b = None)"
  by (induction bs) (auto split: option.splits)

lemma uniqueness_None:
  "validateUpstreamUniqueness uni c existing = None \<longleftrightarrow>
     delegatedPrefix c \<noteq> None \<and> (\<forall>b\<in>set existing. up_ID b \<noteq> up_ID c \<longrightarrow> compatible uni b c)"
  by (auto simp: validateUpstreamUniqueness_def checkOthers_None upstreamConflict_None split: option.split)

lemma validateUpstream_None:
  assumes "validateUpstream v = None"
  obtains p where "ParsePrefix (up_V6CIDR v) = Some p" "wf6 p" "limitsOK v (pBits p)"
    "validateAddressing v p = None" "validateLink v p = None"
proof -
  obtain p where p: "ParsePrefix (up_V6CIDR v) = Some p" "Is6 (pAddr p)"
    using assms by (auto simp: validateUpstream_def split: if_splits option.splits)
  moreover have "limitsOK v (pBits p)" "validateAddressing v p = None" "validateLink v p = None"
    using assms p by (auto simp: validateUpstream_def split: if_splits option.splits)
  ultimately show thesis using that wf6_ParsePrefix by blast
qed

lemma checkAllocations_None:
  "checkAllocations d r ts = None \<longleftrightarrow>
     (\<forall>t\<in>set ts. \<forall>p. ParsePrefix (t_V6CIDR t) = Some p \<longrightarrow>
        Contains d (pAddr (Masked p)) \<and> pBits d \<le> pBits (Masked p) \<and>
        (\<forall>x. r = Some x \<longrightarrow> \<not> overlaps x (Masked p)))"
  by (induction ts) (auto simp: Let_def split: option.splits)

text \<open>The shape of a normalised connection whose delegation parses.\<close>

definition normal_form :: "upstream \<Rightarrow> prefix \<Rightarrow> string \<Rightarrow> upstream" where
  "normal_form v p ta =
     (clampLimits (pBits p) ((fillDefaults v)\<lparr>up_V6CIDR := prefixString (Masked p), up_Mode := upstreamMode v\<rparr>))
       \<lparr>up_TransportAddress := ta\<rparr>"

definition canonical_transport :: "string \<Rightarrow> bool" where
  "canonical_transport ta \<longleftrightarrow> ta = [] \<or> (\<exists>t. ParsePrefix ta = Some t \<and> prefixString t = ta)"

lemma canonical_prefixString: "ParsePrefix s = Some t \<Longrightarrow> canonical_transport (prefixString t) \<and> prefixString t \<noteq> []"
proof -
  assume "ParsePrefix s = Some t"
  then have v: "wf_prefix t \<and> IsValid t" by (rule wf_ParsePrefix)
  then have "ParsePrefix (prefixString t) = Some t" by (rule prefix_text.parse_print)
  then show ?thesis by (auto simp: canonical_transport_def)
qed

lemma fillDefaults_fields [simp]:
  "up_V6CIDR (fillDefaults v) = up_V6CIDR v" "up_Mode (fillDefaults v) = up_Mode v"
  "up_TransportAddress (fillDefaults v) = up_TransportAddress v" "up_V4Mode (fillDefaults v) = up_V4Mode v"
  "up_ID (fillDefaults v) = up_ID v"
  "up_MTU (fillDefaults v) \<noteq> 0" "up_Keepalive (fillDefaults v) \<noteq> 0" "up_EndpointPort (fillDefaults v) \<noteq> 0"
  by (simp_all add: fillDefaults_def)

lemma fillDefaults_id: "up_MTU v \<noteq> 0 \<Longrightarrow> up_Keepalive v \<noteq> 0 \<Longrightarrow> up_EndpointPort v \<noteq> 0 \<Longrightarrow> fillDefaults v = v"
  by (simp add: fillDefaults_def)

lemma mode_update:
  "(if \<not> validUpstreamMode (up_Mode v) then v\<lparr>up_Mode := UpstreamRouted\<rparr> else v) = v\<lparr>up_Mode := upstreamMode v\<rparr>"
  by (cases v) (simp add: upstreamMode_def)

lemma upstreamMode_V6CIDR [simp]: "upstreamMode (v\<lparr>up_V6CIDR := s\<rparr>) = upstreamMode v"
  by (simp add: upstreamMode_def)

lemma upstreamMode_fillDefaults [simp]: "upstreamMode (fillDefaults v) = upstreamMode v"
  by (simp add: upstreamMode_def)

lemma validUpstreamMode_upstreamMode [simp]: "validUpstreamMode (upstreamMode v)"
  by (simp add: upstreamMode_def validUpstreamMode_def)

lemma defaultTransportAddress_nonempty [simp]: "defaultTransportAddress others \<noteq> []"
proof -
  have "firstFreeTransport taken ks \<noteq> []" for taken ks
    by (induction ks) (auto simp: defaultTransportPrefix_def Let_def split: option.split)
  then show ?thesis by (simp add: defaultTransportAddress_def)
qed

definition chosen_transport :: "upstream \<Rightarrow> upstream list \<Rightarrow> string" where
  "chosen_transport v others =
     (if upstreamMode v = UpstreamOnLink \<and> up_TransportAddress v = []
      then defaultTransportAddress (othersExcept others (up_ID v)) else up_TransportAddress v)"

lemma normalize_eq:
  assumes "validTunnelV4Mode (up_V4Mode v)" and p: "ParsePrefix (up_V6CIDR v) = Some p" "Is6 (pAddr p)"
  shows "normalizeUpstream v others =
    (if chosen_transport v others \<noteq> [] then
       (case ParsePrefix (chosen_transport v others) of
          None \<Rightarrow> Err ''WireGuard transport address must be an IPv6 CIDR''
        | Some t \<Rightarrow> Inr (normal_form v p (prefixString t)))
     else Inr (normal_form v p []))"
proof -
  have "wf6 p" using wf6_ParsePrefix p by blast
  then have "pBits (Masked p) = pBits p" by simp
  with assms show ?thesis
    by (simp add: normalizeUpstream_def Let_def mode_update normal_form_def chosen_transport_def
        del: clampLimits_update split: option.split)
qed

lemma normalize_form:
  assumes "normalizeUpstream v others = Inr v'" and p: "ParsePrefix (up_V6CIDR v) = Some p" "Is6 (pAddr p)"
  obtains ta where "v' = normal_form v p ta" "canonical_transport ta"
    "upstreamMode v = UpstreamOnLink \<Longrightarrow> ta \<noteq> []" "validTunnelV4Mode (up_V4Mode v)"
proof -
  have v4: "validTunnelV4Mode (up_V4Mode v)"
    using assms(1) by (auto simp: normalizeUpstream_def Let_def split: if_splits)
  note eq = normalize_eq [OF v4 p, of others]
  show thesis
  proof (cases "chosen_transport v others = []")
    case True
    then show ?thesis
      using that [of "[]"] assms(1) eq v4
      by (auto simp: chosen_transport_def canonical_transport_def split: if_splits)
  next
    case False
    then obtain t where t: "ParsePrefix (chosen_transport v others) = Some t" "v' = normal_form v p (prefixString t)"
      using assms(1) eq by (auto split: option.splits)
    then show ?thesis using that canonical_prefixString v4 by blast
  qed
qed

lemma normal_form_fields [simp]:
  "up_V6CIDR (normal_form v p ta) = prefixString (Masked p)" "up_Mode (normal_form v p ta) = upstreamMode v"
  "up_TransportAddress (normal_form v p ta) = ta" "up_V4Mode (normal_form v p ta) = up_V4Mode v"
  "up_ID (normal_form v p ta) = up_ID v" "up_MTU (normal_form v p ta) \<noteq> 0"
  "up_Keepalive (normal_form v p ta) \<noteq> 0" "up_EndpointPort (normal_form v p ta) \<noteq> 0"
  by (simp_all add: normal_form_def del: clampLimits_update)

lemma normal_form_idem:
  assumes "wf6 p"
  shows "normal_form (normal_form v p ta) (Masked p) ta = normal_form v p ta"
proof -
  have b: "0 \<le> pBits p" "pBits p \<le> 128" using assms by (auto simp: wf6_def)
  define u where "u = clampLimits (pBits p) ((fillDefaults v)\<lparr>up_V6CIDR := prefixString (Masked p), up_Mode := upstreamMode v\<rparr>)"
  have n: "normal_form v p ta = u\<lparr>up_TransportAddress := ta\<rparr>" by (simp add: normal_form_def u_def del: clampLimits_update)
  have "fillDefaults (normal_form v p ta) = normal_form v p ta"
    by (rule fillDefaults_id) simp_all
  moreover have "upstreamMode (normal_form v p ta) = upstreamMode v" by (simp add: upstreamMode_def)
  moreover have "(normal_form v p ta)\<lparr>up_V6CIDR := prefixString (Masked p), up_Mode := upstreamMode v\<rparr> = normal_form v p ta"
    by (metis (no_types, lifting) normal_form_fields(1,2) upstream.surjective upstream.update_convs(3,4))
  ultimately have "normal_form (normal_form v p ta) (Masked p) ta =
      (clampLimits (pBits p) (normal_form v p ta))\<lparr>up_TransportAddress := ta\<rparr>"
    using assms by (simp only: normal_form_def [of "normal_form v p ta"] Masked_idem pBits_Masked)
  moreover have "clampLimits (pBits p) u = u" using b by (simp add: u_def del: clampLimits_update)
  ultimately show ?thesis unfolding n by simp
qed

text \<open>Connections of a list coexist when any two with different identifiers are compatible.\<close>

definition coexist :: "unicode \<Rightarrow> upstream list \<Rightarrow> bool" where
  "coexist uni ups \<longleftrightarrow> (\<forall>a\<in>set ups. \<forall>b\<in>set ups. up_ID a \<noteq> up_ID b \<longrightarrow> compatible uni a b)"

lemma coexist_replace:
  assumes "coexist uni ups" "validateUpstreamUniqueness uni c ups = None"
  shows "coexist uni (c # othersExcept ups (up_ID c))"
  using assms by (auto simp: coexist_def uniqueness_None othersExcept_def intro: compatible_sym)

lemma limitsOK_bounds: "limitsOK v b \<Longrightarrow> b \<le> up_MinPrefix v \<and> up_MinPrefix v \<le> up_DefaultPrefix v \<and>
    up_DefaultPrefix v \<le> up_MaxPrefix v \<and> up_MaxPrefix v \<le> 128"
  by (auto simp: limitsOK_def)

lemma Contains_Masked_addr:
  assumes "wf6 d" "wf6 s" "len6 d \<le> len6 s" "Contains d (pAddr s)"
  shows "Contains d (pAddr (Masked s))"
proof -
  have "agree6 (len6 d) (Masked s) s"
    using agree6_mono [of "len6 s" "Masked s" s "len6 d"] agree6_Masked assms len6_le by simp
  then show ?thesis
    using assms Contains_agree6 [of d s] Contains_agree6 [of d "Masked s"] by (simp add: agree6_def)
qed

lemma serverReservation_inside:
  assumes "validateUpstream up = None" and "serverReservation up = Some r"
  obtains d where "delegatedPrefix up = Some d" "wf6 d" "Masked d = d" "wf6 r" "Masked r = r"
    "Contains d (pAddr r)" "pBits d \<le> pBits r"
proof -
  obtain p where p: "ParsePrefix (up_V6CIDR up) = Some p" "wf6 p" "limitsOK up (pBits p)"
    using validateUpstream_None [OF assms(1)] by metis
  then have d: "delegatedPrefix up = Some (Masked p)"
    by (auto simp: delegatedPrefix_Some wf6_def)
  obtain s where s: "ParsePrefix (up_ServerAddress up) = Some s" "Contains (Masked p) (pAddr s)"
    "r = Masked (if pBits s < up_MaxPrefix up then PrefixFrom (pAddr s) (up_MaxPrefix up) else s)"
    using assms(2) d by (auto simp: serverReservation_def Let_def split: if_splits option.splits)
  have wfd: "wf6 (Masked p)" using p by simp
  have "Is6 (pAddr s)" using wfd s(2) by (elim wf6E) (cases "pAddr s"; simp add: Contains.simps)
  then have wfs: "wf6 s" using s(1) wf6_ParsePrefix by blast
  define q where "q = (if pBits s < up_MaxPrefix up then PrefixFrom (pAddr s) (up_MaxPrefix up) else s)"
  have lim: "pBits p \<le> up_MaxPrefix up" "up_MaxPrefix up \<le> 128" using limitsOK_bounds [OF p(3)] by auto
  have q: "wf6 q" "pAddr q = pAddr s" "pBits p \<le> pBits q"
    using wfs lim p(2) unfolding q_def by (elim wf6E; auto simp: PrefixFrom_def)+
  then have "len6 (Masked p) \<le> len6 q" using p(2) by (simp add: len6_def)
  then have "Contains (Masked p) (pAddr (Masked q))"
    using Contains_Masked_addr [OF wfd q(1)] q(2) s(2) by simp
  then show thesis using that [of "Masked p"] d wfd p q s(3) by (simp add: q_def)
qed

lemma collectGroups_Inr:
  "collectGroups names u = Inr v \<longleftrightarrow>
     (\<forall>g\<in>set names. TrimSpace g \<noteq> [] \<longrightarrow> validateRoutingGroup (TrimSpace g) = None) \<and>
     v = u \<union> (TrimSpace ` set names - {[]})"
  by (induction names arbitrary: u) (auto simp: Let_def split: option.splits)

subsection \<open>Properties\<close>

text \<open>
  C20. Normalising a connection whose delegation is an IPv6 prefix keeps the delegation, writes it in
  canonical masked form, and leaves prefix limits that satisfy what validation demands; a /64 or
  longer is offered as one allocation size, and an on-link connection has a transport address.
\<close>

theorem normalize_consistent:
  assumes "normalizeUpstream v others = Inr v'" and "delegatedPrefix v = Some d"
  shows "delegatedPrefix v' = Some d \<and> up_V6CIDR v' = prefixString d \<and> limitsOK v' (pBits d) \<and>
    validUpstreamMode (up_Mode v') \<and> validTunnelV4Mode (up_V4Mode v') \<and>
    (64 \<le> pBits d \<longrightarrow> up_MinPrefix v' = pBits d \<and> up_MaxPrefix v' = pBits d \<and> up_DefaultPrefix v' = pBits d) \<and>
    (up_Mode v' = UpstreamOnLink \<longrightarrow> up_TransportAddress v' \<noteq> [])"
proof -
  obtain p where p: "ParsePrefix (up_V6CIDR v) = Some p" "Is6 (pAddr p)" "d = Masked p"
    using assms(2) by (auto simp: delegatedPrefix_Some)
  have wf: "wf6 p" using wf6_ParsePrefix p by blast
  have b: "0 \<le> pBits p" "pBits p \<le> 128" using wf by (auto simp: wf6_def)
  obtain ta where v': "v' = normal_form v p ta" and ta: "upstreamMode v = UpstreamOnLink \<Longrightarrow> ta \<noteq> []"
    and v4: "validTunnelV4Mode (up_V4Mode v)"
    using normalize_form [OF assms(1) p(1,2)] by blast
  have "wf6 d" "Masked d = d" using wf p(3) by simp_all
  then have "ParsePrefix (prefixString d) = Some d" by (intro prefix_text.parse_print wf6_valid)
  then have "delegatedPrefix v' = Some d"
    using v' p(3) \<open>wf6 d\<close> \<open>Masked d = d\<close> by (auto simp: delegatedPrefix_Some wf6_def)
  moreover have "limitsOK v' (pBits d)"
    using v' p(3) wf limitsOK_clamp [OF b] by (simp add: normal_form_def del: clampLimits_update)
  moreover have "64 \<le> pBits p \<Longrightarrow> up_MinPrefix v' = pBits p \<and> up_MaxPrefix v' = pBits p \<and> up_DefaultPrefix v' = pBits p"
    by (simp add: v' normal_form_def clampLimits_def del: clampLimits_update)
  ultimately show ?thesis using v' p(3) wf v4 ta by simp
qed

text \<open>Normalisation is idempotent: saving a stored connection unchanged does not alter it.\<close>

theorem normalize_idempotent:
  assumes "normalizeUpstream v others = Inr v'"
  shows "normalizeUpstream v' others = Inr v'"
proof (cases "\<exists>p. ParsePrefix (up_V6CIDR v) = Some p \<and> Is6 (pAddr p)")
  case True
  then obtain p where p: "ParsePrefix (up_V6CIDR v) = Some p" "Is6 (pAddr p)" by blast
  have wf: "wf6 p" using wf6_ParsePrefix p by blast
  obtain ta where v': "v' = normal_form v p ta" and ta: "canonical_transport ta" "upstreamMode v = UpstreamOnLink \<Longrightarrow> ta \<noteq> []"
    and v4: "validTunnelV4Mode (up_V4Mode v)"
    using normalize_form [OF assms p] by blast
  have parse: "ParsePrefix (prefixString (Masked p)) = Some (Masked p)"
    using wf by (intro prefix_text.parse_print wf6_valid) simp
  have six: "Is6 (pAddr (Masked p))" using wf wf6_Masked [OF wf] by (auto simp: wf6_def)
  have "chosen_transport v' others = ta" using ta(2) by (simp add: chosen_transport_def v' upstreamMode_def [of "normal_form v p ta"])
  then show ?thesis
    using normalize_eq [of v' "Masked p" others] v4 six parse ta(1) normal_form_idem [OF wf, of v ta]
    by (auto simp: v' canonical_transport_def)
next
  case False
  then have "v' = fillDefaults v" "validTunnelV4Mode (up_V4Mode v)"
    using assms by (auto simp: normalizeUpstream_def Let_def split: if_splits option.splits)
  moreover have "fillDefaults (fillDefaults v) = fillDefaults v" by (rule fillDefaults_id) simp_all
  ultimately show ?thesis using False
    by (auto simp: normalizeUpstream_def Let_def split: option.splits)
qed

text \<open>
  C21. The uniqueness check keeps the connections apart: when connections coexist and a new or edited
  one passes the check, the resulting connections coexist. No two of them share a name, an
  interface or an endpoint, egress through each other's tunnel device, or overlap in delegated or
  transport space.
\<close>

theorem uniqueness_preserves_coexistence:
  assumes "coexist uni ups" and "validateUpstreamUniqueness uni c ups = None"
  shows "coexist uni (c # othersExcept ups (up_ID c)) \<and> delegatedPrefix c \<noteq> None"
  using coexist_replace [OF assms] assms(2) by (auto simp: uniqueness_None)

text \<open>
  The slice a routed connection keeps for its server address is an aligned prefix inside the
  delegation, at least as long as the delegation, so that it can be recorded as one more
  allocation.
\<close>

theorem server_reservation_allocatable:
  assumes "validateUpstream up = None" and "serverReservation up = Some r"
  shows "\<exists>d. delegatedPrefix up = Some d \<and> wf6 r \<and> Masked r = r \<and> Contains d (pAddr r) \<and> pBits d \<le> pBits r"
  using serverReservation_inside [OF assms] by metis

text \<open>
  Normalised routing groups are sorted without repetition and are exactly the trimmed names that
  are not empty, each of at most 64 characters without control characters; the request is refused
  exactly when one of them is not.
\<close>

theorem routing_groups_normalised:
  "(is_ok (normalizeRoutingGroups names) \<longleftrightarrow>
      (\<forall>g\<in>set names. TrimSpace g \<noteq> [] \<longrightarrow> validateRoutingGroup (TrimSpace g) = None)) \<and>
   (\<forall>r. normalizeRoutingGroups names = Inr r \<longrightarrow>
      sorted r \<and> distinct r \<and> set r = TrimSpace ` set names - {[]})"
proof -
  have "is_ok (normalizeRoutingGroups names) \<longleftrightarrow> (\<exists>v. collectGroups names {} = Inr v)"
    by (auto simp: normalizeRoutingGroups_def split: sum.split)
  moreover have "sorted r \<and> distinct r \<and> set r = TrimSpace ` set names - {[]}"
    if ok: "normalizeRoutingGroups names = Inr r" for r
  proof -
    obtain v where v: "collectGroups names {} = Inr v" "r = sorted_list_of_set v"
      using ok by (auto simp: normalizeRoutingGroups_def split: sum.splits)
    then have "v = TrimSpace ` set names - {[]}" using collectGroups_Inr [of names "{}"] by auto
    then show ?thesis using v(2) by simp
  qed
  ultimately show ?thesis using collectGroups_Inr [of names "{}"] by auto
qed

theorem routing_groups_normalised_witness:
  "\<exists>r. normalizeRoutingGroups ['' b '', ''a'', ''b'', '' ''] = Inr r \<and> sorted r \<and> distinct r \<and> set r = {''a'', ''b''}"
proof -
  have "TrimSpace '' b '' = ''b''" "TrimSpace ''a'' = ''a''" "TrimSpace ''b'' = ''b''" "TrimSpace '' '' = []"
    by code_simp+
  then have names: "TrimSpace ` set ['' b '', ''a'', ''b'', '' ''] - {[]} = {''a'', ''b''}" by auto
  have "is_ok (normalizeRoutingGroups ['' b '', ''a'', ''b'', '' ''])" by code_simp
  then obtain r where r: "normalizeRoutingGroups ['' b '', ''a'', ''b'', '' ''] = Inr r" by (auto simp: is_ok_iff)
  have "sorted r \<and> distinct r \<and> set r = TrimSpace ` set ['' b '', ''a'', ''b'', '' ''] - {[]}"
    using routing_groups_normalised [of "['' b '', ''a'', ''b'', '' '']", THEN conjunct2, THEN spec, THEN mp, OF r] .
  then show ?thesis using r names by metis
qed

text \<open>
  The transport address derived for a peer lies in the transport range and is not the server's;
  two peers of a connection share one only when their tunnel numbers are consecutive and the first
  had to step past the server's address.
\<close>

theorem client_transport_addresses:
  assumes "clientTransportAddress up t = Some a" and "transportPrefix up = Some transport"
    and "clientTransportAddress up t' = Some a'" and "t_ID t < t_ID t'" and "t_ID t' < 2 ^ 63"
  shows "Contains transport a \<and> a \<noteq> pAddr transport \<and>
    (a = a' \<longrightarrow> t_ID t' = t_ID t + 1 \<and>
       offsetAddr (pAddr (Masked transport)) (word_of_int (t_ID t) + 1) = pAddr transport)"
proof -
  obtain w b x where w: "transportPrefix up = Some (Prefix (Addr6 w []) (int b))" "b \<le> 128"
    and x: "x = clear_low (128 - b) w + ucast (word_of_int (t_ID t) + 1 :: 64 word)" "0 < t_ID t"
    and a: "a = Addr6 (if x = w then x + 1 else x) []" "Contains (Prefix (Addr6 w []) (int b)) a"
    by (rule clientTransportAddress_Some [OF assms(1)])
  obtain w' b' y where w': "transportPrefix up = Some (Prefix (Addr6 w' []) (int b'))"
    and y: "y = clear_low (128 - b') w' + ucast (word_of_int (t_ID t') + 1 :: 64 word)"
    and a': "a' = Addr6 (if y = w' then y + 1 else y) []"
    by (rule clientTransportAddress_Some [OF assms(3)])
  have same: "w' = w" "b' = b" using w(1) w' by simp_all
  have tr: "transport = Prefix (Addr6 w []) (int b)" using assms(2) w by simp
  define base where "base = clear_low (128 - b) w"
  have xi: "x = base + of_int (t_ID t + 1)" and yi: "y = base + of_int (t_ID t' + 1)"
    using x y ucast_ID assms(4,5) same by (simp_all add: base_def)
  have inj: "of_int i = (of_int j :: 128 word) \<longleftrightarrow> i = j" if "0 \<le> i" "i < 2 ^ 64" "0 \<le> j" "j < 2 ^ 64" for i j
    using of_int_inject_128 that by blast
  have "x \<noteq> y" using inj [of "t_ID t + 1" "t_ID t' + 1"] x(2) assms(4,5) xi yi by auto
  have stepped: "t_ID t' = t_ID t + 1 \<and> x = w" if "a = a'"
  proof -
    have "x = w \<and> x + 1 = y \<or> y = w \<and> x = y + 1"
      using that a(1) a' same \<open>x \<noteq> y\<close> by (auto split: if_splits)
    moreover have "x + 1 = base + of_int (t_ID t + 2)" "y + 1 = base + of_int (t_ID t' + 2)"
      using xi yi by (simp_all add: algebra_simps)
    ultimately show ?thesis
      using inj [of "t_ID t + 2" "t_ID t' + 1"] inj [of "t_ID t + 1" "t_ID t' + 2"] x(2) assms(4,5) xi yi
      by auto
  qed
  have "offsetAddr (pAddr (Masked transport)) (word_of_int (t_ID t) + 1) = Addr6 x []"
    using w(2) tr x(1) by (simp add: Masked6 offsetAddr_add)
  moreover have "a \<noteq> pAddr transport" using a(1) tr by auto
  ultimately show ?thesis using stepped a(2) tr by auto
qed

definition sample_onlink :: upstream where
  "sample_onlink = zeroUpstream\<lparr>up_ID := 1, up_Mode := UpstreamOnLink, up_TransportAddress := ''::5/64''\<rparr>"

lemma sample_transport: "transportPrefix sample_onlink = Some (Prefix (Addr6 5 []) 64)"
proof -
  have "ParsePrefix ''::5/64'' = Some (Prefix (Addr6 5 []) 64)" by code_simp
  then show ?thesis by (simp add: transportPrefix_Some sample_onlink_def)
qed

lemma sample_client:
  "clientTransportAddress sample_onlink (zeroTunnel\<lparr>t_ID := 4\<rparr>) = Some (Addr6 6 [])"
  "clientTransportAddress sample_onlink (zeroTunnel\<lparr>t_ID := 5\<rparr>) = Some (Addr6 6 [])"
proof -
  have m: "Masked (Prefix (Addr6 5 []) 64) = Prefix (Addr6 0 []) 64" by code_simp
  have c: "Contains (Prefix (Addr6 5 []) 64) (Addr6 6 [])" by code_simp
  have u: "upstreamMode sample_onlink = UpstreamOnLink"
    by (simp add: sample_onlink_def upstreamMode_def validUpstreamMode_def)
  show "clientTransportAddress sample_onlink (zeroTunnel\<lparr>t_ID := 4\<rparr>) = Some (Addr6 6 [])"
    "clientTransportAddress sample_onlink (zeroTunnel\<lparr>t_ID := 5\<rparr>) = Some (Addr6 6 [])"
    by (simp_all add: clientTransportAddress_def sample_transport u m c offsetAddr_add Let_def)
qed

theorem client_transport_addresses_witness:
  "offsetAddr (pAddr (Masked (Prefix (Addr6 5 []) 64))) (word_of_int 4 + 1) = Addr6 5 []"
  using client_transport_addresses [OF sample_client(1) sample_transport sample_client(2)] by simp

text \<open>
  The step past the server's address can collide: on a connection whose server holds \<open>::5\<close> in its
  transport range, the tunnels 4 and 5 are given the same transport address.
\<close>

theorem client_transport_collision:
  "\<exists>up t t' a. clientTransportAddress up t = Some a \<and> clientTransportAddress up t' = Some a \<and> t_ID t \<noteq> t_ID t'"
proof -
  have "t_ID (zeroTunnel\<lparr>t_ID := 4\<rparr>) \<noteq> t_ID (zeroTunnel\<lparr>t_ID := 5\<rparr>)" by simp
  then show ?thesis using sample_client by blast
qed

definition sample_routed :: upstream where
  "sample_routed = zeroUpstream
     \<lparr>up_ID := 1, up_Name := ''a'', up_V6CIDR := ''::/96'', up_Mode := UpstreamRouted, up_EgressInterface := ''eth0'',
      up_InterfaceName := ''wg0'', up_EndpointHost := ''h'', up_EndpointPort := 51820, up_ServerAddress := ''::1/128'',
      up_MTU := 1420, up_Keepalive := 25, up_MinPrefix := 96, up_MaxPrefix := 112, up_DefaultPrefix := 100\<rparr>"

definition sample_other :: upstream where
  "sample_other = sample_routed
     \<lparr>up_ID := 2, up_Name := ''b'', up_V6CIDR := ''1::/96'', up_InterfaceName := ''wg1'', up_EndpointPort := 51821,
      up_ServerAddress := []\<rparr>"

definition ascii_only :: unicode where
  "ascii_only = \<lparr>uni_fold = (\<lambda>r. r), uni_print = (\<lambda>r. True)\<rparr>"

theorem uniqueness_preserves_coexistence_witness:
  "coexist ascii_only (sample_other # othersExcept [sample_routed] (up_ID sample_other))"
proof -
  have "validateUpstreamUniqueness ascii_only sample_other [sample_routed] = None" by code_simp
  moreover have "coexist ascii_only [sample_routed]" by (simp add: coexist_def)
  ultimately show ?thesis using uniqueness_preserves_coexistence by blast
qed

theorem server_reservation_allocatable_witness:
  "\<exists>d. delegatedPrefix sample_routed = Some d \<and> Contains d (Addr6 1 [])"
proof -
  have "validateUpstream sample_routed = None" by code_simp
  moreover have "serverReservation sample_routed = Some (Prefix (Addr6 1 []) 128)" by code_simp
  ultimately show ?thesis using server_reservation_allocatable [of sample_routed "Prefix (Addr6 1 []) 128"] by auto
qed

theorem normalize_consistent_witness:
  "\<exists>v'. normalizeUpstream sample_routed [] = Inr v' \<and> up_MinPrefix v' = 96 \<and> up_MaxPrefix v' = 96"
proof -
  have d: "delegatedPrefix sample_routed = Some (Prefix (Addr6 0 []) 96)" by code_simp
  have "is_ok (normalizeUpstream sample_routed [])" by code_simp
  then obtain v' where "normalizeUpstream sample_routed [] = Inr v'" by (auto simp: is_ok_iff)
  from normalize_consistent [OF this d] this show ?thesis by simp
qed

theorem normalize_idempotent_witness:
  "\<exists>v'. normalizeUpstream sample_routed [] = Inr v' \<and> normalizeUpstream v' [] = Inr v'"
proof -
  have "is_ok (normalizeUpstream sample_routed [])" by code_simp
  then obtain v' where "normalizeUpstream sample_routed [] = Inr v'" by (auto simp: is_ok_iff)
  with normalize_idempotent [OF this] show ?thesis by blast
qed

end
