(* ===== verification/Database.thy ===== *)
theory Database
  imports Effects Upstream_Config
begin

section \<open>The database under internal/broker/store.go\<close>

text \<open>
  The tables that \<open>Store.migrate\<close> creates, as a record of row lists, and the semantics of the SQL
  the store issues against them. A row of \<open>tunnels\<close> is a \<open>tunnel\<close> whose routing groups are empty, a
  row of \<open>upstreams\<close> an \<open>upstream\<close> with tunnel count 0: neither is a column. A NULL
  \<open>allocated_v4_internal\<close> is the empty string, which is how the store writes and reads it. A
  time column holds RFC 3339 text with nanoseconds, which reads back as the instant written; the
  empty text reads back as the zero time.

  The driver is not part of the repository. Every call into it may fail for reasons of its own:
  \<open>st_fault n\<close> says whether the n-th call does. \<open>st_clock n\<close> is the n-th reading of \<open>time.Now\<close>, and
  \<open>st_named\<close> picks the column the engine names when several UNIQUE constraints fail at once.
\<close>

record audit =
  a_ID :: int
  a_Admin :: string
  a_Action :: string
  a_TunnelID :: "int option"
  a_Detail :: string
  a_CreatedAt :: time

record admin_user =
  ad_ID :: int
  ad_Username :: string
  ad_Hash :: string
  ad_CreatedAt :: time

text \<open>
  The columns of the settings row in databases that predate multiple connections. The two columns
  of type \<open>string option option\<close> were added later: \<open>None\<close> when the column does not exist,
  \<open>Some None\<close> when it holds NULL.
\<close>

record legacy_settings =
  lg_V6 :: string
  lg_V4 :: string
  lg_EndpointHost :: string
  lg_EndpointPort :: int
  lg_InterfaceName :: string
  lg_ServerAddress :: string
  lg_ServerPrivateKey :: string
  lg_MTU :: int
  lg_Keepalive :: int
  lg_MinPrefix :: int
  lg_MaxPrefix :: int
  lg_DefaultPrefix :: int
  lg_UpstreamInterface :: string
  lg_Mode :: "string option option"
  lg_Transport :: "string option option"

record db =
  db_settings :: settings
  db_upstreams :: "upstream list"
  db_tunnels :: "tunnel list"
  db_groups :: "routing_group list"
  db_members :: "(int \<times> int) list"              \<comment> \<open>tunnel_routing_groups: tunnel and group\<close>
  db_audit :: "audit list"
  db_admins :: "admin_user list"
  db_warp :: "warp_account option"
  db_legacy :: "legacy_settings option"          \<comment> \<open>the old columns of settings, if present\<close>
  db_legacyGroups :: "(int \<times> string) list option" \<comment> \<open>the old column tunnels.routing_group, if present\<close>

record store =
  st_db :: db
  st_clock :: "nat \<Rightarrow> time"
  st_ticks :: nat
  st_fault :: "nat \<Rightarrow> bool"
  st_calls :: nat
  st_named :: "string list \<Rightarrow> string"

subsection \<open>Calls into the driver\<close>

definition Now :: "(store, time) action" where
  "Now s = (Inr (st_clock s (st_ticks s)), s\<lparr>st_ticks := Suc (st_ticks s)\<rparr>)"

definition sql :: "((string list \<Rightarrow> string) \<Rightarrow> db \<Rightarrow> 'a result \<times> db) \<Rightarrow> (store, 'a) action" where
  "sql f s =
     (let s' = s\<lparr>st_calls := Suc (st_calls s)\<rparr> in
      if st_fault s (st_calls s) then (Inl (LibErr ''sqlite''), s')
      else case f (st_named s) (st_db s) of (r, d) \<Rightarrow> (r, s'\<lparr>st_db := d\<rparr>))"

definition query :: "(db \<Rightarrow> 'a) \<Rightarrow> (store, 'a) action" where
  "query f = sql (\<lambda>_ d. (Inr (f d), d))"

definition ErrNoRows :: error where
  "ErrNoRows = LibErr ''sql: no rows in result set''"

definition queryRow :: "(db \<Rightarrow> 'a option) \<Rightarrow> (store, 'a) action" where
  "queryRow f = sql (\<lambda>_ d. (case f d of None \<Rightarrow> Inl ErrNoRows | Some x \<Rightarrow> Inr x, d))"

definition exec :: "(db \<Rightarrow> db) \<Rightarrow> (store, unit) action" where
  "exec f = sql (\<lambda>_ d. (Inr (), f d))"

text \<open>
  \<open>Begin\<close>, the statements, \<open>Commit\<close>, with the deferred \<open>Rollback\<close>: a failure before or at the commit
  restores the rows the transaction began with.
\<close>

definition rollback :: "db \<Rightarrow> 'a result \<times> store \<Rightarrow> 'a result \<times> store" where
  "rollback d r = (case r of (Inl e, s) \<Rightarrow> (Inl e, s\<lparr>st_db := d\<rparr>) | (Inr x, s) \<Rightarrow> (Inr x, s))"

definition tx :: "(store, 'a) action \<Rightarrow> (store, 'a) action" where
  "tx m s = rollback (st_db s)
     (andThen (query (\<lambda>_. ())) (\<lambda>_. andThen m (\<lambda>x. andThen (query (\<lambda>_. ())) (\<lambda>_. return x))) s)"

subsection \<open>Tables with an INTEGER PRIMARY KEY\<close>

definition lookupRow :: "('r \<Rightarrow> int) \<Rightarrow> int \<Rightarrow> 'r list \<Rightarrow> 'r option" where
  "lookupRow key k rows = find (\<lambda>r. key r = k) rows"

definition updateRow :: "('r \<Rightarrow> int) \<Rightarrow> int \<Rightarrow> ('r \<Rightarrow> 'r) \<Rightarrow> 'r list \<Rightarrow> 'r list" where
  "updateRow key k f rows = map (\<lambda>r. if key r = k then f r else r) rows"

definition deleteRow :: "('r \<Rightarrow> int) \<Rightarrow> int \<Rightarrow> 'r list \<Rightarrow> 'r list" where
  "deleteRow key k rows = filter (\<lambda>r. key r \<noteq> k) rows"

text \<open>A new row takes the largest identifier in use plus one, or 1 in an empty table.\<close>

definition nextRowid :: "('r \<Rightarrow> int) \<Rightarrow> 'r list \<Rightarrow> int" where
  "nextRowid key rows = (case map key rows of [] \<Rightarrow> 1 | k # ks \<Rightarrow> foldl max k ks + 1)"

definition uniqueError :: "string \<Rightarrow> error" where
  "uniqueError column = LibErr (''UNIQUE constraint failed: '' @ column)"

text \<open>
  The UNIQUE columns of a table with the value a row has there, \<open>None\<close> for NULL; \<open>clashes\<close> lists the
  columns in which some row of the table already has the value of the new row.
\<close>

type_synonym 'r uniques = "(string \<times> ('r \<Rightarrow> string option)) list"

definition clashes :: "'r uniques \<Rightarrow> 'r \<Rightarrow> 'r list \<Rightarrow> string list" where
  "clashes us r rows = map fst (filter (\<lambda>(_, f). f r \<noteq> None \<and> list_ex (\<lambda>q. f q = f r) rows) us)"

definition unique_in :: "'r uniques \<Rightarrow> 'r list \<Rightarrow> bool" where
  "unique_in us rows \<longleftrightarrow> (\<forall>(_, f) \<in> set us. distinct (filter (\<lambda>v. v \<noteq> None) (map f rows)))"

locale row_table =
  fixes key :: "'r \<Rightarrow> int" and withKey :: "int \<Rightarrow> 'r \<Rightarrow> 'r"
  assumes key_withKey [simp]: "key (withKey k r) = k"
begin

lemma foldl_max_ge: "k \<le> foldl max k ks" "x \<in> set ks \<Longrightarrow> x \<le> foldl max k ks" for k :: int
  by (induction ks arbitrary: k) (auto intro: order_trans [OF max.cobounded1] order_trans [OF max.cobounded2])

lemma nextRowid_fresh: "r \<in> set rows \<Longrightarrow> key r < nextRowid key rows"
proof -
  assume r: "r \<in> set rows"
  then obtain q qs where rows: "rows = q # qs" by (cases rows) auto
  have "key r \<le> foldl max (key q) (map key qs)"
    using r foldl_max_ge by (auto simp: rows)
  then show ?thesis by (simp add: nextRowid_def rows)
qed

lemma nextRowid_positive: "\<forall>r\<in>set rows. 0 < key r \<Longrightarrow> 0 < nextRowid key rows"
proof (cases rows)
  case (Cons q qs)
  moreover assume "\<forall>r\<in>set rows. 0 < key r"
  ultimately show ?thesis using nextRowid_fresh [of q rows] by auto
qed (simp add: nextRowid_def)

lemma lookup_Some: "lookupRow key k rows = Some r \<Longrightarrow> r \<in> set rows \<and> key r = k"
  by (auto simp: lookupRow_def find_Some_iff)

lemma lookup_None: "lookupRow key k rows = None \<longleftrightarrow> (\<forall>r\<in>set rows. key r \<noteq> k)"
  by (auto simp: lookupRow_def find_None_iff)

lemma lookup_distinct:
  "distinct (map key rows) \<Longrightarrow> lookupRow key k rows = Some r \<longleftrightarrow> r \<in> set rows \<and> key r = k"
  by (induction rows) (auto simp: lookupRow_def)

lemma lookup_insert:
  "lookupRow key k (rows @ [withKey (nextRowid key rows) r]) =
     (if k = nextRowid key rows then Some (withKey (nextRowid key rows) r) else lookupRow key k rows)"
proof -
  have "lookupRow key (nextRowid key rows) rows = None"
    using nextRowid_fresh [of _ rows] by (fastforce simp: lookup_None)
  moreover have "lookupRow key k (xs @ [x]) = (case lookupRow key k xs of None \<Rightarrow> if key x = k then Some x else None | Some y \<Rightarrow> Some y)"
    for xs x by (induction xs) (auto simp: lookupRow_def)
  ultimately show ?thesis by (auto split: option.split)
qed

lemma lookup_update:
  assumes "\<And>r. key (f r) = key r"
  shows "lookupRow key k (updateRow key k' f rows) =
    (if k = k' then map_option f (lookupRow key k rows) else lookupRow key k rows)"
  using assms by (induction rows) (auto simp: lookupRow_def updateRow_def)

lemma lookup_delete:
  "lookupRow key k (deleteRow key k' rows) = (if k = k' then None else lookupRow key k rows)"
  by (induction rows) (auto simp: lookupRow_def deleteRow_def)

lemma distinct_insert:
  "distinct (map key rows) \<Longrightarrow> distinct (map key (rows @ [withKey (nextRowid key rows) r]))"
  using nextRowid_fresh [of _ rows] by fastforce

lemma keys_update: "(\<And>r. key (f r) = key r) \<Longrightarrow> map key (updateRow key k f rows) = map key rows"
  by (simp add: updateRow_def)

lemma distinct_delete: "distinct (map key rows) \<Longrightarrow> distinct (map key (deleteRow key k rows))"
  by (simp add: deleteRow_def distinct_map_filter)

end

interpretation upstream_table: row_table up_ID "\<lambda>k u. u\<lparr>up_ID := k\<rparr>"
  by unfold_locales simp

interpretation tunnel_table: row_table t_ID "\<lambda>k t. t\<lparr>t_ID := k\<rparr>"
  by unfold_locales simp

interpretation group_table: row_table g_ID "\<lambda>k g. g\<lparr>g_ID := k\<rparr>"
  by unfold_locales simp

interpretation audit_table: row_table a_ID "\<lambda>k a. a\<lparr>a_ID := k\<rparr>"
  by unfold_locales simp

interpretation admin_table: row_table ad_ID "\<lambda>k a. a\<lparr>ad_ID := k\<rparr>"
  by unfold_locales simp

subsection \<open>UNIQUE constraints\<close>

lemma unique_in_insert:
  "unique_in us (rows @ [r]) \<longleftrightarrow> unique_in us rows \<and> clashes us r rows = []"
  by (fastforce simp: unique_in_def clashes_def filter_empty_conv list_ex_iff)

lemma unique_in_filter: "unique_in us rows \<Longrightarrow> unique_in us (filter P rows)"
proof -
  have "distinct (filter (\<lambda>v. v \<noteq> None) (map f (filter P rows)))"
    if "distinct (filter (\<lambda>v. v \<noteq> None) (map f rows))" for f :: "'a \<Rightarrow> string option"
    using that by (induction rows) (fastforce simp: image_iff)+
  then show "unique_in us rows \<Longrightarrow> unique_in us (filter P rows)" by (auto simp: unique_in_def)
qed

lemma unique_in_same:
  assumes "\<And>c f. (c, f) \<in> set us \<Longrightarrow> map f rows' = map f rows"
  shows "unique_in us rows' = unique_in us rows"
  using assms by (auto simp: unique_in_def)

lemma unique_in_perm:
  assumes "mset rows' = mset rows"
  shows "unique_in us rows' = unique_in us rows"
proof -
  have "mset (filter (\<lambda>v. v \<noteq> None) (map f rows')) = mset (filter (\<lambda>v. v \<noteq> None) (map f rows))"
    for f :: "'a \<Rightarrow> string option" using assms by (simp add: mset_filter mset_map)
  then have "distinct (filter (\<lambda>v. v \<noteq> None) (map f rows')) = distinct (filter (\<lambda>v. v \<noteq> None) (map f rows))"
    for f :: "'a \<Rightarrow> string option" by (rule mset_eq_imp_distinct_iff)
  then show ?thesis by (simp add: unique_in_def)
qed

end
