(* ===== verification/Store.thy ===== *)
theory Store
  imports Database
begin

section \<open>The store (internal/broker/store.go)\<close>

text \<open>
  One action per method of \<open>Store\<close>, named \<open>Store_<method>\<close>, in the order of the file, with its SQL
  statements written as operations on the rows. A method that fills in a field through a pointer
  argument (the identifier of a new row) returns the filled value.
\<close>

subsection \<open>Rows and constraints\<close>

definition nullable :: "string \<Rightarrow> string option" where
  "nullable s = (if s = [] then None else Some s)"

definition upstream_uniques :: "upstream uniques" where
  "upstream_uniques =
     [(''upstreams.name'', \<lambda>u. Some (up_Name u)), (''upstreams.interface_name'', \<lambda>u. Some (up_InterfaceName u))]"

definition tunnel_uniques :: "tunnel uniques" where
  "tunnel_uniques =
     [(''tunnels.public_key'', \<lambda>t. Some (t_PublicKey t)),
      (''tunnels.allocated_v6_cidr'', \<lambda>t. Some (t_V6CIDR t)),
      (''tunnels.allocated_v4_internal'', \<lambda>t. nullable (t_V4Address t))]"

definition group_uniques :: "routing_group uniques" where
  "group_uniques = [(''routing_groups.name'', \<lambda>g. Some (g_Name g))]"

definition admin_uniques :: "admin_user uniques" where
  "admin_uniques = [(''admin_users.username'', \<lambda>a. Some (ad_Username a))]"

text \<open>An INSERT or an UPDATE by identifier that checks the UNIQUE columns first.\<close>

definition addRow ::
  "'r uniques \<Rightarrow> (db \<Rightarrow> 'r list) \<Rightarrow> (('r list \<Rightarrow> 'r list) \<Rightarrow> db \<Rightarrow> db) \<Rightarrow> ('r \<Rightarrow> int) \<Rightarrow>
   (int \<Rightarrow> 'r) \<Rightarrow> (store, int) action" where
  "addRow us get upd key row = sql (\<lambda>named d.
     let k = nextRowid key (get d); r = row k; cs = clashes us r (get d)
     in if cs \<noteq> [] then (Inl (uniqueError (named cs)), d)
        else (Inr k, upd (\<lambda>rows. rows @ [r]) d))"

definition setRow ::
  "'r uniques \<Rightarrow> (db \<Rightarrow> 'r list) \<Rightarrow> (('r list \<Rightarrow> 'r list) \<Rightarrow> db \<Rightarrow> db) \<Rightarrow> ('r \<Rightarrow> int) \<Rightarrow>
   int \<Rightarrow> ('r \<Rightarrow> 'r) \<Rightarrow> (store, unit) action" where
  "setRow us get upd key k f = sql (\<lambda>named d.
     case lookupRow key k (get d) of
       None \<Rightarrow> (Inr (), d)
     | Some r \<Rightarrow>
         let cs = clashes us (f r) (deleteRow key k (get d))
         in if cs \<noteq> [] then (Inl (uniqueError (named cs)), d)
            else (Inr (), upd (updateRow key k f) d))"

definition auditRow :: "string \<Rightarrow> string \<Rightarrow> int option \<Rightarrow> string \<Rightarrow> time \<Rightarrow> (store, unit) action" where
  "auditRow admin action tunnel detail now = exec (\<lambda>d. d\<lparr>db_audit := db_audit d @
     [\<lparr>a_ID = nextRowid a_ID (db_audit d), a_Admin = admin, a_Action = action, a_TunnelID = tunnel,
       a_Detail = detail, a_CreatedAt = now\<rparr>]\<rparr>)"

subsection \<open>Substring search\<close>

fun ContainsStr :: "string \<Rightarrow> string \<Rightarrow> bool" where
  "ContainsStr [] sub = (sub = [])"
| "ContainsStr (c # s) sub = (HasPrefix (c # s) sub \<or> ContainsStr s sub)"

text \<open>The text of an error the driver made; the store inspects no other.\<close>

fun driverText :: "error \<Rightarrow> string" where
  "driverText (LibErr m) = m"
| "driverText _ = []"

definition isUniqueError :: "error \<Rightarrow> bool" where
  "isUniqueError e = ContainsStr (driverText e) ''UNIQUE constraint failed''"

subsection \<open>Settings and connections\<close>

definition Store_Settings :: "(store, settings) action" where
  "Store_Settings = query db_settings"

definition scanUpstream :: "upstream \<Rightarrow> upstream" where
  "scanUpstream u = (if \<not> validUpstreamMode (up_Mode u) then u\<lparr>up_Mode := UpstreamRouted\<rparr> else u)"

definition upstreamsTx :: "(store, upstream list) action" where
  "upstreamsTx = query (\<lambda>d. map scanUpstream (sort_key up_Name (db_upstreams d)))"

definition tunnelCountsByUpstream :: "(store, int \<Rightarrow> int) action" where
  "tunnelCountsByUpstream =
     query (\<lambda>d k. int (length (filter (\<lambda>t. t_UpstreamID t = k) (db_tunnels d))))"

definition Store_Upstreams :: "(store, upstream list) action" where
  "Store_Upstreams =
     andThen upstreamsTx (\<lambda>out.
     andThen tunnelCountsByUpstream (\<lambda>counts.
     return (map (\<lambda>u. u\<lparr>up_TunnelCount := counts (up_ID u)\<rparr>) out)))"

definition Store_Upstream :: "int \<Rightarrow> (store, upstream) action" where
  "Store_Upstream k =
     andThen (queryRow (\<lambda>d. map_option scanUpstream (lookupRow up_ID k (db_upstreams d)))) (\<lambda>u.
     andThen tunnelCountsByUpstream (\<lambda>counts.
     return (u\<lparr>up_TunnelCount := counts (up_ID u)\<rparr>)))"

definition translateUpstreamConflict :: "error \<Rightarrow> error" where
  "translateUpstreamConflict e =
     (if \<not> isUniqueError e then e
      else if ContainsStr (driverText e) ''interface_name''
      then newError ''another upstream already uses that WireGuard interface name''
      else newError ''another upstream already uses that name'')"

text \<open>A call whose error is translated before it is returned.\<close>

definition mapError :: "(error \<Rightarrow> error) \<Rightarrow> ('s, 'a) action \<Rightarrow> ('s, 'a) action" where
  "mapError f m = andThen (attempt m) (\<lambda>r. case r of Inl e \<Rightarrow> throw (f e) | Inr x \<Rightarrow> return x)"

definition Store_InsertUpstream :: "upstream \<Rightarrow> string \<Rightarrow> (store, upstream) action" where
  "Store_InsertUpstream u admin =
     andThen Now (\<lambda>now. tx (
       andThen (mapError translateUpstreamConflict
         (addRow upstream_uniques db_upstreams db_upstreams_update up_ID
            (\<lambda>k. u\<lparr>up_ID := k, up_TunnelCount := 0, up_CreatedAt := now, up_UpdatedAt := now\<rparr>))) (\<lambda>k.
       andThen (auditRow admin ''upstream-create'' None (up_Name u @ '' '' @ up_V6CIDR u) now) (\<lambda>_.
       return (u\<lparr>up_ID := k\<rparr>)))))"

text \<open>The UPDATE writes every column of the connection but its identifier and creation time.\<close>

definition Store_UpdateUpstream :: "upstream \<Rightarrow> string \<Rightarrow> (store, unit) action" where
  "Store_UpdateUpstream u admin =
     andThen Now (\<lambda>now. tx (
       andThen (mapError translateUpstreamConflict
         (setRow upstream_uniques db_upstreams db_upstreams_update up_ID (up_ID u)
            (\<lambda>old. u\<lparr>up_ID := up_ID old, up_TunnelCount := 0, up_CreatedAt := up_CreatedAt old, up_UpdatedAt := now\<rparr>))) (\<lambda>_.
       andThen (exec (db_tunnels_update (map (\<lambda>t. if t_UpstreamID t = up_ID u
            then t\<lparr>t_Status := ''pending'', t_UpdatedAt := now\<rparr> else t)))) (\<lambda>_.
       auditRow admin ''upstream-update'' None (up_Name u @ '' '' @ up_V6CIDR u) now))))"

definition Store_DeleteUpstream :: "int \<Rightarrow> string \<Rightarrow> (store, unit) action" where
  "Store_DeleteUpstream k admin =
     andThen Now (\<lambda>now. tx (
       andThen (queryRow (\<lambda>d. map_option up_Name (lookupRow up_ID k (db_upstreams d)))) (\<lambda>name.
       andThen (query (\<lambda>d. length (filter (\<lambda>t. t_UpstreamID t = k) (db_tunnels d)))) (\<lambda>tunnels.
       if 0 < tunnels
       then throw (Errorf ''upstream %q still has %d tunnel(s); delete them first'' [name, Itoa (int tunnels)])
       else andThen (exec (db_upstreams_update (deleteRow up_ID k))) (\<lambda>_.
            auditRow admin ''upstream-delete'' None name now)))))"

subsection \<open>Internal IPv4 addresses\<close>

fun remaining :: "addr \<Rightarrow> nat" where
  "remaining NoAddr = 0"
| "remaining (Addr4 w) = 2 ^ 32 - unat w"
| "remaining (Addr6 w z) = 2 ^ 128 - unat w"

lemma unat_plus_one: "w + 1 \<noteq> 0 \<Longrightarrow> unat (w + 1) = Suc (unat w)" for w :: "'a::len word"
  using unatSuc [of w] by (simp add: add.commute)

lemma not_Contains_NoAddr [simp]: "\<not> Contains pool NoAddr"
proof (cases pool)
  case (Prefix p b)
  then show ?thesis by (cases p) (simp_all add: Contains.simps)
qed

lemma remaining_Next: "Contains pool a \<Longrightarrow> remaining (Next a) < remaining a"
proof (cases a)
  case (Addr4 w)
  then show ?thesis using unsigned_less [of w, where 'a = nat] unat_plus_one [of w] by auto
next
  case (Addr6 w z)
  then show ?thesis using unsigned_less [of w, where 'a = nat] unat_plus_one [of w] by auto
qed simp

function freeFrom :: "prefix \<Rightarrow> addr set \<Rightarrow> addr \<Rightarrow> addr option" where
  "freeFrom pool used a =
     (if \<not> Contains pool a then None
      else if a \<notin> used then Some a
      else freeFrom pool used (Next a))"
  by pat_completeness auto
termination
  by (relation "measure (\<lambda>(pool, used, a). remaining a)") (auto simp: remaining_Next)

declare freeFrom.simps [simp del]

definition nextFreeIPv4 :: "prefix \<Rightarrow> addr set \<Rightarrow> addr option" where
  "nextFreeIPv4 pool used = freeFrom pool used (Next (pAddr (Masked pool)))"

definition parsedAddrs :: "string list \<Rightarrow> addr set" where
  "parsedAddrs addresses = set (List.map_filter ParseAddr addresses)"

fun assignIPv4 :: "prefix \<Rightarrow> settings \<Rightarrow> (int \<rightharpoonup> upstream) \<Rightarrow> addr set \<Rightarrow> tunnel list \<Rightarrow> (store, unit) action" where
  "assignIPv4 pool cfg byID used [] = return ()"
| "assignIPv4 pool cfg byID used (tunnel # tunnels) =
     (if (case byID (t_UpstreamID tunnel) of
            None \<Rightarrow> True
          | Some up \<Rightarrow> tunnelV4Mode cfg up (zeroTunnel\<lparr>t_V4Mode := t_V4Mode tunnel\<rparr>) = V4ModeOff) \<or>
         t_V4Address tunnel \<noteq> []
      then assignIPv4 pool cfg byID used tunnels
      else case nextFreeIPv4 (Masked pool) used of
        None \<Rightarrow> throw ErrPoolExhausted
      | Some addr \<Rightarrow>
          andThen Now (\<lambda>now.
          andThen (setRow tunnel_uniques db_tunnels db_tunnels_update t_ID (t_ID tunnel)
            (\<lambda>t. t\<lparr>t_V4Address := addrString addr, t_V4Enabled := True, t_UpdatedAt := now\<rparr>)) (\<lambda>_.
          assignIPv4 pool cfg byID (insert addr used) tunnels)))"

definition ensureIPv4AllocationsTx :: "prefix \<Rightarrow> settings \<Rightarrow> upstream list \<Rightarrow> (store, unit) action" where
  "ensureIPv4AllocationsTx pool cfg upstreams =
     andThen (query (\<lambda>d. sort_key t_ID (db_tunnels d))) (\<lambda>tunnels.
     assignIPv4 pool cfg (upstreamsByID upstreams) (parsedAddrs (map t_V4Address tunnels)) tunnels)"

definition parsePrefixErr :: "string \<Rightarrow> prefix result" where
  "parsePrefixErr s = (case ParsePrefix s of None \<Rightarrow> Inl (LibErr ''netip.ParsePrefix'') | Some p \<Rightarrow> Inr p)"

definition Store_EnsureIPv4Allocations :: "settings \<Rightarrow> (store, unit) action" where
  "Store_EnsureIPv4Allocations cfg = tx (
     andThen (liftResult (parsePrefixErr (V4Pool cfg))) (\<lambda>pool.
     andThen upstreamsTx (\<lambda>upstreams.
     ensureIPv4AllocationsTx pool cfg upstreams)))"

definition Store_SaveSettings :: "settings \<Rightarrow> (store, unit) action" where
  "Store_SaveSettings v = tx (
     andThen (if V4NAT v \<or> V4Warp v
              then andThen (liftResult (parsePrefixErr (V4Pool v))) (\<lambda>pool.
                   andThen upstreamsTx (\<lambda>upstreams.
                   ensureIPv4AllocationsTx pool v upstreams))
              else return ()) (\<lambda>_.
     exec (\<lambda>d. d\<lparr>db_settings := v\<rparr>)))"

subsection \<open>The WARP account and the audit log\<close>

definition Store_WarpAccount :: "(store, warp_account) action" where
  "Store_WarpAccount = query (\<lambda>d. case db_warp d of None \<Rightarrow> zeroWarpAccount | Some account \<Rightarrow> account)"

definition Store_SaveWarpAccount :: "warp_account \<Rightarrow> (store, unit) action" where
  "Store_SaveWarpAccount account =
     exec (\<lambda>d. d\<lparr>db_warp := Some (account\<lparr>w_LastTrace := [], w_LastTestAt := 0\<rparr>)\<rparr>)"

definition Store_SaveWarpTest :: "string \<Rightarrow> time \<Rightarrow> (store, unit) action" where
  "Store_SaveWarpTest trace tested =
     exec (\<lambda>d. d\<lparr>db_warp := map_option (\<lambda>a. a\<lparr>w_LastTrace := trace, w_LastTestAt := tested\<rparr>) (db_warp d)\<rparr>)"

definition Store_AddAudit :: "string \<Rightarrow> string \<Rightarrow> string \<Rightarrow> (store, unit) action" where
  "Store_AddAudit admin action detail = andThen Now (\<lambda>now. auditRow admin action None detail now)"

subsection \<open>Tunnels\<close>

definition scanTunnel :: "tunnel \<Rightarrow> tunnel" where
  "scanTunnel t = t\<lparr>t_RoutingGroups := []\<rparr>"

text \<open>The names of the groups a tunnel belongs to, as the join orders them.\<close>

definition groupNames :: "db \<Rightarrow> int \<Rightarrow> string list" where
  "groupNames d k = map g_Name (sort_key g_Name
     (List.map_filter (\<lambda>(t, g). if t = k then lookupRow g_ID g (db_groups d) else None) (db_members d)))"

definition loadRoutingMemberships :: "tunnel list \<Rightarrow> (store, tunnel list) action" where
  "loadRoutingMemberships tunnels =
     (if tunnels = [] then return []
      else query (\<lambda>d. map (\<lambda>t. t\<lparr>t_RoutingGroups := t_RoutingGroups t @ groupNames d (t_ID t)\<rparr>) tunnels))"

definition queryTunnels :: "(db \<Rightarrow> tunnel list) \<Rightarrow> (store, tunnel list) action" where
  "queryTunnels f = andThen (query (\<lambda>d. map scanTunnel (f d))) loadRoutingMemberships"

definition Store_Tunnels :: "(store, tunnel list) action" where
  "Store_Tunnels = queryTunnels (\<lambda>d. sort_key t_UpstreamID (sort_key t_V6CIDR (db_tunnels d)))"

definition Store_TunnelsForUpstream :: "int \<Rightarrow> (store, tunnel list) action" where
  "Store_TunnelsForUpstream k =
     queryTunnels (\<lambda>d. sort_key t_V6CIDR (filter (\<lambda>t. t_UpstreamID t = k) (db_tunnels d)))"

definition Store_Tunnel :: "int \<Rightarrow> (store, tunnel) action" where
  "Store_Tunnel k =
     andThen (queryRow (\<lambda>d. map_option scanTunnel (lookupRow t_ID k (db_tunnels d)))) (\<lambda>t.
     andThen (loadRoutingMemberships [t]) (\<lambda>ts. return (hd ts)))"

text \<open>
  The INSERT of one membership: PRIMARY KEY(tunnel_id, group_id) refuses a repeated pair, the
  foreign key a tunnel that does not exist; an unknown group name selects no row.
\<close>

definition insertMember :: "int \<Rightarrow> string \<Rightarrow> (store, unit) action" where
  "insertMember k name = sql (\<lambda>_ d.
     case find (\<lambda>g. g_Name g = name) (db_groups d) of
       None \<Rightarrow> (Inr (), d)
     | Some g \<Rightarrow>
         if (k, g_ID g) \<in> set (db_members d)
         then (Inl (uniqueError ''tunnel_routing_groups.tunnel_id, tunnel_routing_groups.group_id''), d)
         else if lookupRow t_ID k (db_tunnels d) = None
         then (Inl (LibErr ''FOREIGN KEY constraint failed''), d)
         else (Inr (), d\<lparr>db_members := db_members d @ [(k, g_ID g)]\<rparr>))"

definition requireGroup :: "string \<Rightarrow> (store, unit) action" where
  "requireGroup name =
     andThen (query (\<lambda>d. list_ex (\<lambda>g. g_Name g = name) (db_groups d))) (\<lambda>exists.
     require exists (Errorf ''routing group %q does not exist'' [name]))"

definition setTunnelRoutingGroupsTx :: "int \<Rightarrow> string list \<Rightarrow> (store, unit) action" where
  "setTunnelRoutingGroupsTx k names =
     andThen (each requireGroup names) (\<lambda>_.
     andThen (exec (db_members_update (filter (\<lambda>(t, g). t \<noteq> k)))) (\<lambda>_.
     each (insertMember k) names))"

text \<open>The row of a new tunnel: the inserted columns, and the defaults of the others.\<close>

definition newTunnelRow :: "tunnel \<Rightarrow> time \<Rightarrow> int \<Rightarrow> tunnel" where
  "newTunnelRow t now k = t
     \<lparr>t_ID := k, t_Status := ''pending'', t_LastError := [], t_QuotaUsedBytes := 0, t_QuotaDisabled := False,
      t_RoutingGroups := [], t_CreatedAt := now, t_UpdatedAt := now, t_LastHandshake := 0,
      t_RXBytes := 0, t_TXBytes := 0\<rparr>"

definition Store_InsertTunnel :: "tunnel \<Rightarrow> string \<Rightarrow> (store, tunnel) action" where
  "Store_InsertTunnel t admin =
     andThen Now (\<lambda>now. tx (
       andThen (addRow tunnel_uniques db_tunnels db_tunnels_update t_ID (newTunnelRow t now)) (\<lambda>k.
       andThen (setTunnelRoutingGroupsTx k (t_RoutingGroups t)) (\<lambda>_.
       andThen (auditRow admin ''create'' (Some k) (t_V6CIDR t) now) (\<lambda>_.
       return (t\<lparr>t_ID := k\<rparr>))))))"

definition Store_SetTunnelV4Mode :: "int \<Rightarrow> string \<Rightarrow> string \<Rightarrow> (store, unit) action" where
  "Store_SetTunnelV4Mode k mode admin =
     andThen Now (\<lambda>now. tx (
       andThen (exec (db_tunnels_update (updateRow t_ID k
         (\<lambda>t. t\<lparr>t_V4Mode := mode, t_Status := ''pending'', t_UpdatedAt := now\<rparr>)))) (\<lambda>_.
       auditRow admin ''v4-mode'' (Some k) mode now)))"

text \<open>Deleting a tunnel deletes its memberships by ON DELETE CASCADE.\<close>

definition Store_DeleteTunnel :: "int \<Rightarrow> string \<Rightarrow> (store, unit) action" where
  "Store_DeleteTunnel k admin = tx (
     andThen (exec (\<lambda>d. d\<lparr>db_tunnels := deleteRow t_ID k (db_tunnels d),
                          db_members := filter (\<lambda>(t, g). t \<noteq> k) (db_members d)\<rparr>)) (\<lambda>_.
     andThen Now (\<lambda>now. auditRow admin ''delete'' (Some k) [] now)))"

definition Store_SetEnabled :: "int \<Rightarrow> bool \<Rightarrow> string \<Rightarrow> (store, unit) action" where
  "Store_SetEnabled k on admin =
     andThen Now (\<lambda>now.
     andThen (exec (db_tunnels_update (updateRow t_ID k
       (\<lambda>t. t\<lparr>t_Enabled := on, t_QuotaDisabled := False, t_Status := ''pending'', t_UpdatedAt := now\<rparr>)))) (\<lambda>_.
     andThen Now (\<lambda>now'.
     auditRow admin ''enable'' (Some k) (if on then ''true'' else ''false'') now')))"

definition Store_SetStatus :: "int \<Rightarrow> string \<Rightarrow> string \<Rightarrow> (store, unit) action" where
  "Store_SetStatus k status msg =
     andThen Now (\<lambda>now. exec (db_tunnels_update (updateRow t_ID k
       (\<lambda>t. t\<lparr>t_Status := status, t_LastError := msg, t_UpdatedAt := now\<rparr>))))"

subsection \<open>Quotas\<close>

text \<open>Signed 64-bit arithmetic: the value modulo \<open>2 ^ 64\<close> in the range of \<open>int64\<close>.\<close>

definition wrap64 :: "int \<Rightarrow> int" where
  "wrap64 x = (x + 2 ^ 63) mod 2 ^ 64 - 2 ^ 63"

definition counterDelta :: "int \<Rightarrow> int \<Rightarrow> int" where
  "counterDelta previous current = (if previous \<le> current then wrap64 (current - previous) else current)"

text \<open>The effect of one sample of a peer's counters on the tunnel's row.\<close>

definition telemetryUsed :: "tunnel \<Rightarrow> tunnel \<Rightarrow> string \<Rightarrow> int" where
  "telemetryUsed old t period =
     wrap64 ((if t_QuotaPeriod old \<noteq> period then 0 else t_QuotaUsedBytes old) +
       wrap64 (counterDelta (t_RXBytes old) (t_RXBytes t) + counterDelta (t_TXBytes old) (t_TXBytes t)))"

definition overQuota :: "int \<Rightarrow> int \<Rightarrow> bool" where
  "overQuota quota used \<longleftrightarrow> wrap64 (quota * 2 ^ 30) \<le> used"

definition telemetryExceeded :: "tunnel \<Rightarrow> tunnel \<Rightarrow> string \<Rightarrow> bool" where
  "telemetryExceeded old t period \<longleftrightarrow> 0 < t_QuotaGiB old \<and> overQuota (t_QuotaGiB old) (telemetryUsed old t period)"

definition telemetryRow :: "tunnel \<Rightarrow> string \<Rightarrow> time \<Rightarrow> tunnel \<Rightarrow> tunnel" where
  "telemetryRow t period now old =
     (let exceeded = telemetryExceeded old t period in
      old\<lparr>t_LastHandshake := t_LastHandshake t, t_RXBytes := t_RXBytes t, t_TXBytes := t_TXBytes t,
        t_QuotaUsedBytes := telemetryUsed old t period, t_QuotaPeriod := period, t_QuotaDisabled := exceeded,
        t_Enabled := (if exceeded then False else t_Enabled old),
        t_Status := (if exceeded then ''quota-exceeded'' else t_Status old), t_UpdatedAt := now\<rparr>)"

text \<open>
  \<open>now.UTC().Format("2006-01")\<close>: the year and month of an instant in the proleptic Gregorian
  calendar. Days are counted from 1 March of year 0, so that a leap day ends its year.
\<close>

definition yearMonth :: "time \<Rightarrow> int \<times> int" where
  "yearMonth now =
     (let z = now div (86400 * 10 ^ 9) + 306;
          era = z div 146097; doe = z mod 146097;
          yoe = (doe - doe div 1460 + doe div 36524 - doe div 146096) div 365;
          doy = doe - (365 * yoe + yoe div 4 - yoe div 100);
          mp = (5 * doy + 2) div 153;
          month = (if mp < 10 then mp + 3 else mp - 9)
      in (yoe + era * 400 + (if month \<le> 2 then 1 else 0), month))"

definition zeroPad :: "nat \<Rightarrow> int \<Rightarrow> string" where
  "zeroPad width n = replicate (width - length (Itoa n)) (CHR ''0'') @ Itoa n"

definition quotaMonth :: "time \<Rightarrow> string" where
  "quotaMonth now = (case yearMonth now of (year, month) \<Rightarrow> zeroPad 4 year @ ''-'' @ zeroPad 2 month)"

definition Store_UpdateTelemetry :: "tunnel \<Rightarrow> time \<Rightarrow> (store, bool) action" where
  "Store_UpdateTelemetry t now = tx (
     andThen (queryRow (\<lambda>d. lookupRow t_ID (t_ID t) (db_tunnels d))) (\<lambda>old.
     let period = quotaMonth now;
         quotaDisabled = (if t_QuotaPeriod old \<noteq> period then False else t_QuotaDisabled old)
     in andThen (exec (db_tunnels_update (updateRow t_ID (t_ID t) (telemetryRow t period now)))) (\<lambda>_.
        return (telemetryExceeded old t period \<and> \<not> quotaDisabled))))"

definition resetRow :: "string \<Rightarrow> time \<Rightarrow> tunnel \<Rightarrow> tunnel" where
  "resetRow period now t =
     (if t_QuotaPeriod t \<noteq> period
      then t\<lparr>t_QuotaUsedBytes := 0, t_QuotaPeriod := period,
             t_Enabled := (if t_QuotaDisabled t then True else t_Enabled t),
             t_Status := (if t_QuotaDisabled t then ''pending'' else t_Status t),
             t_QuotaDisabled := False, t_UpdatedAt := now\<rparr>
      else t)"

definition Store_ResetMonthlyQuotas :: "time \<Rightarrow> (store, unit) action" where
  "Store_ResetMonthlyQuotas now =
     exec (db_tunnels_update (map (resetRow (quotaMonth now) now)))"

definition quotaRow :: "int \<Rightarrow> time \<Rightarrow> tunnel \<Rightarrow> tunnel" where
  "quotaRow quotaGiB now old =
     (let exceeded = overQuota quotaGiB (t_QuotaUsedBytes old) in
      old\<lparr>t_QuotaGiB := quotaGiB, t_QuotaDisabled := exceeded,
        t_Enabled := (if exceeded then False else if t_QuotaDisabled old then True else t_Enabled old),
        t_Status := (if exceeded then ''quota-exceeded'' else if t_QuotaDisabled old then ''pending'' else t_Status old),
        t_UpdatedAt := now\<rparr>)"

definition Store_SetTunnelQuota :: "int \<Rightarrow> int \<Rightarrow> string \<Rightarrow> (store, unit) action" where
  "Store_SetTunnelQuota k quotaGiB admin =
     andThen Now (\<lambda>now. tx (
       andThen (queryRow (\<lambda>d. lookupRow t_ID k (db_tunnels d))) (\<lambda>old.
       andThen (exec (db_tunnels_update (updateRow t_ID k (quotaRow quotaGiB now)))) (\<lambda>_.
       auditRow admin ''quota'' (Some k) (Itoa quotaGiB) now))))"

subsection \<open>Routing groups\<close>

definition Store_SetTunnelRoutingGroups :: "int \<Rightarrow> string list \<Rightarrow> string \<Rightarrow> (store, unit) action" where
  "Store_SetTunnelRoutingGroups k names admin =
     andThen Now (\<lambda>now. tx (
       andThen (setTunnelRoutingGroupsTx k names) (\<lambda>_.
       andThen (exec (db_tunnels_update (updateRow t_ID k
         (\<lambda>t. t\<lparr>t_Status := ''pending'', t_UpdatedAt := now\<rparr>)))) (\<lambda>_.
       auditRow admin ''routing-groups'' (Some k) (Join names '', '') now))))"

definition Store_RoutingGroups :: "(store, routing_group list) action" where
  "Store_RoutingGroups = query (\<lambda>d.
     map (\<lambda>g. g\<lparr>g_TunnelCount := int (length (filter (\<lambda>(t, k). k = g_ID g) (db_members d)))\<rparr>)
       (sort_key g_Name (db_groups d)))"

definition groupExists :: "error \<Rightarrow> error" where
  "groupExists e = (if isUniqueError e then newError ''routing group already exists'' else e)"

definition Store_CreateRoutingGroup :: "string \<Rightarrow> string \<Rightarrow> (store, unit) action" where
  "Store_CreateRoutingGroup name admin =
     andThen Now (\<lambda>now. tx (
       andThen (mapError groupExists (addRow group_uniques db_groups db_groups_update g_ID
         (\<lambda>k. \<lparr>g_ID = k, g_Name = name, g_TunnelCount = 0, g_CreatedAt = now\<rparr>))) (\<lambda>_.
       auditRow admin ''routing-group-create'' None name now)))"

definition Store_RenameRoutingGroup :: "int \<Rightarrow> string \<Rightarrow> string \<Rightarrow> (store, unit) action" where
  "Store_RenameRoutingGroup k name admin =
     andThen Now (\<lambda>now. tx (
       andThen (queryRow (\<lambda>d. map_option g_Name (lookupRow g_ID k (db_groups d)))) (\<lambda>oldName.
       andThen (mapError groupExists
         (setRow group_uniques db_groups db_groups_update g_ID k (\<lambda>g. g\<lparr>g_Name := name\<rparr>))) (\<lambda>_.
       auditRow admin ''routing-group-rename'' None (oldName @ '' -> '' @ name) now))))"

definition Store_DeleteRoutingGroup :: "int \<Rightarrow> string \<Rightarrow> (store, unit) action" where
  "Store_DeleteRoutingGroup k admin =
     andThen Now (\<lambda>now. tx (
       andThen (queryRow (\<lambda>d. map_option g_Name (lookupRow g_ID k (db_groups d)))) (\<lambda>name.
       andThen (exec (\<lambda>d. d\<lparr>db_groups := deleteRow g_ID k (db_groups d),
                            db_members := filter (\<lambda>(t, g). g \<noteq> k) (db_members d)\<rparr>)) (\<lambda>_.
       auditRow admin ''routing-group-delete'' None name now))))"

subsection \<open>Allocations and administrators\<close>

fun parseAll :: "string list \<Rightarrow> prefix list result" where
  "parseAll [] = Inr []"
| "parseAll (s # ss) =
     (case ParsePrefix s of
        None \<Rightarrow> Inl (LibErr ''netip.ParsePrefix'')
      | Some p \<Rightarrow> (case parseAll ss of Inl e \<Rightarrow> Inl e | Inr ps \<Rightarrow> Inr (p # ps)))"

definition Store_UsedPrefixes :: "int \<Rightarrow> (store, prefix list) action" where
  "Store_UsedPrefixes k =
     andThen (Store_TunnelsForUpstream k) (\<lambda>ts. liftResult (parseAll (map t_V6CIDR ts)))"

definition Store_NextV4 :: "prefix \<Rightarrow> (store, string) action" where
  "Store_NextV4 pool =
     andThen Store_Tunnels (\<lambda>ts.
     case nextFreeIPv4 (Masked pool) (parsedAddrs (map t_V4Address ts)) of
       Some address \<Rightarrow> return (addrString address)
     | None \<Rightarrow> throw ErrPoolExhausted)"

definition Store_AdminCount :: "(store, nat) action" where
  "Store_AdminCount = query (\<lambda>d. length (db_admins d))"

definition Store_AddAdmin :: "string \<Rightarrow> string \<Rightarrow> (store, unit) action" where
  "Store_AddAdmin user hash =
     andThen Now (\<lambda>now.
     andThen (addRow admin_uniques db_admins db_admins_update ad_ID
       (\<lambda>k. \<lparr>ad_ID = k, ad_Username = user, ad_Hash = hash, ad_CreatedAt = now\<rparr>)) (\<lambda>_. return ()))"

definition Store_AdminHash :: "string \<Rightarrow> (store, string) action" where
  "Store_AdminHash user =
     mapError (\<lambda>e. if e = ErrNoRows then newError ''invalid credentials'' else e)
       (queryRow (\<lambda>d. map_option ad_Hash (find (\<lambda>a. ad_Username a = user) (db_admins d))))"

end
