(* ===== verification/Store_Integrity.thy ===== *)
theory Store_Integrity
  imports Store
begin

section \<open>Integrity of the store\<close>

text \<open>
  The store's state machine: \<open>store_op\<close> lists the methods that change the database, \<open>run_op\<close> runs
  one, and \<open>reachable_store\<close> holds of every state a run of methods can reach from an empty database,
  whatever the driver, the clock and the outcome of each method. The invariant \<open>wf_db\<close> is kept by
  every statement, so by every method; a transaction that fails leaves no trace.
\<close>

subsection \<open>Statements, transactions and what they keep\<close>

abbreviation dbkeeps :: "(db \<Rightarrow> bool) \<Rightarrow> (store, 'a) action \<Rightarrow> bool" where
  "dbkeeps I m \<equiv> keeps (\<lambda>s. I (st_db s)) m"

lemma keeps_Now [keeps_rules, simp]: "dbkeeps I Now"
  by (simp add: keeps_def Now_def)

lemma keeps_sql: "(\<And>named d. I d \<Longrightarrow> I (snd (f named d))) \<Longrightarrow> dbkeeps I (sql f)"
  by (simp add: keeps_def sql_def Let_def split: prod.split) (metis snd_conv)

lemma keeps_query [keeps_rules, simp]: "dbkeeps I (query f)" "dbkeeps I (queryRow g)"
  by (auto simp: query_def queryRow_def intro: keeps_sql)

lemma keeps_exec [keeps_rules]: "(\<And>d. I d \<Longrightarrow> I (f d)) \<Longrightarrow> dbkeeps I (exec f)"
  by (auto simp: exec_def intro: keeps_sql)

lemma rollback_db: "st_db (snd (rollback d r)) = (if is_ok (fst r) then st_db (snd r) else d)"
  by (auto simp: rollback_def split: prod.split sum.split)

lemma rollback_fst [simp]: "fst (rollback d r) = fst r"
  by (auto simp: rollback_def split: prod.split sum.split)

lemma keeps_tx [keeps_rules]:
  assumes "dbkeeps I m"
  shows "dbkeeps I (tx m)"
proof -
  have "dbkeeps I (andThen (query (\<lambda>_. ())) (\<lambda>_. andThen m (\<lambda>x. andThen (query (\<lambda>_. ())) (\<lambda>_. return x))))"
    using assms by (auto intro!: keeps_rules)
  then show ?thesis by (auto simp: keeps_def tx_def rollback_db)
qed

text \<open>A failed transaction changes nothing; a successful one is a successful run of its body.\<close>

lemma tx_Inl: "tx m s = (Inl e, s') \<Longrightarrow> st_db s' = st_db s"
  using rollback_db [of "st_db s"] rollback_fst [of "st_db s"] unfolding tx_def
  by (metis fst_conv is_ok_simps(2) snd_conv)

lemma query_Inr: "query f s = (Inr x, s') \<Longrightarrow> x = f (st_db s) \<and> st_db s' = st_db s"
  by (auto simp: query_def sql_def Let_def split: if_splits)

lemma queryRow_Inr: "queryRow f s = (Inr x, s') \<Longrightarrow> f (st_db s) = Some x \<and> st_db s' = st_db s"
  by (auto simp: queryRow_def sql_def Let_def split: if_splits option.splits)

lemma exec_Inr: "exec f s = (Inr x, s') \<Longrightarrow> st_db s' = f (st_db s)"
  by (auto simp: exec_def sql_def Let_def split: if_splits)

lemma Now_Inr: "Now s = (Inr x, s') \<Longrightarrow> st_db s' = st_db s"
  by (auto simp: Now_def)

lemma tx_Inr:
  assumes "tx m s = (Inr x, s')"
  obtains s1 s2 where "st_db s1 = st_db s" "m s1 = (Inr x, s2)" "st_db s' = st_db s2"
proof -
  let ?b = "andThen (query (\<lambda>_. ())) (\<lambda>_. andThen m (\<lambda>x. andThen (query (\<lambda>_. ())) (\<lambda>_. return x)))"
  have "?b s = (Inr x, s')"
    using assms by (auto simp: tx_def rollback_def split: prod.splits sum.splits)
  then show thesis
    using that by (auto simp: andThen_Inr dest!: query_Inr)
qed

lemma Inr_of_mapError: "mapError f m s = (Inr x, s') \<longleftrightarrow> m s = (Inr x, s')"
  by (auto simp: mapError_def andThen_def attempt_def split: prod.splits sum.splits)

lemma keeps_mapError [keeps_rules]: "keeps I m \<Longrightarrow> keeps I (mapError f m)"
  unfolding mapError_def by (auto intro!: keeps_rules)

lemmas sql_Inr = query_Inr queryRow_Inr exec_Inr Now_Inr

subsection \<open>The integrity invariant\<close>

definition wf_table :: "('r \<Rightarrow> int) \<Rightarrow> 'r uniques \<Rightarrow> 'r list \<Rightarrow> bool" where
  "wf_table key us rows \<longleftrightarrow> distinct (map key rows) \<and> (\<forall>r\<in>set rows. 0 < key r) \<and> unique_in us rows"

definition wf_members :: "db \<Rightarrow> bool" where
  "wf_members d \<longleftrightarrow> distinct (db_members d) \<and>
     (\<forall>(t, g) \<in> set (db_members d). t \<in> t_ID ` set (db_tunnels d) \<and> g \<in> g_ID ` set (db_groups d))"

definition wf_db :: "db \<Rightarrow> bool" where
  "wf_db d \<longleftrightarrow>
     wf_table up_ID upstream_uniques (db_upstreams d) \<and> wf_table t_ID tunnel_uniques (db_tunnels d) \<and>
     wf_table g_ID group_uniques (db_groups d) \<and> wf_table ad_ID admin_uniques (db_admins d) \<and>
     wf_table a_ID [] (db_audit d) \<and> wf_members d"

context row_table
begin

lemma wf_insert:
  assumes "wf_table key us rows" "key r = nextRowid key rows" "clashes us r rows = []"
  shows "wf_table key us (rows @ [r])"
proof -
  have "distinct (map key (rows @ [r]))"
    using assms(1,2) nextRowid_fresh [of _ rows] by (fastforce simp: wf_table_def)
  then show ?thesis
    using assms nextRowid_positive by (auto simp: wf_table_def unique_in_insert)
qed

lemma wf_delete: "wf_table key us rows \<Longrightarrow> wf_table key us (deleteRow key k rows)"
  using distinct_delete unique_in_filter by (fastforce simp: wf_table_def deleteRow_def)

text \<open>An update that leaves the identifier and the UNIQUE columns of the row alone.\<close>

lemma wf_map:
  assumes "wf_table key us rows" "\<And>r. key (f r) = key r" "\<And>c g r. (c, g) \<in> set us \<Longrightarrow> g (f r) = g r"
  shows "wf_table key us (map f rows)"
proof -
  have "unique_in us (map f rows) = unique_in us rows"
    by (rule unique_in_same) (simp add: assms(3))
  then show ?thesis using assms by (auto simp: wf_table_def comp_def)
qed

lemma wf_update:
  assumes "wf_table key us rows" "\<And>r. key (f r) = key r" "\<And>c g r. (c, g) \<in> set us \<Longrightarrow> g (f r) = g r"
  shows "wf_table key us (updateRow key k f rows)"
  unfolding updateRow_def using assms by (intro wf_map) auto

text \<open>An update whose new row clashes with no other row.\<close>

lemma update_split:
  assumes "distinct (map key rows)" "lookupRow key k rows = Some r"
  shows "mset (updateRow key k f rows) = mset (deleteRow key k rows @ [f r])"
  using assms
proof (induction rows)
  case (Cons q qs)
  show ?case
  proof (cases "key q = k")
    case True
    then have "\<forall>x\<in>set qs. key x \<noteq> k" using Cons.prems(1) by (force simp: image_iff)
    then have "map (\<lambda>r. if key r = k then f r else r) qs = qs" "filter (\<lambda>r. key r \<noteq> k) qs = qs"
      by (auto intro!: map_idI filter_True)
    then show ?thesis using True Cons.prems(2) by (simp add: updateRow_def deleteRow_def lookupRow_def)
  qed (use Cons in \<open>simp add: updateRow_def deleteRow_def lookupRow_def\<close>)
qed (simp add: lookupRow_def)

lemma wf_update_unique:
  assumes "wf_table key us rows" "lookupRow key k rows = Some r" "\<And>r. key (f r) = key r"
    "clashes us (f r) (deleteRow key k rows) = []"
  shows "wf_table key us (updateRow key k f rows)"
proof -
  have "unique_in us (deleteRow key k rows @ [f r])"
    using assms(1,4) by (simp add: unique_in_insert wf_table_def unique_in_filter deleteRow_def)
  then have "unique_in us (updateRow key k f rows)"
    using unique_in_perm [OF update_split [of rows k r f]] assms(1,2) by (simp add: wf_table_def)
  then show ?thesis
    using assms(1) keys_update [of f k rows, OF assms(3)] unfolding wf_table_def
    by (metis (no_types, lifting) list.set_map imageE image_eqI)
qed

end

subsection \<open>Every statement keeps the invariant\<close>

lemma wf_members_mono:
  assumes "wf_members d" "distinct (db_members d')" "set (db_members d') \<subseteq> set (db_members d)"
    "\<And>t g. (t, g) \<in> set (db_members d') \<Longrightarrow> t \<in> t_ID ` set (db_tunnels d) \<Longrightarrow> t \<in> t_ID ` set (db_tunnels d')"
    "\<And>t g. (t, g) \<in> set (db_members d') \<Longrightarrow> g \<in> g_ID ` set (db_groups d) \<Longrightarrow> g \<in> g_ID ` set (db_groups d')"
  shows "wf_members d'"
  using assms unfolding wf_members_def by blast

lemma ids_update: "(\<And>r. key (f r) = key r) \<Longrightarrow> key ` set (updateRow key k f rows) = key ` set rows"
proof -
  assume "\<And>r. key (f r) = key r"
  then have "map key (updateRow key k f rows) = map key rows" by (simp add: updateRow_def)
  then show ?thesis by (metis list.set_map)
qed

lemma ids_map: "(\<And>r. key (f r) = key r) \<Longrightarrow> key ` set (map f rows) = key ` set rows"
  by (auto simp: image_iff)

lemma ids_delete: "key ` set (deleteRow key k rows) = key ` set rows - {k}"
  by (auto simp: deleteRow_def)

lemma keeps_add_upstream:
  "(\<And>k. up_ID (row k) = k) \<Longrightarrow> dbkeeps wf_db (addRow upstream_uniques db_upstreams db_upstreams_update up_ID row)"
  unfolding addRow_def by (rule keeps_sql) (auto simp: Let_def wf_db_def wf_members_def upstream_table.wf_insert)

lemma keeps_add_tunnel:
  "(\<And>k. t_ID (row k) = k) \<Longrightarrow> dbkeeps wf_db (addRow tunnel_uniques db_tunnels db_tunnels_update t_ID row)"
  unfolding addRow_def by (rule keeps_sql) (auto simp: Let_def wf_db_def wf_members_def tunnel_table.wf_insert)

lemma keeps_add_group:
  "(\<And>k. g_ID (row k) = k) \<Longrightarrow> dbkeeps wf_db (addRow group_uniques db_groups db_groups_update g_ID row)"
  unfolding addRow_def by (rule keeps_sql) (auto simp: Let_def wf_db_def wf_members_def group_table.wf_insert)

lemma keeps_add_admin:
  "(\<And>k. ad_ID (row k) = k) \<Longrightarrow> dbkeeps wf_db (addRow admin_uniques db_admins db_admins_update ad_ID row)"
  unfolding addRow_def by (rule keeps_sql) (auto simp: Let_def wf_db_def wf_members_def admin_table.wf_insert)

lemma keeps_audit [keeps_rules]: "dbkeeps wf_db (auditRow admin action tunnel detail now)"
  unfolding auditRow_def
  by (rule keeps_exec) (auto simp: wf_db_def wf_members_def clashes_def intro!: audit_table.wf_insert)

lemma keeps_set_upstream:
  assumes "\<And>u. up_ID (f u) = up_ID u"
  shows "dbkeeps wf_db (setRow upstream_uniques db_upstreams db_upstreams_update up_ID k f)"
  unfolding setRow_def using assms
  by (intro keeps_sql)
    (auto simp: Let_def wf_db_def wf_members_def split: option.split intro: upstream_table.wf_update_unique)

lemma keeps_set_tunnel:
  assumes "\<And>t. t_ID (f t) = t_ID t"
  shows "dbkeeps wf_db (setRow tunnel_uniques db_tunnels db_tunnels_update t_ID k f)"
  unfolding setRow_def using assms ids_update [of t_ID f]
  by (intro keeps_sql)
    (auto simp: Let_def wf_db_def wf_members_def split: option.split intro: tunnel_table.wf_update_unique)

lemma keeps_set_group:
  assumes "\<And>g. g_ID (f g) = g_ID g"
  shows "dbkeeps wf_db (setRow group_uniques db_groups db_groups_update g_ID k f)"
  unfolding setRow_def using assms ids_update [of g_ID f]
  by (intro keeps_sql)
    (auto simp: Let_def wf_db_def wf_members_def split: option.split intro: group_table.wf_update_unique)

text \<open>An update of tunnels that touches no key, no UNIQUE column.\<close>

definition benign :: "(tunnel \<Rightarrow> tunnel) \<Rightarrow> bool" where
  "benign f \<longleftrightarrow> (\<forall>t. t_ID (f t) = t_ID t \<and> t_PublicKey (f t) = t_PublicKey t \<and> t_V6CIDR (f t) = t_V6CIDR t \<and>
     t_V4Address (f t) = t_V4Address t \<and> t_UpstreamID (f t) = t_UpstreamID t)"

lemma wf_db_map_tunnels: "benign f \<Longrightarrow> wf_db d \<Longrightarrow> wf_db (db_tunnels_update (map f) d)"
proof -
  assume f: "benign f" and d: "wf_db d"
  have "wf_table t_ID tunnel_uniques (map f (db_tunnels d))"
    by (rule tunnel_table.wf_map) (use f d in \<open>auto simp: benign_def wf_db_def tunnel_uniques_def\<close>)
  then show ?thesis using f d by (auto simp: wf_db_def wf_members_def benign_def image_image)
qed

lemma benign_update: "benign f \<Longrightarrow> benign (\<lambda>t. if P t then f t else t)"
  by (simp add: benign_def)

lemma keeps_map_tunnels: "benign f \<Longrightarrow> dbkeeps wf_db (exec (db_tunnels_update (map f)))"
  by (rule keeps_exec) (rule wf_db_map_tunnels)

lemma updateRow_map: "updateRow key k f = map (\<lambda>r. if key r = k then f r else r)"
  by (simp add: updateRow_def fun_eq_iff)

lemma keeps_update_tunnel: "benign f \<Longrightarrow> dbkeeps wf_db (exec (db_tunnels_update (updateRow t_ID k f)))"
  unfolding updateRow_map by (intro keeps_map_tunnels benign_update)

lemma keeps_insertMember [keeps_rules]: "dbkeeps wf_db (insertMember k name)"
  unfolding insertMember_def
proof (rule keeps_sql)
  fix named :: "string list \<Rightarrow> string" and d
  assume "wf_db d"
  then show "wf_db (snd (case find (\<lambda>g. g_Name g = name) (db_groups d) of
       None \<Rightarrow> (Inr (), d)
     | Some g \<Rightarrow>
         if (k, g_ID g) \<in> set (db_members d)
         then (Inl (uniqueError ''tunnel_routing_groups.tunnel_id, tunnel_routing_groups.group_id''), d)
         else if lookupRow t_ID k (db_tunnels d) = None
         then (Inl (LibErr ''FOREIGN KEY constraint failed''), d)
         else (Inr (), d\<lparr>db_members := db_members d @ [(k, g_ID g)]\<rparr>)))"
    by (auto simp: wf_db_def wf_members_def find_Some_iff dest: tunnel_table.lookup_Some split: option.split)
qed

lemma keeps_delete_members: "dbkeeps wf_db (exec (db_members_update (filter P)))"
  by (rule keeps_exec) (auto simp: wf_db_def wf_members_def)

lemmas store_keeps = keeps_add_upstream keeps_add_tunnel keeps_add_group keeps_add_admin keeps_set_upstream
  keeps_set_tunnel keeps_set_group keeps_map_tunnels keeps_update_tunnel keeps_delete_members

subsection \<open>Every method keeps the invariant\<close>

lemma benign_rows [simp]:
  "benign (telemetryRow t period now)" "benign (resetRow period now)" "benign (quotaRow q now)"
  "benign (\<lambda>t. t\<lparr>t_Status := st, t_UpdatedAt := now\<rparr>)"
  "benign (\<lambda>t. t\<lparr>t_V4Mode := mode, t_Status := st, t_UpdatedAt := now\<rparr>)"
  "benign (\<lambda>t. t\<lparr>t_Enabled := on, t_QuotaDisabled := q', t_Status := st, t_UpdatedAt := now\<rparr>)"
  "benign (\<lambda>t. t\<lparr>t_Status := st, t_LastError := msg, t_UpdatedAt := now\<rparr>)"
  by (simp_all add: benign_def telemetryRow_def resetRow_def quotaRow_def Let_def)

lemma keeps_assignIPv4: "dbkeeps wf_db (assignIPv4 pool cfg byID used ts)"
  by (induction ts arbitrary: used)
    (auto intro!: keeps_rules store_keeps split: option.split)

lemma keeps_ensureIPv4: "dbkeeps wf_db (ensureIPv4AllocationsTx pool cfg ups)"
  unfolding ensureIPv4AllocationsTx_def by (intro keeps_rules keeps_assignIPv4)

lemma keeps_setGroups: "dbkeeps wf_db (setTunnelRoutingGroupsTx k names)"
  unfolding setTunnelRoutingGroupsTx_def requireGroup_def by (intro keeps_rules store_keeps)

lemma keeps_queries [keeps_rules]:
  "dbkeeps I Store_Settings" "dbkeeps I upstreamsTx" "dbkeeps I tunnelCountsByUpstream" "dbkeeps I Store_Upstreams"
  "dbkeeps I (Store_Upstream k)" "dbkeeps I Store_WarpAccount" "dbkeeps I (loadRoutingMemberships ts)"
  "dbkeeps I (queryTunnels f)" "dbkeeps I Store_Tunnels" "dbkeeps I (Store_TunnelsForUpstream k)"
  "dbkeeps I (Store_Tunnel k)" "dbkeeps I Store_RoutingGroups" "dbkeeps I (Store_UsedPrefixes k)"
  "dbkeeps I (Store_NextV4 pool)" "dbkeeps I Store_AdminCount" "dbkeeps I (Store_AdminHash user)"
  unfolding Store_Settings_def upstreamsTx_def tunnelCountsByUpstream_def Store_Upstreams_def Store_Upstream_def
    Store_WarpAccount_def loadRoutingMemberships_def queryTunnels_def Store_Tunnels_def Store_TunnelsForUpstream_def
    Store_Tunnel_def Store_RoutingGroups_def Store_UsedPrefixes_def Store_NextV4_def Store_AdminCount_def
    Store_AdminHash_def
  by (intro keeps_rules)+

lemma keeps_SaveSettings: "dbkeeps wf_db (Store_SaveSettings v)"
  unfolding Store_SaveSettings_def
  by (intro keeps_rules keeps_ensureIPv4) (simp add: wf_db_def wf_members_def)

lemma keeps_EnsureIPv4: "dbkeeps wf_db (Store_EnsureIPv4Allocations cfg)"
  unfolding Store_EnsureIPv4Allocations_def by (intro keeps_rules keeps_ensureIPv4)

lemma keeps_upstream_methods:
  "dbkeeps wf_db (Store_InsertUpstream u admin)" "dbkeeps wf_db (Store_UpdateUpstream u admin)"
  "dbkeeps wf_db (Store_DeleteUpstream k admin)"
proof -
  show "dbkeeps wf_db (Store_InsertUpstream u admin)"
    unfolding Store_InsertUpstream_def by (intro keeps_rules store_keeps) simp
  show "dbkeeps wf_db (Store_UpdateUpstream u admin)"
    unfolding Store_UpdateUpstream_def by (intro keeps_rules store_keeps benign_update) simp_all
  show "dbkeeps wf_db (Store_DeleteUpstream k admin)"
    unfolding Store_DeleteUpstream_def
    by (intro keeps_rules store_keeps) (auto simp: wf_db_def wf_members_def upstream_table.wf_delete)
qed

lemma keeps_warp_methods:
  "dbkeeps wf_db (Store_SaveWarpAccount a)" "dbkeeps wf_db (Store_SaveWarpTest tr tm)"
  "dbkeeps wf_db (Store_AddAudit admin action detail)"
  unfolding Store_SaveWarpAccount_def Store_SaveWarpTest_def Store_AddAudit_def
  by (intro keeps_rules; simp add: wf_db_def wf_members_def)+

lemma keeps_tunnel_methods:
  "dbkeeps wf_db (Store_InsertTunnel t admin)" "dbkeeps wf_db (Store_SetTunnelV4Mode k mode admin)"
  "dbkeeps wf_db (Store_SetEnabled k on admin)" "dbkeeps wf_db (Store_SetStatus k st msg)"
  "dbkeeps wf_db (Store_UpdateTelemetry t now)" "dbkeeps wf_db (Store_ResetMonthlyQuotas now)"
  "dbkeeps wf_db (Store_SetTunnelQuota k q admin)" "dbkeeps wf_db (Store_SetTunnelRoutingGroups k names admin)"
  unfolding Store_InsertTunnel_def Store_SetTunnelV4Mode_def Store_SetEnabled_def Store_SetStatus_def
    Store_UpdateTelemetry_def Store_ResetMonthlyQuotas_def Store_SetTunnelQuota_def
    Store_SetTunnelRoutingGroups_def Let_def
  by (intro keeps_rules store_keeps keeps_setGroups; simp add: newTunnelRow_def)+

lemma wf_db_delete_tunnel:
  "wf_db d \<Longrightarrow> wf_db (d\<lparr>db_tunnels := deleteRow t_ID k (db_tunnels d), db_members := filter (\<lambda>(t, g). t \<noteq> k) (db_members d)\<rparr>)"
  by (auto simp: wf_db_def wf_members_def tunnel_table.wf_delete ids_delete)

lemma wf_db_delete_group:
  "wf_db d \<Longrightarrow> wf_db (d\<lparr>db_groups := deleteRow g_ID k (db_groups d), db_members := filter (\<lambda>(t, g). g \<noteq> k) (db_members d)\<rparr>)"
  by (auto simp: wf_db_def wf_members_def group_table.wf_delete ids_delete)

lemma keeps_group_methods:
  "dbkeeps wf_db (Store_CreateRoutingGroup name admin)" "dbkeeps wf_db (Store_RenameRoutingGroup k name admin)"
  "dbkeeps wf_db (Store_DeleteRoutingGroup k admin)" "dbkeeps wf_db (Store_DeleteTunnel k admin)"
  "dbkeeps wf_db (Store_AddAdmin user hash)"
  unfolding Store_CreateRoutingGroup_def Store_RenameRoutingGroup_def Store_DeleteRoutingGroup_def
    Store_DeleteTunnel_def Store_AddAdmin_def
  by (intro keeps_rules store_keeps wf_db_delete_tunnel wf_db_delete_group; simp)+

lemmas store_methods_keep = keeps_SaveSettings keeps_EnsureIPv4 keeps_upstream_methods keeps_warp_methods
  keeps_tunnel_methods keeps_group_methods

subsection \<open>The store as a state machine\<close>

datatype store_op =
    OpSaveSettings settings
  | OpInsertUpstream upstream string
  | OpUpdateUpstream upstream string
  | OpDeleteUpstream int string
  | OpEnsureIPv4Allocations settings
  | OpSaveWarpAccount warp_account
  | OpSaveWarpTest string time
  | OpAddAudit string string string
  | OpInsertTunnel tunnel string
  | OpSetTunnelV4Mode int string string
  | OpDeleteTunnel int string
  | OpSetEnabled int bool string
  | OpSetStatus int string string
  | OpUpdateTelemetry tunnel time
  | OpResetMonthlyQuotas time
  | OpSetTunnelQuota int int string
  | OpSetTunnelRoutingGroups int "string list" string
  | OpCreateRoutingGroup string string
  | OpRenameRoutingGroup int string string
  | OpDeleteRoutingGroup int string
  | OpAddAdmin string string

definition ignore :: "('s, 'a) action \<Rightarrow> ('s, unit) action" where
  "ignore m = andThen m (\<lambda>_. return ())"

fun run_op :: "store_op \<Rightarrow> (store, unit) action" where
  "run_op (OpSaveSettings v) = Store_SaveSettings v"
| "run_op (OpInsertUpstream u admin) = ignore (Store_InsertUpstream u admin)"
| "run_op (OpUpdateUpstream u admin) = Store_UpdateUpstream u admin"
| "run_op (OpDeleteUpstream k admin) = Store_DeleteUpstream k admin"
| "run_op (OpEnsureIPv4Allocations v) = Store_EnsureIPv4Allocations v"
| "run_op (OpSaveWarpAccount a) = Store_SaveWarpAccount a"
| "run_op (OpSaveWarpTest trace tested) = Store_SaveWarpTest trace tested"
| "run_op (OpAddAudit admin action detail) = Store_AddAudit admin action detail"
| "run_op (OpInsertTunnel t admin) = ignore (Store_InsertTunnel t admin)"
| "run_op (OpSetTunnelV4Mode k mode admin) = Store_SetTunnelV4Mode k mode admin"
| "run_op (OpDeleteTunnel k admin) = Store_DeleteTunnel k admin"
| "run_op (OpSetEnabled k on admin) = Store_SetEnabled k on admin"
| "run_op (OpSetStatus k status msg) = Store_SetStatus k status msg"
| "run_op (OpUpdateTelemetry t now) = ignore (Store_UpdateTelemetry t now)"
| "run_op (OpResetMonthlyQuotas now) = Store_ResetMonthlyQuotas now"
| "run_op (OpSetTunnelQuota k q admin) = Store_SetTunnelQuota k q admin"
| "run_op (OpSetTunnelRoutingGroups k names admin) = Store_SetTunnelRoutingGroups k names admin"
| "run_op (OpCreateRoutingGroup name admin) = Store_CreateRoutingGroup name admin"
| "run_op (OpRenameRoutingGroup k name admin) = Store_RenameRoutingGroup k name admin"
| "run_op (OpDeleteRoutingGroup k admin) = Store_DeleteRoutingGroup k admin"
| "run_op (OpAddAdmin user hash) = Store_AddAdmin user hash"

text \<open>The database \<open>migrate\<close> makes of an empty file: the settings row with the column defaults.\<close>

definition freshDB :: db where
  "freshDB = \<lparr>db_settings = \<lparr>V4NAT = False, V4Warp = False, V4Pool = ''10.99.0.0/16'',
       DefaultDNS = ''2606:4700:4700::1111'', InterTunnelPolicy = ''isolated''\<rparr>,
     db_upstreams = [], db_tunnels = [], db_groups = [], db_members = [], db_audit = [], db_admins = [],
     db_warp = None, db_legacy = None, db_legacyGroups = None\<rparr>"

inductive reachable_store :: "store \<Rightarrow> bool" where
  fresh: "st_db s = freshDB \<Longrightarrow> reachable_store s"
| step: "reachable_store s \<Longrightarrow> run_op p s = (r, s') \<Longrightarrow> reachable_store s'"

lemma keeps_run_op: "dbkeeps wf_db (run_op p)"
  by (cases p) (auto simp: ignore_def intro!: keeps_andThen store_methods_keep)

lemma wf_freshDB: "wf_db freshDB"
  by (simp add: freshDB_def wf_db_def wf_table_def wf_members_def unique_in_def)

end
