(* ===== verification/Store_Properties.thy ===== *)
theory Store_Properties
  imports Store_Integrity
begin

section \<open>What the store promises\<close>

text \<open>
  The properties of the store's methods: integrity of every reachable database, atomicity of every
  failure, and the round trip of a tunnel and its routing groups.
\<close>

subsection \<open>Failures leave no trace\<close>

definition clean :: "(store, 'a) action \<Rightarrow> bool" where
  "clean m \<longleftrightarrow> (\<forall>s e s'. m s = (Inl e, s') \<longrightarrow> st_db s' = st_db s)"

lemma clean_tx: "clean (tx m)"
  using tx_Inl unfolding clean_def by blast

lemma clean_exec: "clean (exec f)"
  by (auto simp: clean_def exec_def sql_def Let_def split: if_splits)

lemma clean_addRow: "clean (addRow us get upd key row)"
  by (auto simp: clean_def addRow_def sql_def Let_def split: if_splits)

lemma clean_Now: "(\<And>now. clean (k now)) \<Longrightarrow> clean (andThen Now k)"
  by (auto simp: clean_def andThen_Inl Now_def)

lemma clean_return: "clean m \<Longrightarrow> clean (andThen m (\<lambda>x. return (f x)))"
  by (auto simp: clean_def andThen_Inl)

lemma clean_ignore: "clean m \<Longrightarrow> clean (ignore m)"
  unfolding ignore_def by (rule clean_return)

lemmas clean_rules = clean_tx clean_exec clean_addRow clean_Now clean_return clean_ignore

lemma clean_run_op:
  assumes "\<And>k on admin. p \<noteq> OpSetEnabled k on admin"
  shows "clean (run_op p)"
  using assms
  by (cases p)
    (auto simp: Store_SaveSettings_def Store_InsertUpstream_def Store_UpdateUpstream_def Store_DeleteUpstream_def
      Store_EnsureIPv4Allocations_def Store_SaveWarpAccount_def Store_SaveWarpTest_def Store_AddAudit_def auditRow_def
      Store_InsertTunnel_def Store_SetTunnelV4Mode_def Store_DeleteTunnel_def Store_SetStatus_def
      Store_UpdateTelemetry_def Store_ResetMonthlyQuotas_def Store_SetTunnelQuota_def Store_SetTunnelRoutingGroups_def
      Store_CreateRoutingGroup_def Store_RenameRoutingGroup_def Store_DeleteRoutingGroup_def Store_AddAdmin_def
      intro!: clean_rules)

subsection \<open>Routing groups of a tunnel\<close>

definition groupID :: "db \<Rightarrow> string \<Rightarrow> int" where
  "groupID d name = (case find (\<lambda>g. g_Name g = name) (db_groups d) of None \<Rightarrow> 0 | Some g \<Rightarrow> g_ID g)"

lemma requireGroups_Inr:
  assumes "each requireGroup names s = (Inr x, s')"
  shows "st_db s' = st_db s \<and> (\<forall>n\<in>set names. \<exists>g\<in>set (db_groups (st_db s)). g_Name g = n)"
  using assms
proof (induction names arbitrary: s)
  case (Cons n ns)
  from Cons.prems obtain s1 where s1: "requireGroup n s = (Inr (), s1)" "each requireGroup ns s1 = (Inr x, s')"
    by (auto simp: andThen_Inr)
  then have "st_db s1 = st_db s" "\<exists>g\<in>set (db_groups (st_db s)). g_Name g = n"
    by (auto simp: requireGroup_def andThen_Inr list_ex_iff dest!: query_Inr split: if_splits)
  with Cons.IH [OF s1(2)] show ?case by auto
qed simp

lemma insertMember_Inr:
  assumes "insertMember k n s = (Inr x, s')" "g \<in> set (db_groups (st_db s))" "g_Name g = n"
  shows "st_db s' = db_members_update (\<lambda>m. m @ [(k, groupID (st_db s) n)]) (st_db s)"
proof -
  have "find (\<lambda>g. g_Name g = n) (db_groups (st_db s)) \<noteq> None" using assms(2,3) by (auto simp: find_None_iff)
  then obtain h where "find (\<lambda>g. g_Name g = n) (db_groups (st_db s)) = Some h" by blast
  then show ?thesis
    using assms(1) by (auto simp: insertMember_def sql_def Let_def groupID_def split: if_splits)
qed

lemma groupID_members [simp]: "groupID (db_members_update f d) = groupID d"
  by (simp add: groupID_def fun_eq_iff)

lemma insertMembers_Inr:
  assumes "each (insertMember k) names s = (Inr x, s')" "\<forall>n\<in>set names. \<exists>g\<in>set (db_groups (st_db s)). g_Name g = n"
  shows "st_db s' = db_members_update (\<lambda>m. m @ map (\<lambda>n. (k, groupID (st_db s) n)) names) (st_db s)"
  using assms
proof (induction names arbitrary: s)
  case (Cons n ns)
  from Cons.prems(1) obtain s1 where s1: "insertMember k n s = (Inr (), s1)" "each (insertMember k) ns s1 = (Inr x, s')"
    by (auto simp: andThen_Inr)
  from Cons.prems(2) obtain g where "g \<in> set (db_groups (st_db s))" "g_Name g = n" by auto
  then have d1: "st_db s1 = db_members_update (\<lambda>m. m @ [(k, groupID (st_db s) n)]) (st_db s)"
    by (rule insertMember_Inr [OF s1(1)])
  show ?case using Cons.IH [OF s1(2)] Cons.prems(2) by (simp add: d1)
qed simp

lemma setGroups_Inr:
  assumes "setTunnelRoutingGroupsTx k names s = (Inr x, s')"
  shows "st_db s' = db_members_update
      (\<lambda>m. filter (\<lambda>(t, g). t \<noteq> k) m @ map (\<lambda>n. (k, groupID (st_db s) n)) names) (st_db s)"
    and "\<forall>n\<in>set names. \<exists>g\<in>set (db_groups (st_db s)). g_Name g = n"
proof -
  obtain s1 s2 where s: "each requireGroup names s = (Inr (), s1)"
      "exec (db_members_update (filter (\<lambda>(t, g). t \<noteq> k))) s1 = (Inr (), s2)" "each (insertMember k) names s2 = (Inr x, s')"
    using assms by (auto simp: setTunnelRoutingGroupsTx_def andThen_Inr)
  note 1 = requireGroups_Inr [OF s(1)]
  then have 2: "st_db s2 = db_members_update (filter (\<lambda>(t, g). t \<noteq> k)) (st_db s)"
    using exec_Inr [OF s(2)] by simp
  show "\<forall>n\<in>set names. \<exists>g\<in>set (db_groups (st_db s)). g_Name g = n" using 1 by simp
  then show "st_db s' = db_members_update
      (\<lambda>m. filter (\<lambda>(t, g). t \<noteq> k) m @ map (\<lambda>n. (k, groupID (st_db s) n)) names) (st_db s)"
    using insertMembers_Inr [OF s(3)] by (simp add: 2)
qed

text \<open>Reading the memberships back gives the names, in order.\<close>

lemma map_filter_rows: "List.map_filter f (map g xs) = List.map_filter (\<lambda>x. f (g x)) xs"
  by (induction xs) (auto simp: List.map_filter_def)

lemma map_filter_Some: "(\<And>x. x \<in> set xs \<Longrightarrow> f x = Some (g x)) \<Longrightarrow> List.map_filter f xs = map g xs"
  by (induction xs) (auto simp: List.map_filter_def)

lemma map_filter_None: "(\<And>x. x \<in> set xs \<Longrightarrow> f x = None) \<Longrightarrow> List.map_filter f xs = []"
  by (induction xs) (auto simp: List.map_filter_def)

lemma map_filter_append: "List.map_filter f (xs @ ys) = List.map_filter f xs @ List.map_filter f ys"
  by (simp add: List.map_filter_def)

lemma groupID_lookup:
  assumes "distinct (map g_ID (db_groups d))" "\<exists>g\<in>set (db_groups d). g_Name g = n"
  shows "\<exists>g. lookupRow g_ID (groupID d n) (db_groups d) = Some g \<and> g_Name g = n"
proof -
  from assms(2) have "find (\<lambda>g. g_Name g = n) (db_groups d) \<noteq> None" by (auto simp: find_None_iff)
  then obtain g where g: "find (\<lambda>g. g_Name g = n) (db_groups d) = Some g" by blast
  then have "g \<in> set (db_groups d)" "g_Name g = n" by (auto simp: find_Some_iff)
  then show ?thesis using g group_table.lookup_distinct [OF assms(1)] by (auto simp: groupID_def)
qed

lemma groupNames_set:
  assumes "distinct (map g_ID (db_groups d))" "\<forall>n\<in>set names. \<exists>g\<in>set (db_groups d). g_Name g = n" "sorted names"
  shows "groupNames (db_members_update (\<lambda>m. filter (\<lambda>(t, g). t \<noteq> k) m @ map (\<lambda>n. (k, groupID d n)) names) d) k = names"
proof -
  define row where "row n = the (lookupRow g_ID (groupID d n) (db_groups d))" for n
  have row: "lookupRow g_ID (groupID d n) (db_groups d) = Some (row n) \<and> g_Name (row n) = n" if "n \<in> set names" for n
    using groupID_lookup [OF assms(1)] assms(2) that unfolding row_def by fastforce
  have "List.map_filter (\<lambda>(t, g). if t = k then lookupRow g_ID g (db_groups d) else None)
      (filter (\<lambda>(t, g). t \<noteq> k) (db_members d)) = []" by (rule map_filter_None) auto
  moreover have "List.map_filter (\<lambda>n. lookupRow g_ID (groupID d n) (db_groups d)) names = map row names"
    by (rule map_filter_Some) (simp add: row)
  ultimately have "List.map_filter (\<lambda>(t, g). if t = k then lookupRow g_ID g (db_groups d) else None)
      (filter (\<lambda>(t, g). t \<noteq> k) (db_members d) @ map (\<lambda>n. (k, groupID d n)) names) = map row names"
    by (simp add: map_filter_append map_filter_rows)
  moreover have names: "map g_Name (map row names) = names" using row by (auto simp: comp_def intro: map_idI)
  moreover have "sort_key g_Name (map row names) = map row names"
    using names assms(3) by (intro sort_key_id_if_sorted) simp
  ultimately show ?thesis by (simp add: groupNames_def cong: if_cong)
qed

subsection \<open>Inserting and reading a tunnel\<close>

lemma addRow_Inr:
  assumes "addRow us get upd key row s = (Inr k, s')"
  shows "k = nextRowid key (get (st_db s)) \<and> st_db s' = upd (\<lambda>rows. rows @ [row k]) (st_db s)"
  using assms by (auto simp: addRow_def sql_def Let_def split: if_splits)

lemma InsertTunnel_Inr:
  assumes "Store_InsertTunnel t admin s = (Inr t', s')"
  obtains now a where "t' = t\<lparr>t_ID := nextRowid t_ID (db_tunnels (st_db s))\<rparr>"
    "st_db s' = (st_db s)\<lparr>db_tunnels := db_tunnels (st_db s) @ [newTunnelRow t now (t_ID t')],
       db_members := filter (\<lambda>(t, g). t \<noteq> t_ID t') (db_members (st_db s)) @
         map (\<lambda>n. (t_ID t', groupID (st_db s) n)) (t_RoutingGroups t),
       db_audit := a\<rparr>"
    "\<forall>n\<in>set (t_RoutingGroups t). \<exists>g\<in>set (db_groups (st_db s)). g_Name g = n"
proof -
  obtain now s0 s1 where s0: "Now s = (Inr now, s0)"
    and body: "tx (andThen (addRow tunnel_uniques db_tunnels db_tunnels_update t_ID (newTunnelRow t now)) (\<lambda>k.
       andThen (setTunnelRoutingGroupsTx k (t_RoutingGroups t)) (\<lambda>_.
       andThen (auditRow admin ''create'' (Some k) (t_V6CIDR t) now) (\<lambda>_.
       return (t\<lparr>t_ID := k\<rparr>))))) s0 = (Inr t', s')"
    using assms by (auto simp: Store_InsertTunnel_def andThen_Inr)
  obtain s1 s2 s3 s4 k where st: "st_db s1 = st_db s0"
    "addRow tunnel_uniques db_tunnels db_tunnels_update t_ID (newTunnelRow t now) s1 = (Inr k, s2)"
    "setTunnelRoutingGroupsTx k (t_RoutingGroups t) s2 = (Inr (), s3)"
    "auditRow admin ''create'' (Some k) (t_V6CIDR t) now s3 = (Inr (), s4)"
    "t' = t\<lparr>t_ID := k\<rparr>" "st_db s' = st_db s4"
    by (rule tx_Inr [OF body]) (auto simp: andThen_Inr)
  have d0: "st_db s0 = st_db s" using Now_Inr [OF s0] .
  have k: "k = nextRowid t_ID (db_tunnels (st_db s))"
    and d2: "st_db s2 = db_tunnels_update (\<lambda>rows. rows @ [newTunnelRow t now k]) (st_db s)"
    using addRow_Inr [OF st(2)] st(1) d0 by auto
  note g = setGroups_Inr [OF st(3)]
  have "groupID (st_db s2) = groupID (st_db s)" by (simp add: d2 groupID_def fun_eq_iff)
  moreover have "st_db s4 = db_audit_update (\<lambda>_. db_audit (st_db s4)) (st_db s3)"
    using st(4) by (auto simp: auditRow_def dest!: exec_Inr)
  ultimately show thesis
    using that [where now = now and a = "db_audit (st_db s4)"] k d2 g st(5,6)
    by (cases "st_db s4") simp
qed

lemma queryRow_run: "queryRow f s = (Inr x, s') \<Longrightarrow> f (st_db s) = Some x" by (simp add: queryRow_Inr)

lemma Tunnel_Inr:
  assumes "Store_Tunnel k s = (Inr t, s')"
  obtains row where "lookupRow t_ID k (db_tunnels (st_db s)) = Some row"
    "t = row\<lparr>t_RoutingGroups := groupNames (st_db s) k\<rparr>" "st_db s' = st_db s"
proof -
  obtain u s1 ts where u: "queryRow (\<lambda>d. map_option scanTunnel (lookupRow t_ID k (db_tunnels d))) s = (Inr u, s1)"
    and ts: "loadRoutingMemberships [u] s1 = (Inr ts, s')" "t = hd ts"
    using assms by (auto simp: Store_Tunnel_def andThen_Inr)
  from queryRow_Inr [OF u] obtain row where row: "lookupRow t_ID k (db_tunnels (st_db s)) = Some row"
      "u = scanTunnel row" "st_db s1 = st_db s" by auto
  have "t_ID row = k" using tunnel_table.lookup_Some [OF row(1)] by simp
  then show thesis
    using that [OF row(1)] ts row by (auto simp: loadRoutingMemberships_def scanTunnel_def dest!: query_Inr)
qed

text \<open>
  C27. A tunnel written with sorted routing groups reads back, under the identifier the insertion
  reports, as it was written, column by column: the same connection, label, keys, addresses, DNS and
  MTU overrides, modes, quota and groups, with the identifier new, the status pending, no error, no
  usage, no handshake and no traffic, and one creation and update time.
\<close>

theorem tunnel_round_trip:
  assumes "wf_db (st_db s)" and "sorted (t_RoutingGroups t)"
    and "Store_InsertTunnel t admin s = (Inr t', s1)" and "Store_Tunnel (t_ID t') s1 = (Inr t'', s2)"
  shows "(\<exists>now. t'' = \<lparr>t_ID = t_ID t', t_UpstreamID = t_UpstreamID t, t_Label = t_Label t, t_PublicKey = t_PublicKey t,
       t_PresharedKey = t_PresharedKey t, t_PrivateKey = t_PrivateKey t, t_V6CIDR = t_V6CIDR t, t_V4Address = t_V4Address t,
       t_DNSOverride = t_DNSOverride t, t_Status = ''pending'', t_LastError = [], t_V4Enabled = t_V4Enabled t,
       t_Enabled = t_Enabled t, t_V4Mode = t_V4Mode t, t_QuotaGiB = t_QuotaGiB t, t_QuotaUsedBytes = 0,
       t_QuotaPeriod = t_QuotaPeriod t, t_QuotaDisabled = False, t_RoutingGroups = t_RoutingGroups t,
       t_MTUOverride = t_MTUOverride t, t_CreatedAt = now, t_UpdatedAt = now, t_LastHandshake = 0, t_RXBytes = 0, t_TXBytes = 0\<rparr>) \<and>
    (\<forall>u\<in>set (db_tunnels (st_db s)). t_ID u < t_ID t')"
proof -
  let ?k = "t_ID t'"
  obtain now a where k: "t' = t\<lparr>t_ID := nextRowid t_ID (db_tunnels (st_db s))\<rparr>"
    and d1: "st_db s1 = (st_db s)\<lparr>db_tunnels := db_tunnels (st_db s) @ [newTunnelRow t now ?k],
       db_members := filter (\<lambda>(t, g). t \<noteq> ?k) (db_members (st_db s)) @
         map (\<lambda>n. (?k, groupID (st_db s) n)) (t_RoutingGroups t), db_audit := a\<rparr>"
    and names: "\<forall>n\<in>set (t_RoutingGroups t). \<exists>g\<in>set (db_groups (st_db s)). g_Name g = n"
    by (rule InsertTunnel_Inr [OF assms(3)])
  obtain row where row: "lookupRow t_ID ?k (db_tunnels (st_db s1)) = Some row"
    "t'' = row\<lparr>t_RoutingGroups := groupNames (st_db s1) ?k\<rparr>"
    by (rule Tunnel_Inr [OF assms(4)])
  have key: "?k = nextRowid t_ID (db_tunnels (st_db s))" using k by simp
  have "(newTunnelRow t now ?k)\<lparr>t_ID := ?k\<rparr> = newTunnelRow t now ?k" by (simp add: newTunnelRow_def)
  then have "row = newTunnelRow t now ?k"
    using row(1) tunnel_table.lookup_insert [of ?k "db_tunnels (st_db s)" "newTunnelRow t now ?k"]
    by (simp add: d1 flip: key)
  moreover have "groupNames (st_db s1) ?k = t_RoutingGroups t"
    using groupNames_set [OF _ names assms(2), of ?k] assms(1)
    by (simp add: d1 groupNames_def wf_db_def wf_table_def cong: if_cong)
  ultimately have "t'' = (newTunnelRow t now ?k)\<lparr>t_RoutingGroups := t_RoutingGroups t\<rparr>" using row(2) by simp
  then show ?thesis using tunnel_table.nextRowid_fresh key by (cases t) (auto simp: newTunnelRow_def)
qed

subsection \<open>Rows marked as over their quota\<close>

definition marked_right :: "tunnel \<Rightarrow> bool" where
  "marked_right t \<longleftrightarrow> (t_QuotaDisabled t \<longrightarrow> \<not> t_Enabled t \<and> wrap64 (t_QuotaGiB t * 2 ^ 30) \<le> t_QuotaUsedBytes t)"

definition marks_right :: "db \<Rightarrow> bool" where
  "marks_right d \<longleftrightarrow> (\<forall>t\<in>set (db_tunnels d). marked_right t)"

lemma marked_right_rows:
  "marked_right (telemetryRow t period now old)" "marked_right (quotaRow q now old)"
  "marked_right old \<Longrightarrow> marked_right (resetRow period now old)" "marked_right (newTunnelRow t now k)"
  "marked_right (old\<lparr>t_Enabled := on, t_QuotaDisabled := False, t_Status := st, t_UpdatedAt := now\<rparr>)"
  "marked_right old \<Longrightarrow> marked_right (old\<lparr>t_Status := st, t_UpdatedAt := now\<rparr>)"
  "marked_right old \<Longrightarrow> marked_right (old\<lparr>t_V4Mode := mode, t_Status := st, t_UpdatedAt := now\<rparr>)"
  "marked_right old \<Longrightarrow> marked_right (old\<lparr>t_Status := st, t_LastError := msg, t_UpdatedAt := now\<rparr>)"
  "marked_right old \<Longrightarrow> marked_right (old\<lparr>t_V4Address := a, t_V4Enabled := en, t_UpdatedAt := now\<rparr>)"
  by (auto simp: marked_right_def telemetryRow_def telemetryExceeded_def overQuota_def quotaRow_def resetRow_def newTunnelRow_def Let_def)

lemma marks_statements:
  "dbkeeps marks_right (exec (db_settings_update f0))" "dbkeeps marks_right (exec (db_upstreams_update f1))"
  "dbkeeps marks_right (exec (db_members_update f3))" "dbkeeps marks_right (exec (db_groups_update f4))"
  "dbkeeps marks_right (auditRow admin action tunnel detail now)" "dbkeeps marks_right (insertMember k name)"
  "dbkeeps marks_right (addRow us1 db_upstreams db_upstreams_update up_ID row1)"
  "dbkeeps marks_right (addRow us3 db_groups db_groups_update g_ID row3)"
  "dbkeeps marks_right (addRow us4 db_admins db_admins_update ad_ID row4)"
  "dbkeeps marks_right (setRow us1 db_upstreams db_upstreams_update up_ID k g1)"
  "dbkeeps marks_right (setRow us3 db_groups db_groups_update g_ID k g3)"
  unfolding auditRow_def insertMember_def addRow_def setRow_def
  by (intro keeps_exec keeps_sql; simp add: marks_right_def Let_def split: option.split)+

lemma marks_tunnel_rows:
  "(\<And>t. marked_right t \<Longrightarrow> marked_right (f t)) \<Longrightarrow> dbkeeps marks_right (exec (db_tunnels_update (map f)))"
  "(\<And>t. marked_right t \<Longrightarrow> marked_right (f t)) \<Longrightarrow> dbkeeps marks_right (exec (db_tunnels_update (updateRow t_ID k f)))"
  "(\<And>t. marked_right t \<Longrightarrow> marked_right (f t)) \<Longrightarrow> dbkeeps marks_right (setRow us2 db_tunnels db_tunnels_update t_ID k f)"
  "(\<And>k. marked_right (row k)) \<Longrightarrow> dbkeeps marks_right (addRow us2 db_tunnels db_tunnels_update t_ID row)"
  unfolding addRow_def setRow_def
  by (intro keeps_exec keeps_sql; auto simp: marks_right_def updateRow_def Let_def split: option.split)+

lemma marks_other_rows:
  "marks_right d \<Longrightarrow> marks_right (d\<lparr>db_warp := w\<rparr>)"
  "marks_right d \<Longrightarrow> marks_right (d\<lparr>db_settings := v\<rparr>)"
  "marks_right d \<Longrightarrow> marks_right (d\<lparr>db_tunnels := deleteRow t_ID k (db_tunnels d), db_members := ms\<rparr>)"
  "marks_right d \<Longrightarrow> marks_right (d\<lparr>db_groups := gs, db_members := ms\<rparr>)"
  by (auto simp: marks_right_def deleteRow_def)

lemma marks_assign: "dbkeeps marks_right (assignIPv4 pool cfg byID used ts)"
  by (induction ts arbitrary: used) (auto intro!: keeps_rules marks_tunnel_rows marked_right_rows split: option.split)

lemma marks_methods: "dbkeeps marks_right (run_op p)"
  by (cases p) (auto simp: ignore_def Store_SaveSettings_def Store_InsertUpstream_def Store_UpdateUpstream_def
      Store_DeleteUpstream_def Store_EnsureIPv4Allocations_def ensureIPv4AllocationsTx_def Store_SaveWarpAccount_def
      Store_SaveWarpTest_def Store_AddAudit_def Store_InsertTunnel_def setTunnelRoutingGroupsTx_def requireGroup_def
      Store_SetTunnelV4Mode_def Store_DeleteTunnel_def Store_SetEnabled_def Store_SetStatus_def Store_UpdateTelemetry_def
      Store_ResetMonthlyQuotas_def Store_SetTunnelQuota_def Store_SetTunnelRoutingGroups_def Store_CreateRoutingGroup_def
      Store_RenameRoutingGroup_def Store_DeleteRoutingGroup_def Store_AddAdmin_def Let_def
      intro!: keeps_rules marks_statements marks_tunnel_rows marks_assign marked_right_rows marks_other_rows)

lemma reachable_rows: "reachable_store s \<Longrightarrow> wf_db (st_db s) \<and> marks_right (st_db s)"
proof (induction rule: reachable_store.induct)
  case (fresh s)
  then show ?case by (simp add: wf_freshDB) (simp add: freshDB_def marks_right_def)
next
  case (step s p r s')
  then show ?case using keepsD [OF keeps_run_op] keepsD [OF marks_methods] by blast
qed

lemma distinct_Some: "distinct (map (\<lambda>r. Some (f r)) rows) \<longleftrightarrow> distinct (map f rows)"
  by (auto simp: distinct_map inj_on_def)

lemma distinct_nullable:
  "distinct (filter (\<lambda>v. v \<noteq> None) (map (\<lambda>r. nullable (f r)) rows)) \<longleftrightarrow> distinct (filter (\<lambda>v. v \<noteq> []) (map f rows))"
proof -
  have "filter (\<lambda>v. v \<noteq> None) (map (\<lambda>r. nullable (f r)) rows) = map Some (filter (\<lambda>v. v \<noteq> []) (map f rows))"
    by (induction rows) (auto simp: nullable_def)
  then show ?thesis by (simp add: distinct_map)
qed

lemma wf_columns:
  assumes "wf_db d"
  shows "distinct (map up_Name (db_upstreams d))" "distinct (map up_InterfaceName (db_upstreams d))"
    "distinct (map t_PublicKey (db_tunnels d))" "distinct (map t_V6CIDR (db_tunnels d))"
    "distinct (filter (\<lambda>v. v \<noteq> []) (map t_V4Address (db_tunnels d)))"
    "distinct (map g_Name (db_groups d))" "distinct (map ad_Username (db_admins d))"
  using assms unfolding wf_db_def wf_table_def unique_in_def upstream_uniques_def tunnel_uniques_def group_uniques_def admin_uniques_def
  by (simp_all add: distinct_Some distinct_nullable del: filter_map not_None_eq)

lemma wf_identifiers:
  assumes "wf_db d"
  shows "distinct (map up_ID (db_upstreams d))" "distinct (map t_ID (db_tunnels d))" "distinct (map g_ID (db_groups d))"
    "distinct (map ad_ID (db_admins d))" "distinct (map a_ID (db_audit d))" "distinct (db_members d)"
    "\<forall>t\<in>set (db_tunnels d). 0 < t_ID t" "\<forall>u\<in>set (db_upstreams d). 0 < up_ID u"
    "\<forall>(t, g)\<in>set (db_members d). (\<exists>r\<in>set (db_tunnels d). t_ID r = t) \<and> (\<exists>r\<in>set (db_groups d). g_ID r = g)"
  using assms unfolding wf_db_def wf_table_def wf_members_def by auto

text \<open>
  C9. In every state the store can reach, identifiers are unique in every table; names and interface
  names of connections, public keys, IPv6 prefixes and assigned IPv4 addresses of tunnels, names of
  groups and of administrators are unique; identifiers of tunnels and connections are positive; group
  memberships are unique and refer to a tunnel and a group that exist; and a tunnel marked as disabled
  by its quota is disabled, and its usage has reached the quota.
\<close>

theorem store_integrity:
  assumes "reachable_store s"
  shows "distinct (map up_ID (db_upstreams (st_db s))) \<and> distinct (map t_ID (db_tunnels (st_db s))) \<and>
    distinct (map g_ID (db_groups (st_db s))) \<and> distinct (map ad_ID (db_admins (st_db s))) \<and> distinct (map a_ID (db_audit (st_db s))) \<and>
    distinct (map up_Name (db_upstreams (st_db s))) \<and> distinct (map up_InterfaceName (db_upstreams (st_db s))) \<and>
    distinct (map t_PublicKey (db_tunnels (st_db s))) \<and> distinct (map t_V6CIDR (db_tunnels (st_db s))) \<and>
    distinct (filter (\<lambda>v. v \<noteq> []) (map t_V4Address (db_tunnels (st_db s)))) \<and>
    distinct (map g_Name (db_groups (st_db s))) \<and> distinct (map ad_Username (db_admins (st_db s))) \<and>
    (\<forall>u\<in>set (db_upstreams (st_db s)). 0 < up_ID u) \<and> (\<forall>t\<in>set (db_tunnels (st_db s)). 0 < t_ID t) \<and>
    distinct (db_members (st_db s)) \<and>
    (\<forall>(t, g)\<in>set (db_members (st_db s)). (\<exists>r\<in>set (db_tunnels (st_db s)). t_ID r = t) \<and> (\<exists>r\<in>set (db_groups (st_db s)). g_ID r = g)) \<and>
    (\<forall>t\<in>set (db_tunnels (st_db s)). t_QuotaDisabled t \<longrightarrow>
       \<not> t_Enabled t \<and> wrap64 (t_QuotaGiB t * 2 ^ 30) \<le> t_QuotaUsedBytes t)"
proof -
  have wf: "wf_db (st_db s)" and "marks_right (st_db s)" using reachable_rows [OF assms] by blast+
  then have "\<forall>t\<in>set (db_tunnels (st_db s)). t_QuotaDisabled t \<longrightarrow> \<not> t_Enabled t \<and> wrap64 (t_QuotaGiB t * 2 ^ 30) \<le> t_QuotaUsedBytes t"
    unfolding marks_right_def marked_right_def by blast
  then show ?thesis by (intro conjI wf_columns [OF wf] wf_identifiers [OF wf])
qed

text \<open>
  C15. A method that reports an error has changed no row, wherever the driver failed, except for
  \<open>SetEnabled\<close>, whose two statements are not in one transaction.
\<close>

theorem store_atomic:
  assumes "run_op p s = (Inl e, s')" and "\<And>k on admin. p \<noteq> OpSetEnabled k on admin"
  shows "st_db s' = st_db s"
  using clean_run_op [OF assms(2)] assms(1) unfolding clean_def by blast

definition sample_store :: store where
  "sample_store = \<lparr>st_db = freshDB, st_clock = int, st_ticks = 0, st_fault = (\<lambda>n. n = 9), st_calls = 0, st_named = hd\<rparr>"

definition crowded_store :: store where
  "crowded_store = snd (run_op (OpAddAdmin ''b'' ''h'') (snd (run_op (OpAddAdmin ''a'' ''h'') sample_store)))"

theorem store_integrity_witness:
  "length (db_admins (st_db crowded_store)) = 2 \<and> distinct (map ad_Username (db_admins (st_db crowded_store)))"
proof -
  have "reachable_store sample_store" by (rule reachable_store.fresh) (simp add: sample_store_def)
  then have "reachable_store crowded_store"
    unfolding crowded_store_def by (intro reachable_store.step [OF _ prod.collapse [symmetric]])
  moreover have "length (db_admins (st_db crowded_store)) = 2" by code_simp
  ultimately show ?thesis using store_integrity by blast
qed

theorem store_atomic_witness: "st_db (snd (run_op (OpDeleteUpstream 7 ''a'') sample_store)) = freshDB"
proof -
  have "fst (run_op (OpDeleteUpstream 7 ''a'') sample_store) = Inl ErrNoRows" by code_simp
  then have "run_op (OpDeleteUpstream 7 ''a'') sample_store = (Inl ErrNoRows, snd (run_op (OpDeleteUpstream 7 ''a'') sample_store))"
    by (metis prod.collapse)
  from store_atomic [OF this] show ?thesis by (simp add: sample_store_def)
qed

definition quiet_store :: store where
  "quiet_store = sample_store\<lparr>st_fault := (\<lambda>_. False)\<rparr>"

definition grouped_store :: store where
  "grouped_store = snd (run_op (OpCreateRoutingGroup ''g'' ''a'') quiet_store)"

definition sample_tunnel :: tunnel where
  "sample_tunnel = zeroTunnel\<lparr>t_UpstreamID := 1, t_Label := ''l'', t_PublicKey := ''k'', t_V6CIDR := ''::/112'',
     t_RoutingGroups := [''g''], t_QuotaGiB := 100, t_Enabled := True\<rparr>"

theorem tunnel_round_trip_witness:
  "\<exists>t' s1 t'' s2. Store_InsertTunnel sample_tunnel ''a'' grouped_store = (Inr t', s1) \<and>
     Store_Tunnel (t_ID t') s1 = (Inr t'', s2) \<and> t_RoutingGroups t'' = [''g''] \<and> t_V6CIDR t'' = ''::/112''"
proof -
  have "is_ok (fst (Store_InsertTunnel sample_tunnel ''a'' grouped_store))" by code_simp
  then obtain t' s1 where i: "Store_InsertTunnel sample_tunnel ''a'' grouped_store = (Inr t', s1)"
    by (metis is_ok_iff prod.collapse)
  have "is_ok (case Store_InsertTunnel sample_tunnel ''a'' grouped_store of
      (Inr t', s1) \<Rightarrow> fst (Store_Tunnel (t_ID t') s1) | (Inl e, s1) \<Rightarrow> Inl e)" by code_simp
  then obtain t'' s2 where g: "Store_Tunnel (t_ID t') s1 = (Inr t'', s2)"
    by (auto simp: i is_ok_iff) (metis prod.collapse)
  have "dbkeeps wf_db (run_op (OpCreateRoutingGroup ''g'' ''a''))" by (rule keeps_run_op)
  then have "wf_db (st_db grouped_store)"
    using wf_freshDB by (auto simp: keeps_def grouped_store_def quiet_store_def sample_store_def)
  then show ?thesis
    using tunnel_round_trip [OF _ _ i g] i g by (auto simp: sample_tunnel_def)
qed

end
