(* ===== verification/Store_Accounting.thy ===== *)
theory Store_Accounting
  imports Store_Properties
begin

section \<open>Internal IPv4 addresses and traffic quotas\<close>

text \<open>
  The two kinds of bookkeeping the store does on tunnels: which internal IPv4 address a tunnel is
  given, and how the byte counters sampled from the kernel are charged against a monthly quota.
\<close>

subsection \<open>The next free address\<close>

text \<open>The addresses of a pool that may be handed out: all but the network address.\<close>

definition hosts :: "prefix \<Rightarrow> addr set" where
  "hosts pool = {a. Contains pool a} - {pAddr (Masked pool)}"

lemma Contains4:
  "Contains (Prefix (Addr4 w) (int b)) (Addr4 v) \<longleftrightarrow> unat w div 2 ^ (32 - b) = unat v div 2 ^ (32 - b)"
  by (simp add: Contains.simps word_unat_eq_iff unat_drop_bit_eq) (simp add: drop_bit_eq_div)

lemma Contains4_D: "Contains (Prefix (Addr4 w) b) a \<Longrightarrow> \<exists>v. a = Addr4 v"
  by (cases a) (auto simp: Contains.simps split: if_splits)

lemma Masked4: "b \<le> 32 \<Longrightarrow> Masked (Prefix (Addr4 w) (int b)) = Prefix (Addr4 (clear_low (32 - b) w)) (int b)"
  by (simp add: Masked.simps PrefixFrom_def)

lemma Contains4_convex:
  assumes "Contains (Prefix (Addr4 n) (int b)) (Addr4 u)" "n \<le> v" "v \<le> u"
  shows "Contains (Prefix (Addr4 n) (int b)) (Addr4 v)"
  using assms div_le_mono [of "unat n" "unat v" "2 ^ (32 - b)"] div_le_mono [of "unat v" "unat u" "2 ^ (32 - b)"]
  by (simp add: Contains4 word_le_nat_alt)

lemma freeFrom_cases:
  "freeFrom p used NoAddr = None"
  "\<not> Contains p a \<Longrightarrow> freeFrom p used a = None"
  "Contains p a \<Longrightarrow> a \<notin> used \<Longrightarrow> freeFrom p used a = Some a"
  "Contains p a \<Longrightarrow> a \<in> used \<Longrightarrow> freeFrom p used a = freeFrom p used (Next a)"
  by (subst freeFrom.simps; simp)+

lemma word_top: "v + 1 = 0 \<Longrightarrow> v \<le> u \<Longrightarrow> u = v" for v :: "'a::len word"
  using word_order.extremum_uniqueI [of u] by (simp add: eq_neg_iff_add_eq_0 [symmetric])

lemma word_succ_le: "v + 1 \<noteq> 0 \<Longrightarrow> v + 1 \<le> x \<longleftrightarrow> v < x" for v :: "'a::len word"
  by (simp add: word_less_nat_alt word_le_nat_alt unat_plus_one Suc_le_eq)

lemma freeFrom4:
  assumes "n \<le> v"
  shows "(freeFrom (Prefix (Addr4 n) (int b)) used (Addr4 v) = None \<longrightarrow>
      (\<forall>u. v \<le> u \<longrightarrow> Contains (Prefix (Addr4 n) (int b)) (Addr4 u) \<longrightarrow> Addr4 u \<in> used)) \<and>
    (\<forall>a. freeFrom (Prefix (Addr4 n) (int b)) used (Addr4 v) = Some a \<longrightarrow>
      (\<exists>u. a = Addr4 u \<and> v \<le> u \<and> Contains (Prefix (Addr4 n) (int b)) a \<and> a \<notin> used \<and>
        (\<forall>x. v \<le> x \<longrightarrow> x < u \<longrightarrow> Addr4 x \<in> used)))"
  using assms
proof (induction "Prefix (Addr4 n) (int b)" used "Addr4 v" arbitrary: v rule: freeFrom.induct)
  case (1 used v)
  let ?p = "Prefix (Addr4 n) (int b)"
  consider "\<not> Contains ?p (Addr4 v)" | "Contains ?p (Addr4 v)" "Addr4 v \<notin> used"
    | "Contains ?p (Addr4 v)" "Addr4 v \<in> used" "v + 1 = 0" | "Contains ?p (Addr4 v)" "Addr4 v \<in> used" "v + 1 \<noteq> 0"
    by blast
  then show ?case
  proof cases
    case 1
    then show ?thesis using Contains4_convex [of n b _ v] \<open>n \<le> v\<close> by (auto simp: freeFrom_cases)
  next
    case 2
    then show ?thesis by (auto simp: freeFrom_cases)
  next
    case 3
    then show ?thesis using word_top [of v] by (auto simp: freeFrom_cases)
  next
    case 4
    have eq: "freeFrom ?p used (Addr4 v) = freeFrom ?p used (Addr4 (v + 1))"
      using 4 by (simp add: freeFrom_cases)
    have le: "n \<le> v + 1" using \<open>n \<le> v\<close> word_succ_le [OF 4(3), of "v + 1"] by simp
    have "Next (Addr4 v) = Addr4 (v + 1)" using 4(3) by simp
    with "1.hyps" [of "v + 1"] 4(1,2) le
    have IH: "freeFrom ?p used (Addr4 (v + 1)) = None \<Longrightarrow> v + 1 \<le> u \<Longrightarrow> Contains ?p (Addr4 u) \<Longrightarrow> Addr4 u \<in> used"
      and IH': "freeFrom ?p used (Addr4 (v + 1)) = Some a \<Longrightarrow> \<exists>u. a = Addr4 u \<and> v + 1 \<le> u \<and> Contains ?p a \<and>
        a \<notin> used \<and> (\<forall>x. v + 1 \<le> x \<longrightarrow> x < u \<longrightarrow> Addr4 x \<in> used)" for u a by blast+
    have above: "x = v \<or> v + 1 \<le> x" if "v \<le> x" for x using that word_succ_le [OF 4(3), of x] by auto
    have below: "v \<le> x" if "v + 1 \<le> x" for x using that word_succ_le [OF 4(3), of x] by simp
    show ?thesis unfolding eq using IH IH' above below 4(2) by (intro conjI allI impI) metis+
  qed
qed

text \<open>
  The address handed out from an IPv4 pool is the lowest of its addresses that is not in use and
  not the network address; the pool is reported full exactly when there is none.
\<close>

theorem nextFreeIPv4_least:
  assumes "pool = Prefix (Addr4 w) (int b)" and "b \<le> 32"
  shows "case nextFreeIPv4 (Masked pool) used of
      None \<Rightarrow> hosts pool \<subseteq> used
    | Some a \<Rightarrow> a \<in> hosts pool - used \<and> (\<forall>a'\<in>hosts pool - used. \<not> addrLess a' a)"
proof -
  define n where "n = clear_low (32 - b) w"
  have m: "Masked pool = Prefix (Addr4 n) (int b)" using assms by (simp add: Masked4 n_def)
  have idem: "Masked (Masked pool) = Prefix (Addr4 n) (int b)"
    using assms by (simp add: Masked4 m n_def word_unat_eq_iff unat_clear_low)
  have same: "Contains pool a \<longleftrightarrow> Contains (Prefix (Addr4 n) (int b)) a" for a
    using Contains4_D [of w "int b" a] Contains4_D [of n "int b" a] assms
    by (cases a) (auto simp: Contains4 n_def unat_clear_low)
  have above: "n \<le> v" if "Contains pool (Addr4 v)" for v
  proof -
    have "unat n = unat v div 2 ^ (32 - b) * 2 ^ (32 - b)"
      using that assms by (simp add: Contains4 n_def unat_clear_low)
    then show ?thesis by (simp add: word_le_nat_alt)
  qed
  have "a \<in> hosts pool \<longleftrightarrow> (\<exists>v. a = Addr4 v \<and> Contains pool (Addr4 v) \<and> n < v)" for a
    using Contains4_D [of w "int b" a, folded assms(1)] above by (cases a) (auto simp: hosts_def m less_le)
  then have hosts: "hosts pool = Addr4 ` {v. Contains pool (Addr4 v) \<and> n < v}" by (auto simp: image_iff)
  show ?thesis
  proof (cases "n + 1 = 0")
    case True
    then have "n = - 1" by (simp add: eq_neg_iff_add_eq_0)
    then have "\<not> n < v" for v by simp
    then have "hosts pool = {}" using hosts by simp
    moreover have "nextFreeIPv4 (Masked pool) used = None"
      using True by (simp add: nextFreeIPv4_def idem freeFrom_cases)
    ultimately show ?thesis by simp
  next
    case False
    have "n \<le> n + 1" using False word_succ_le [OF False, of "n + 1"] by simp
    note free = freeFrom4 [OF this, of b used, unfolded word_succ_le [OF False]]
    have nxt: "nextFreeIPv4 (Masked pool) used = freeFrom (Prefix (Addr4 n) (int b)) used (Addr4 (n + 1))"
      using False by (simp add: nextFreeIPv4_def idem [unfolded m] m)
    show ?thesis
    proof (cases "freeFrom (Prefix (Addr4 n) (int b)) used (Addr4 (n + 1))")
      case None
      then show ?thesis using free by (auto simp: nxt hosts same)
    next
      case (Some a)
      then obtain u where "a = Addr4 u" "n < u" "Contains (Prefix (Addr4 n) (int b)) a" "a \<notin> used"
          "\<forall>x. n < x \<longrightarrow> x < u \<longrightarrow> Addr4 x \<in> used"
        using free by blast
      then show ?thesis
        using Some by (auto simp: nxt hosts same addrLess_def simp flip: word_less_nat_alt)
    qed
  qed
qed

theorem nextFreeIPv4_least_witness:
  "Addr4 3 \<in> hosts (Prefix (Addr4 2) 30) - {Addr4 1, Addr4 2}"
proof -
  have "nextFreeIPv4 (Masked (Prefix (Addr4 2) 30)) {Addr4 1, Addr4 2} = Some (Addr4 3)" by code_simp
  then show ?thesis using nextFreeIPv4_least [of "Prefix (Addr4 2) 30" 2 30 "{Addr4 1, Addr4 2}"] by simp
qed

subsection \<open>Addresses for tunnels that need one\<close>

definition needsIPv4 :: "settings \<Rightarrow> (int \<rightharpoonup> upstream) \<Rightarrow> tunnel \<Rightarrow> bool" where
  "needsIPv4 cfg byID t \<longleftrightarrow> resolvedV4Mode cfg byID t \<noteq> V4ModeOff"

text \<open>What one row may become: unchanged, or given an address of the pool when it needs one and had none.\<close>

definition v4_step :: "prefix \<Rightarrow> (tunnel \<Rightarrow> bool) \<Rightarrow> tunnel \<Rightarrow> tunnel \<Rightarrow> bool" where
  "v4_step pool needs t t' \<longleftrightarrow> t' = t \<or> needs t \<and> t_V4Address t = [] \<and>
     (\<exists>a now. Contains pool a \<and> t' = t\<lparr>t_V4Address := addrString a, t_V4Enabled := True, t_UpdatedAt := now\<rparr>)"

lemma addrString_nonempty: "Contains pool a \<Longrightarrow> addrString a \<noteq> []"
proof -
  assume c: "Contains pool a"
  then have "a \<noteq> NoAddr" by auto
  moreover have "\<not> hasZone a" using c by (cases pool) (simp add: Contains.simps split: if_splits)
  ultimately show ?thesis using ParseAddr_addrString [of a] by auto
qed

lemma v4_step_trans: "v4_step pool N t t' \<Longrightarrow> v4_step pool N t' t'' \<Longrightarrow> v4_step pool N t t''"
  using addrString_nonempty by (auto simp: v4_step_def)

lemma v4_steps_trans: "list_all2 (v4_step p N) xs ys \<Longrightarrow> list_all2 (v4_step p N) ys zs \<Longrightarrow> list_all2 (v4_step p N) xs zs"
  by (rule list_all2_trans [OF v4_step_trans])

lemma v4_step_key: "v4_step p N t t' \<Longrightarrow> t_ID t' = t_ID t" "v4_step p N t t' \<Longrightarrow> t_V4Address t \<noteq> [] \<Longrightarrow> t_V4Address t' \<noteq> []"
  by (auto simp: v4_step_def)

lemma freeFrom_Contains: "freeFrom p used a = Some a' \<Longrightarrow> Contains p a' \<and> a' \<notin> used"
  by (induction p used a rule: freeFrom.induct) (metis freeFrom_cases(2,3,4) option.distinct(1) option.inject)

lemma setRow_tunnel_Inr:
  assumes "setRow tunnel_uniques db_tunnels db_tunnels_update t_ID k f s = (Inr x, s')"
  shows "st_db s' = db_tunnels_update (updateRow t_ID k f) (st_db s)"
proof (cases "lookupRow t_ID k (db_tunnels (st_db s))")
  case None
  then have "updateRow t_ID k f (db_tunnels (st_db s)) = db_tunnels (st_db s)"
    by (auto simp: updateRow_def tunnel_table.lookup_None intro!: map_idI)
  then show ?thesis using assms None by (cases "st_db s") (auto simp: setRow_def sql_def Let_def split: if_splits)
next
  case (Some r)
  then show ?thesis using assms by (auto simp: setRow_def sql_def Let_def split: if_splits)
qed

lemma v4_steps_update:
  assumes "\<And>t. t \<in> set ts \<Longrightarrow> t_ID t = k \<Longrightarrow> v4_step p N t (f t)"
  shows "list_all2 (v4_step p N) ts (updateRow t_ID k f ts)"
  unfolding updateRow_def list_all2_conv_all_nth using assms by (auto simp: v4_step_def)

lemma tunnelV4Mode_zero: "tunnelV4Mode cfg up (zeroTunnel\<lparr>t_V4Mode := t_V4Mode t\<rparr>) = tunnelV4Mode cfg up t"
  by (simp add: tunnelV4Mode_def)

lemma assign_skip: "(case byID (t_UpstreamID t) of None \<Rightarrow> True
      | Some up \<Rightarrow> tunnelV4Mode cfg up (zeroTunnel\<lparr>t_V4Mode := t_V4Mode t\<rparr>) = V4ModeOff) \<longleftrightarrow> \<not> needsIPv4 cfg byID t"
  by (simp add: needsIPv4_def resolvedV4Mode_def tunnelV4Mode_zero split: option.split)

lemma assignIPv4_Inr:
  assumes "assignIPv4 pool cfg byID used ts s = (Inr x, s')" "distinct (map t_ID ts)"
    "distinct (map t_ID (db_tunnels (st_db s)))" "set ts \<subseteq> set (db_tunnels (st_db s))"
  shows "\<exists>rows. st_db s' = (st_db s)\<lparr>db_tunnels := rows\<rparr> \<and> list_all2 (v4_step (Masked pool) (needsIPv4 cfg byID)) (db_tunnels (st_db s)) rows \<and>
    (\<forall>t\<in>set ts. needsIPv4 cfg byID t \<longrightarrow> (\<forall>t'\<in>set rows. t_ID t' = t_ID t \<longrightarrow> t_V4Address t' \<noteq> []))"
  using assms
proof (induction ts arbitrary: used s)
  case Nil
  then show ?case by (intro exI [of _ "db_tunnels (st_db s)"]) (auto simp: v4_step_def intro: list_all2_refl)
next
  case (Cons t ts)
  let ?D = "db_tunnels (st_db s)"
  have here: "u = t" if "u \<in> set ?D" "t_ID u = t_ID t" for u
    using that Cons.prems(3,4) by (auto dest: inj_onD [OF distinct_map [THEN iffD1, THEN conjunct2]])
  show ?case
  proof (cases "needsIPv4 cfg byID t \<and> t_V4Address t = []")
    case False
    then have "assignIPv4 pool cfg byID used ts s = (Inr x, s')"
      using Cons.prems(1) by (auto simp: assign_skip split: if_splits)
    from Cons.IH [OF this] Cons.prems obtain rows where rows: "st_db s' = (st_db s)\<lparr>db_tunnels := rows\<rparr>"
        "list_all2 (v4_step (Masked pool) (needsIPv4 cfg byID)) ?D rows"
        "\<forall>t\<in>set ts. needsIPv4 cfg byID t \<longrightarrow> (\<forall>t'\<in>set rows. t_ID t' = t_ID t \<longrightarrow> t_V4Address t' \<noteq> [])" by auto
    have "t_V4Address t' \<noteq> []" if t': "needsIPv4 cfg byID t" "t' \<in> set rows" "t_ID t' = t_ID t" for t'
    proof -
      obtain u where "u \<in> set ?D" "v4_step (Masked pool) (needsIPv4 cfg byID) u t'"
        using rows(2) t'(2) by (metis in_set_conv_nth list_all2_conv_all_nth)
      then show ?thesis using here t' False v4_step_key by metis
    qed
    then show ?thesis using rows by auto
  next
    case True
    then obtain a now s1 s2 where st: "nextFreeIPv4 (Masked pool) used = Some a" "Now s = (Inr now, s1)"
      "setRow tunnel_uniques db_tunnels db_tunnels_update t_ID (t_ID t)
         (\<lambda>t. t\<lparr>t_V4Address := addrString a, t_V4Enabled := True, t_UpdatedAt := now\<rparr>) s1 = (Inr (), s2)"
      "assignIPv4 pool cfg byID (insert a used) ts s2 = (Inr x, s')"
      using Cons.prems(1) by (auto simp: assign_skip andThen_Inr split: option.splits)
    let ?f = "\<lambda>t. t\<lparr>t_V4Address := addrString a, t_V4Enabled := True, t_UpdatedAt := now\<rparr>"
    have a: "Contains (Masked pool) a" using st(1) freeFrom_Contains by (auto simp: nextFreeIPv4_def)
    have d2: "st_db s2 = db_tunnels_update (updateRow t_ID (t_ID t) ?f) (st_db s)"
      using setRow_tunnel_Inr [OF st(3)] Now_Inr [OF st(2)] by simp
    have keys: "map t_ID (updateRow t_ID (t_ID t) ?f ?D) = map t_ID ?D"
      by (rule tunnel_table.keys_update) simp
    have "set ts \<subseteq> set (updateRow t_ID (t_ID t) ?f ?D)"
    proof
      fix u assume "u \<in> set ts"
      then have "u \<in> set ?D" "t_ID u \<noteq> t_ID t" using Cons.prems(2,4) by (auto simp: image_iff)
      then show "u \<in> set (updateRow t_ID (t_ID t) ?f ?D)" by (force simp: updateRow_def)
    qed
    then obtain rows where rows: "st_db s' = (st_db s)\<lparr>db_tunnels := rows\<rparr>"
        "list_all2 (v4_step (Masked pool) (needsIPv4 cfg byID)) (updateRow t_ID (t_ID t) ?f ?D) rows"
        "\<forall>t\<in>set ts. needsIPv4 cfg byID t \<longrightarrow> (\<forall>t'\<in>set rows. t_ID t' = t_ID t \<longrightarrow> t_V4Address t' \<noteq> [])"
      using Cons.IH [OF st(4)] Cons.prems(2,3) keys by (auto simp: d2)
    have "v4_step (Masked pool) (needsIPv4 cfg byID) u (?f u)" if "u \<in> set ?D" "t_ID u = t_ID t" for u
      using here [OF that] True a unfolding v4_step_def by blast
    then have "list_all2 (v4_step (Masked pool) (needsIPv4 cfg byID)) ?D (updateRow t_ID (t_ID t) ?f ?D)"
      by (rule v4_steps_update)
    moreover have "t_V4Address t' \<noteq> []" if t': "t' \<in> set rows" "t_ID t' = t_ID t" for t'
    proof -
      obtain u where u: "u \<in> set (updateRow t_ID (t_ID t) ?f ?D)" "v4_step (Masked pool) (needsIPv4 cfg byID) u t'"
        using rows(2) t'(1) by (metis in_set_conv_nth list_all2_conv_all_nth)
      then have "t_ID u = t_ID t" using v4_step_key(1) t'(2) by metis
      then have "t_V4Address u = addrString a" using u(1) by (auto simp: updateRow_def split: if_splits)
      then show ?thesis using u(2) v4_step_key(2) addrString_nonempty [OF a] by metis
    qed
    ultimately show ?thesis using rows v4_steps_trans by (intro exI [of _ rows]) auto
  qed
qed

text \<open>The connections as \<open>upstreamsTx\<close> reads them, by identifier.\<close>

definition connectionsOf :: "db \<Rightarrow> (int \<rightharpoonup> upstream)" where
  "connectionsOf d = upstreamsByID (map scanUpstream (sort_key up_Name (db_upstreams d)))"

lemma ensureIPv4_Inr:
  assumes "ensureIPv4AllocationsTx pool cfg ups s = (Inr x, s')" "distinct (map t_ID (db_tunnels (st_db s)))"
  shows "\<exists>rows. st_db s' = (st_db s)\<lparr>db_tunnels := rows\<rparr> \<and> list_all2 (v4_step (Masked pool) (needsIPv4 cfg (upstreamsByID ups))) (db_tunnels (st_db s)) rows \<and>
    (\<forall>t\<in>set rows. needsIPv4 cfg (upstreamsByID ups) t \<longrightarrow> t_V4Address t \<noteq> [])"
proof -
  let ?D = "db_tunnels (st_db s)"
  obtain s1 used where s1: "st_db s1 = st_db s"
      "assignIPv4 pool cfg (upstreamsByID ups) used (sort_key t_ID ?D) s1 = (Inr x, s')"
    using assms(1) by (auto simp: ensureIPv4AllocationsTx_def andThen_Inr dest!: query_Inr)
  have "mset (map t_ID (sort_key t_ID ?D)) = mset (map t_ID ?D)" by simp
  then have "distinct (map t_ID (sort_key t_ID ?D))" using assms(2) mset_eq_imp_distinct_iff by blast
  with assignIPv4_Inr [OF s1(2)] assms(2) s1(1) obtain rows where rows: "st_db s' = (st_db s)\<lparr>db_tunnels := rows\<rparr>"
      "list_all2 (v4_step (Masked pool) (needsIPv4 cfg (upstreamsByID ups))) ?D rows"
      "\<forall>t\<in>set ?D. needsIPv4 cfg (upstreamsByID ups) t \<longrightarrow> (\<forall>t'\<in>set rows. t_ID t' = t_ID t \<longrightarrow> t_V4Address t' \<noteq> [])"
    by auto
  have "t_V4Address t' \<noteq> []" if t': "t' \<in> set rows" "needsIPv4 cfg (upstreamsByID ups) t'" for t'
  proof -
    obtain t where t: "t \<in> set ?D" "v4_step (Masked pool) (needsIPv4 cfg (upstreamsByID ups)) t t'"
      using rows(2) t'(1) by (metis in_set_conv_nth list_all2_conv_all_nth)
    then have "needsIPv4 cfg (upstreamsByID ups) t" "t_ID t' = t_ID t"
      using t'(2) by (auto simp: v4_step_def needsIPv4_def resolvedV4Mode_def tunnelV4Mode_def split: option.splits)
    then show ?thesis using rows(3) t(1) t'(1) by blast
  qed
  then show ?thesis using rows by blast
qed

text \<open>
  The search never proposes an address that is stored: when the driver fails no call, the UNIQUE
  column refuses none of the updates, and a full pool is the only failure.
\<close>

lemma no_clash:
  assumes "unique_in tunnel_uniques D" "distinct (map t_ID D)" "t \<in> set D" "a \<notin> used" "ParseAddr (addrString a) = Some a"
    and "\<forall>q\<in>set D. \<forall>b. ParseAddr (t_V4Address q) = Some b \<longrightarrow> b \<in> used"
  shows "clashes tunnel_uniques (t\<lparr>t_V4Address := addrString a, t_V4Enabled := True, t_UpdatedAt := now\<rparr>) (deleteRow t_ID (t_ID t) D) = []"
proof -
  have look: "lookupRow t_ID (t_ID t) D = Some t" using tunnel_table.lookup_distinct [OF assms(2)] assms(3) by simp
  have "updateRow t_ID (t_ID t) (\<lambda>r. r) D = D" by (simp add: updateRow_def)
  then have "mset D = mset (deleteRow t_ID (t_ID t) D @ [t])"
    using tunnel_table.update_split [OF assms(2) look, of "\<lambda>r. r"] by simp
  then have "unique_in tunnel_uniques (deleteRow t_ID (t_ID t) D @ [t])" using unique_in_perm assms(1) by blast
  then have "clashes tunnel_uniques t (deleteRow t_ID (t_ID t) D) = []" by (simp add: unique_in_insert)
  moreover have "nullable (t_V4Address q) \<noteq> Some (addrString a)" if "q \<in> set (deleteRow t_ID (t_ID t) D)" for q
    using that assms(4-6) by (auto simp: deleteRow_def nullable_def)
  ultimately show ?thesis
    by (auto simp: clashes_def tunnel_uniques_def list_ex_iff nullable_def split: if_splits)
qed

text \<open>The addresses rows hold, and a search over them that finds none free.\<close>

definition heldAddrs :: "tunnel list \<Rightarrow> addr set" where
  "heldAddrs rows = {b. \<exists>q\<in>set rows. ParseAddr (t_V4Address q) = Some b}"

definition full :: "prefix \<Rightarrow> nat \<Rightarrow> bool" where
  "full pool n \<longleftrightarrow> (\<exists>rows. length rows = n \<and> (\<exists>q\<in>set rows. t_V4Address q = []) \<and> nextFreeIPv4 (Masked pool) (heldAddrs rows) = None)"

lemma full_count:
  assumes "full pool n" "pool = Prefix (Addr4 w) (int b)" "b \<le> 32"
  shows "card (hosts pool) < n"
proof -
  obtain rows q where rows: "length rows = n" "q \<in> set rows" "t_V4Address q = []" "nextFreeIPv4 (Masked pool) (heldAddrs rows) = None"
    using assms(1) unfolding full_def by blast
  have none: "ParseAddr [] = None" by code_simp
  have "heldAddrs rows \<subseteq> (\<lambda>q. the (ParseAddr (t_V4Address q))) ` (set rows - {q})"
    using rows(3) none by (force simp: heldAddrs_def image_iff)
  moreover have "hosts pool \<subseteq> heldAddrs rows" using nextFreeIPv4_least [OF assms(2,3), of "heldAddrs rows"] rows(4) by simp
  ultimately have "card (hosts pool) \<le> card (set rows - {q})" by (meson List.finite_set finite_Diff order_trans surj_card_le)
  also have "\<dots> < card (set rows)" using rows(2) by (intro card_Diff1_less) simp_all
  also have "\<dots> \<le> n" using card_length rows(1) by metis
  finally show ?thesis .
qed

lemma held_update:
  assumes "distinct (map t_ID D)" "t \<in> set D" "ParseAddr (t_V4Address t) = None" "ParseAddr (t_V4Address (f t)) = Some a"
  shows "heldAddrs (updateRow t_ID (t_ID t) f D) = insert a (heldAddrs D)"
proof -
  have "t_ID u = t_ID t \<longleftrightarrow> u = t" if "u \<in> set D" for u using that assms(1,2) by (metis distinct_map inj_onD)
  then have "(\<lambda>u. if t_ID u = t_ID t then f u else u) ` set D = (\<lambda>u. if u = t then f u else u) ` set D" by (intro image_cong) simp_all
  then have "set (updateRow t_ID (t_ID t) f D) = insert (f t) (set D - {t})"
    using assms(2) unfolding updateRow_def set_map by auto
  then show ?thesis using assms(3,4) by (auto simp: heldAddrs_def)
qed

lemma assign_failure:
  assumes "assignIPv4 pool cfg byID used ts s = (Inl e, s')" "\<forall>n. \<not> st_fault s n" "wf_db (st_db s)" "distinct (map t_ID ts)"
    "set ts \<subseteq> set (db_tunnels (st_db s))" "used = heldAddrs (db_tunnels (st_db s))"
  shows "e = ErrPoolExhausted \<and> full pool (length (db_tunnels (st_db s)))"
  using assms
proof (induction ts arbitrary: used s)
  case (Cons t ts)
  let ?D = "db_tunnels (st_db s)"
  show ?case
  proof (cases "needsIPv4 cfg byID t \<and> t_V4Address t = []")
    case False
    then have "assignIPv4 pool cfg byID used ts s = (Inl e, s')" using Cons.prems(1) by (auto simp: assign_skip split: if_splits)
    then show ?thesis using Cons.IH Cons.prems by simp
  next
    case needs: True
    show ?thesis
    proof (cases "nextFreeIPv4 (Masked pool) used")
      case None
      then have "full pool (length ?D)" using Cons.prems(5,6) needs unfolding full_def by (intro exI [of _ ?D]) auto
      then show ?thesis using Cons.prems(1) needs None by (simp add: assign_skip)
    next
      case (Some a)
      define now s1 where "now = st_clock s (st_ticks s)" and "s1 = s\<lparr>st_ticks := Suc (st_ticks s)\<rparr>"
      let ?f = "\<lambda>t. t\<lparr>t_V4Address := addrString a, t_V4Enabled := True, t_UpdatedAt := now\<rparr>"
      let ?set = "setRow tunnel_uniques db_tunnels db_tunnels_update t_ID (t_ID t) ?f"
      define s2 where "s2 = snd (?set s1)"
      have s1: "Now s = (Inr now, s1)" "st_db s1 = st_db s" "\<forall>n. \<not> st_fault s1 n"
        using Cons.prems(2) by (simp_all add: Now_def now_def s1_def)
      have a: "Contains (Masked pool) a" "a \<notin> used" using Some freeFrom_Contains by (auto simp: nextFreeIPv4_def)
      have "\<not> hasZone a" using a(1) by (cases "Masked pool") (simp add: Contains.simps split: if_splits)
      moreover have "a \<noteq> NoAddr" using a(1) by auto
      ultimately have parsed: "ParseAddr (addrString a) = Some a" using ParseAddr_addrString [of a] by simp
      have D: "unique_in tunnel_uniques ?D" "distinct (map t_ID ?D)" "t \<in> set ?D" using Cons.prems(3,5) by (auto simp: wf_db_def wf_table_def)
      have look: "lookupRow t_ID (t_ID t) ?D = Some t" using tunnel_table.lookup_distinct [OF D(2)] D(3) by simp
      have held: "\<forall>q\<in>set ?D. \<forall>b. ParseAddr (t_V4Address q) = Some b \<longrightarrow> b \<in> used" using Cons.prems(6) by (auto simp: heldAddrs_def)
      have run: "?set s1 = (Inr (), s2)" and d2: "st_db s2 = db_tunnels_update (updateRow t_ID (t_ID t) ?f) (st_db s)" "\<forall>n. \<not> st_fault s2 n"
        using s1(2,3) look no_clash [OF D a(2) parsed held]
        by (simp_all add: s2_def setRow_def sql_def Let_def)
      have rest: "assignIPv4 pool cfg byID (insert a used) ts s2 = (Inl e, s')"
        using Cons.prems(1) needs Some s1(1) run by (simp add: assign_skip)
      have "wf_db (st_db s2)" using keepsD [OF keeps_set_tunnel _ run] Cons.prems(3) s1(2) by simp
      moreover have "set ts \<subseteq> set (db_tunnels (st_db s2))"
      proof
        fix u assume "u \<in> set ts"
        then have "u \<in> set ?D" "t_ID u \<noteq> t_ID t" using Cons.prems(4,5) by (auto simp: image_iff)
        then show "u \<in> set (db_tunnels (st_db s2))" unfolding d2 by (force simp: updateRow_def)
      qed
      moreover have "insert a used = heldAddrs (db_tunnels (st_db s2))"
      proof -
        have "ParseAddr [] = None" by code_simp
        then show ?thesis unfolding Cons.prems(6) using held_update [OF D(2,3), of ?f a] parsed needs by (simp add: d2)
      qed
      moreover have "length (db_tunnels (st_db s2)) = length ?D" unfolding d2 by (simp add: updateRow_def)
      ultimately show ?thesis using Cons.IH [OF rest d2(2)] Cons.prems(4) by simp
    qed
  qed
qed simp

lemma fault_kept:
  "keeps (\<lambda>s. st_fault s = F) (sql f)" "keeps (\<lambda>s. st_fault s = F) Now"
  by (auto simp: keeps_def sql_def Now_def Let_def split: prod.split)

lemma assign_fault: "keeps (\<lambda>s. st_fault s = F) (assignIPv4 pool cfg byID used ts)"
  by (induction ts arbitrary: used) (auto simp: setRow_def intro!: keeps_andThen keeps_simple fault_kept split: option.split)

lemma query_quiet: "\<forall>n. \<not> st_fault s n \<Longrightarrow> query f s = (Inr (f (st_db s)), s\<lparr>st_calls := Suc (st_calls s)\<rparr>)"
  by (simp add: query_def sql_def Let_def)

lemma ensure_failure:
  assumes "Store_EnsureIPv4Allocations cfg s = (Inl e, s')" "\<forall>n. \<not> st_fault s n" "wf_db (st_db s)" "ParsePrefix (V4Pool cfg) = Some pool"
  shows "e = ErrPoolExhausted \<and> full pool (length (db_tunnels (st_db s)))"
proof -
  let ?D = "db_tunnels (st_db s)"
  have keys: "mset (map t_ID (sort_key t_ID ?D)) = mset (map t_ID ?D)" by simp
  have "distinct (map t_ID (sort_key t_ID ?D))"
    using assms(3) mset_eq_imp_distinct_iff [OF keys] by (simp add: wf_db_def wf_table_def)
  moreover have "parsedAddrs (map t_V4Address (sort_key t_ID ?D)) = heldAddrs ?D"
    by (force simp: parsedAddrs_def map_filter_def heldAddrs_def)
  moreover
  define ups used s1 where "ups = upstreamsByID (map scanUpstream (sort_key up_Name (db_upstreams (st_db s))))"
    and "used = parsedAddrs (map t_V4Address (sort_key t_ID ?D))" and "s1 = s\<lparr>st_calls := st_calls s + 3\<rparr>"
  obtain r2 s2 where run: "assignIPv4 pool cfg ups used (sort_key t_ID ?D) s1 = (r2, s2)"
    by (cases "assignIPv4 pool cfg ups used (sort_key t_ID ?D) s1")
  have "st_fault s2 = st_fault s1" using keepsD [OF assign_fault _ run] by simp
  then have quiet: "\<forall>n. \<not> st_fault s2 n" "\<forall>n. \<not> st_fault s1 n" using assms(2) by (simp_all add: s1_def)
  have body: "andThen (query (\<lambda>_. ())) (\<lambda>_. andThen (andThen (liftResult (parsePrefixErr (V4Pool cfg))) (\<lambda>pool. andThen upstreamsTx (\<lambda>upstreams.
      ensureIPv4AllocationsTx pool cfg upstreams))) (\<lambda>x. andThen (query (\<lambda>_. ())) (\<lambda>_. return x))) s =
      (case r2 of Inl e \<Rightarrow> (Inl e, s2) | Inr x \<Rightarrow> andThen (query (\<lambda>_. ())) (\<lambda>_. return x) s2)"
    using assms(2,4) run
    by (simp add: query_quiet parsePrefixErr_def upstreamsTx_def ensureIPv4AllocationsTx_def ups_def used_def s1_def eval_nat_numeral andThen_def split: sum.split)
  then have "r2 = Inl e"
    using assms(1) quiet by (cases r2) (auto simp: Store_EnsureIPv4Allocations_def tx_def rollback_def query_quiet)
  moreover have "st_db s1 = st_db s" by (simp add: s1_def)
  ultimately show ?thesis using assign_failure [OF run [unfolded \<open>r2 = Inl e\<close>] quiet(2)] assms(3) by (simp add: used_def)
qed

text \<open>
  C18. When \<open>EnsureIPv4Allocations\<close> succeeds, every tunnel whose connection exists and whose mode is
  not off has an internal address, and a new one is given to such a tunnel only; addresses it had
  before are unchanged, a new one lies in the pool, no two tunnels share one, and nothing else in the
  database has changed. When no call of the driver fails it fails only because the pool does not
  parse or is exhausted, never because an address it chose is taken, and an IPv4 pool is exhausted
  only when it has fewer host addresses than there are tunnels.
\<close>

theorem ipv4_allocations_complete:
  assumes "wf_db (st_db s)" and "Store_EnsureIPv4Allocations cfg s = (r, s')"
  shows "(r = Inr () \<longrightarrow> (\<exists>pool rows. ParsePrefix (V4Pool cfg) = Some pool \<and> st_db s' = (st_db s)\<lparr>db_tunnels := rows\<rparr> \<and>
      list_all2 (v4_step (Masked pool) (needsIPv4 cfg (connectionsOf (st_db s)))) (db_tunnels (st_db s)) rows \<and>
      (\<forall>t\<in>set rows. needsIPv4 cfg (connectionsOf (st_db s)) t \<longrightarrow> t_V4Address t \<noteq> []) \<and>
      distinct (filter (\<lambda>a. a \<noteq> []) (map t_V4Address rows)))) \<and>
    (\<forall>e. r = Inl e \<and> (\<forall>n. \<not> st_fault s n) \<longrightarrow> ParsePrefix (V4Pool cfg) = None \<or> e = ErrPoolExhausted \<and>
      (\<forall>w b. ParsePrefix (V4Pool cfg) = Some (Prefix (Addr4 w) (int b)) \<longrightarrow> b \<le> 32 \<longrightarrow>
         card (hosts (Prefix (Addr4 w) (int b))) < length (db_tunnels (st_db s))))"
proof (intro conjI impI allI)
  fix e assume "r = Inl e \<and> (\<forall>n. \<not> st_fault s n)"
  then show "ParsePrefix (V4Pool cfg) = None \<or> e = ErrPoolExhausted \<and>
      (\<forall>w b. ParsePrefix (V4Pool cfg) = Some (Prefix (Addr4 w) (int b)) \<longrightarrow> b \<le> 32 \<longrightarrow>
         card (hosts (Prefix (Addr4 w) (int b))) < length (db_tunnels (st_db s)))"
    using ensure_failure assms full_count by (cases "ParsePrefix (V4Pool cfg)") auto
next
  assume ok: "r = Inr ()"
  obtain s1 s2 where s: "st_db s1 = st_db s" "st_db s' = st_db s2"
    and body: "andThen (liftResult (parsePrefixErr (V4Pool cfg))) (\<lambda>pool. andThen upstreamsTx (\<lambda>upstreams.
       ensureIPv4AllocationsTx pool cfg upstreams)) s1 = (Inr (), s2)"
    using assms(2) unfolding ok Store_EnsureIPv4Allocations_def by (rule tx_Inr) blast
  from body obtain pool ups s3 where pool: "parsePrefixErr (V4Pool cfg) = Inr pool"
    and ups: "upstreamsTx s1 = (Inr ups, s3)" and ens: "ensureIPv4AllocationsTx pool cfg ups s3 = (Inr (), s2)"
    by (auto simp: andThen_Inr)
  have d3: "st_db s3 = st_db s" and byeq: "upstreamsByID ups = connectionsOf (st_db s)"
    using query_Inr [OF ups [unfolded upstreamsTx_def]] s(1) by (auto simp: connectionsOf_def)
  have "distinct (map t_ID (db_tunnels (st_db s3)))" using assms(1) d3 by (simp add: wf_db_def wf_table_def)
  from ensureIPv4_Inr [OF ens this] obtain rows where rows: "st_db s2 = (st_db s)\<lparr>db_tunnels := rows\<rparr>"
      "list_all2 (v4_step (Masked pool) (needsIPv4 cfg (connectionsOf (st_db s)))) (db_tunnels (st_db s)) rows"
      "\<forall>t\<in>set rows. needsIPv4 cfg (connectionsOf (st_db s)) t \<longrightarrow> t_V4Address t \<noteq> []"
    unfolding d3 byeq by blast
  have "wf_db (st_db s')" using keepsD [OF keeps_EnsureIPv4 assms(1,2)] .
  then have "distinct (filter (\<lambda>v. v \<noteq> None) (map (\<lambda>t. nullable (t_V4Address t)) rows))"
    using s(2) rows(1) by (simp add: wf_db_def wf_table_def unique_in_def tunnel_uniques_def)
  moreover have "filter (\<lambda>v. v \<noteq> None) (map (\<lambda>t. nullable (t_V4Address t)) rows) =
      map Some (filter (\<lambda>a. a \<noteq> []) (map t_V4Address rows))"
    by (induction rows) (auto simp: nullable_def)
  ultimately have "distinct (filter (\<lambda>a. a \<noteq> []) (map t_V4Address rows))" by (simp add: distinct_map)
  moreover have "ParsePrefix (V4Pool cfg) = Some pool"
    using pool by (auto simp: parsePrefixErr_def split: option.splits)
  ultimately show "\<exists>pool rows. ParsePrefix (V4Pool cfg) = Some pool \<and> st_db s' = (st_db s)\<lparr>db_tunnels := rows\<rparr> \<and>
      list_all2 (v4_step (Masked pool) (needsIPv4 cfg (connectionsOf (st_db s)))) (db_tunnels (st_db s)) rows \<and>
      (\<forall>t\<in>set rows. needsIPv4 cfg (connectionsOf (st_db s)) t \<longrightarrow> t_V4Address t \<noteq> []) \<and>
      distinct (filter (\<lambda>a. a \<noteq> []) (map t_V4Address rows))"
    using rows s(2) by metis
qed

subsection \<open>Traffic accounting\<close>

lemma wrap64_id: "- (2 ^ 63) \<le> x \<Longrightarrow> x < 2 ^ 63 \<Longrightarrow> wrap64 x = x"
  by (simp add: wrap64_def)

text \<open>The bytes a counter has moved through its readings, restarting from zero when one is lower.\<close>

fun traffic :: "int \<Rightarrow> int list \<Rightarrow> int" where
  "traffic prev [] = 0"
| "traffic prev (c # cs) = (if prev \<le> c then c - prev else c) + traffic c cs"

lemma traffic_nonneg: "\<forall>c\<in>set cs. 0 \<le> c \<Longrightarrow> 0 \<le> traffic prev cs"
  by (induction cs arbitrary: prev) auto

definition counter_ok :: "int \<Rightarrow> bool" where
  "counter_ok c \<longleftrightarrow> 0 \<le> c \<and> c < 2 ^ 63"

lemma counterDelta_exact:
  "counter_ok p \<Longrightarrow> counter_ok c \<Longrightarrow> counterDelta p c = (if p \<le> c then c - p else c) \<and> 0 \<le> counterDelta p c"
  by (simp add: counterDelta_def counter_ok_def wrap64_id)

text \<open>One sample of the month \<open>m\<close>, and the row as the month finds it.\<close>

definition charge :: "string \<Rightarrow> tunnel \<Rightarrow> tunnel \<times> time \<Rightarrow> tunnel" where
  "charge m row sample = telemetryRow (fst sample) m (snd sample) row"

definition entered :: "string \<Rightarrow> tunnel \<Rightarrow> tunnel" where
  "entered m row = row\<lparr>t_QuotaPeriod := m, t_QuotaUsedBytes := (if t_QuotaPeriod row = m then t_QuotaUsedBytes row else 0)\<rparr>"

lemma charge_entered: "charge m (entered m row) x = charge m row x"
  by (cases row) (simp add: charge_def entered_def telemetryRow_def telemetryExceeded_def telemetryUsed_def Let_def)

lemma charges_entered: "xs \<noteq> [] \<Longrightarrow> foldl (charge m) (entered m row) xs = foldl (charge m) row xs"
  by (cases xs) (simp_all add: charge_entered)

text \<open>What the samples of a month show in both directions.\<close>

definition moved :: "tunnel \<Rightarrow> (tunnel \<times> time) list \<Rightarrow> int" where
  "moved old xs = traffic (t_RXBytes old) (map (\<lambda>x. t_RXBytes (fst x)) xs) + traffic (t_TXBytes old) (map (\<lambda>x. t_TXBytes (fst x)) xs)"

definition counters_ok :: "tunnel \<Rightarrow> bool" where
  "counters_ok t \<longleftrightarrow> counter_ok (t_RXBytes t) \<and> counter_ok (t_TXBytes t)"

lemma moved_nonneg: "\<forall>x\<in>set xs. counters_ok (fst x) \<Longrightarrow> 0 \<le> moved old xs"
  unfolding moved_def by (intro add_nonneg_nonneg traffic_nonneg) (auto simp: counters_ok_def counter_ok_def)

lemma charge_fields [simp]: "t_QuotaPeriod (charge m old x) = m" "t_QuotaGiB (charge m old x) = t_QuotaGiB old"
  "t_RXBytes (charge m old x) = t_RXBytes (fst x)" "t_TXBytes (charge m old x) = t_TXBytes (fst x)"
  by (simp_all add: charge_def telemetryRow_def Let_def)

lemma charges_fields [simp]: "t_QuotaGiB (foldl (charge m) old xs) = t_QuotaGiB old"
  "xs \<noteq> [] \<Longrightarrow> t_QuotaPeriod (foldl (charge m) old xs) = m"
  by (induction xs arbitrary: old) (simp, simp, simp, metis charge_fields(1) foldl_Cons foldl_Nil)

text \<open>One sample adds the traffic it shows.\<close>

lemma charge_used:
  assumes "counters_ok (fst x)" "counters_ok old" "0 \<le> t_QuotaUsedBytes old" "t_QuotaPeriod old = m"
    and "t_QuotaUsedBytes old + moved old [x] < 2 ^ 63"
  shows "t_QuotaUsedBytes (charge m old x) = t_QuotaUsedBytes old + moved old [x]"
proof -
  obtain t now where x: "x = (t, now)" by (cases x)
  let ?dr = "if t_RXBytes old \<le> t_RXBytes t then t_RXBytes t - t_RXBytes old else t_RXBytes t"
  let ?dt = "if t_TXBytes old \<le> t_TXBytes t then t_TXBytes t - t_TXBytes old else t_TXBytes t"
  have d: "counterDelta (t_RXBytes old) (t_RXBytes t) = ?dr" "counterDelta (t_TXBytes old) (t_TXBytes t) = ?dt"
    "0 \<le> ?dr" "0 \<le> ?dt"
    using counterDelta_exact [of "t_RXBytes old" "t_RXBytes t"] counterDelta_exact [of "t_TXBytes old" "t_TXBytes t"] assms(1,2)
    by (auto simp: counters_ok_def x)
  have total: "t_QuotaUsedBytes old + ?dr + ?dt < 2 ^ 63" and m: "moved old [x] = ?dr + ?dt"
    using assms(5) by (simp_all add: moved_def x)
  have "telemetryUsed old t m = wrap64 (t_QuotaUsedBytes old + wrap64 (?dr + ?dt))"
    by (simp only: telemetryUsed_def d assms(4) if_False simp_thms)
  also have "wrap64 (?dr + ?dt) = ?dr + ?dt"
    by (rule wrap64_id) (use d(3,4) total assms(3) in linarith)+
  also have "wrap64 (t_QuotaUsedBytes old + (?dr + ?dt)) = t_QuotaUsedBytes old + (?dr + ?dt)"
    by (rule wrap64_id) (use d(3,4) total assms(3) in linarith)+
  finally show ?thesis unfolding m by (simp add: charge_def x telemetryRow_def Let_def)
qed

lemma quota_limit:
  assumes "validateQuota q = None"
  shows "overQuota q used \<longleftrightarrow> q * 2 ^ 30 \<le> used" "0 < q"
proof -
  have q: "1 \<le> q" "q \<le> 2 ^ 33 - 1" using assms by (auto simp: validateQuota_def split: if_splits)
  then have "wrap64 (q * 2 ^ 30) = q * 2 ^ 30" by (intro wrap64_id) auto
  then show "overQuota q used \<longleftrightarrow> q * 2 ^ 30 \<le> used" by (simp add: overQuota_def)
  show "0 < q" using q(1) by simp
qed

lemma charge_flags:
  assumes "validateQuota (t_QuotaGiB old) = None"
  shows "t_QuotaDisabled (charge m old x) \<longleftrightarrow> t_QuotaGiB old * 2 ^ 30 \<le> t_QuotaUsedBytes (charge m old x)"
    "t_Enabled (charge m old x) \<longleftrightarrow> t_Enabled old \<and> t_QuotaUsedBytes (charge m old x) < t_QuotaGiB old * 2 ^ 30"
  using quota_limit [OF assms] by (auto simp: charge_def telemetryRow_def telemetryExceeded_def Let_def)

text \<open>A series of samples: the usage grows with the traffic, and the flags follow from the last sample.\<close>

lemma charges:
  assumes "\<forall>x\<in>set xs. counters_ok (fst x)" "counters_ok old" "0 \<le> t_QuotaUsedBytes old" "t_QuotaPeriod old = m"
    and "t_QuotaUsedBytes old + moved old xs < 2 ^ 63" "validateQuota (t_QuotaGiB old) = None" "xs \<noteq> []"
  shows "t_QuotaUsedBytes (foldl (charge m) old xs) = t_QuotaUsedBytes old + moved old xs \<and>
    (t_QuotaDisabled (foldl (charge m) old xs) \<longleftrightarrow> t_QuotaGiB old * 2 ^ 30 \<le> t_QuotaUsedBytes old + moved old xs) \<and>
    (t_Enabled (foldl (charge m) old xs) \<longleftrightarrow> t_Enabled old \<and> t_QuotaUsedBytes old + moved old xs < t_QuotaGiB old * 2 ^ 30)"
  using assms
proof (induction xs arbitrary: old)
  case (Cons x xs)
  have split: "moved old (x # xs) = moved old [x] + moved (charge m old x) xs" by (simp add: moved_def)
  have pos: "0 \<le> moved old [x]" "0 \<le> moved (charge m old x) xs" using Cons.prems(1) by (auto intro!: moved_nonneg)
  have used: "t_QuotaUsedBytes (charge m old x) = t_QuotaUsedBytes old + moved old [x]"
    by (rule charge_used) (use Cons.prems pos split in auto)
  note flags = charge_flags [OF Cons.prems(6), of m x, unfolded used]
  show ?case
  proof (cases "xs = []")
    case True
    then show ?thesis using used flags by simp
  next
    case False
    have "counters_ok (charge m old x)" using Cons.prems(1) by (simp add: counters_ok_def)
    then have "t_QuotaUsedBytes (foldl (charge m) (charge m old x) xs) = t_QuotaUsedBytes (charge m old x) + moved (charge m old x) xs \<and>
      (t_QuotaDisabled (foldl (charge m) (charge m old x) xs) \<longleftrightarrow> t_QuotaGiB old * 2 ^ 30 \<le> t_QuotaUsedBytes (charge m old x) + moved (charge m old x) xs) \<and>
      (t_Enabled (foldl (charge m) (charge m old x) xs) \<longleftrightarrow> t_Enabled (charge m old x) \<and>
         t_QuotaUsedBytes (charge m old x) + moved (charge m old x) xs < t_QuotaGiB old * 2 ^ 30)"
      using Cons.IH [of "charge m old x"] Cons.prems used pos split False by simp
    then show ?thesis using used flags(2) pos split by auto
  qed
qed simp

lemma UpdateTelemetry_Inr:
  assumes "Store_UpdateTelemetry t now s = (Inr hit, s')" "lookupRow t_ID (t_ID t) (db_tunnels (st_db s)) = Some old"
  shows "lookupRow t_ID (t_ID t) (db_tunnels (st_db s')) = Some (charge (quotaMonth now) old (t, now))"
proof -
  obtain s1 s2 where s: "st_db s1 = st_db s" "st_db s' = st_db s2"
    and body: "andThen (queryRow (\<lambda>d. lookupRow t_ID (t_ID t) (db_tunnels d))) (\<lambda>old.
       let period = quotaMonth now; quotaDisabled = (if t_QuotaPeriod old \<noteq> period then False else t_QuotaDisabled old)
       in andThen (exec (db_tunnels_update (updateRow t_ID (t_ID t) (telemetryRow t period now)))) (\<lambda>_.
          return (telemetryExceeded old t period \<and> \<not> quotaDisabled))) s1 = (Inr hit, s2)"
    using assms(1) unfolding Store_UpdateTelemetry_def by (rule tx_Inr) blast
  have "st_db s2 = db_tunnels_update (updateRow t_ID (t_ID t) (telemetryRow t (quotaMonth now) now)) (st_db s)"
    using body s(1) by (auto simp: andThen_Inr Let_def dest!: queryRow_Inr exec_Inr)
  then show ?thesis
    using assms(2) s(2)
    by (simp add: tunnel_table.lookup_update telemetryRow_def Let_def charge_def)
qed

lemma samples_Inr:
  assumes "each (\<lambda>(t, now). ignore (Store_UpdateTelemetry t now)) samples s = (Inr (), s')"
    "lookupRow t_ID k (db_tunnels (st_db s)) = Some old" "\<forall>x\<in>set samples. t_ID (fst x) = k \<and> quotaMonth (snd x) = m"
  shows "lookupRow t_ID k (db_tunnels (st_db s')) = Some (foldl (charge m) old samples)"
  using assms
proof (induction samples arbitrary: s old)
  case (Cons x xs)
  obtain t now where x: "x = (t, now)" by (cases x)
  obtain hit s1 where s1: "Store_UpdateTelemetry t now s = (Inr hit, s1)"
      "each (\<lambda>(t, now). ignore (Store_UpdateTelemetry t now)) xs s1 = (Inr (), s')"
    using Cons.prems(1) by (auto simp: x andThen_Inr ignore_def)
  have "lookupRow t_ID k (db_tunnels (st_db s1)) = Some (charge m old (t, now))"
    using UpdateTelemetry_Inr [OF s1(1)] Cons.prems(2,3) by (auto simp: x)
  from Cons.IH [OF s1(2) this] Cons.prems(3) show ?case by (simp add: x)
qed simp

lemma lookup_map:
  assumes "\<And>t. t_ID (f t) = t_ID t"
  shows "lookupRow t_ID k (map f rows) = map_option f (lookupRow t_ID k rows)"
  using assms by (induction rows) (auto simp: lookupRow_def)

lemma ResetMonthlyQuotas_Inr:
  assumes "Store_ResetMonthlyQuotas now s = (Inr (), s')" "lookupRow t_ID k (db_tunnels (st_db s)) = Some old"
  shows "lookupRow t_ID k (db_tunnels (st_db s')) = Some (resetRow (quotaMonth now) now old)"
proof -
  have "st_db s' = db_tunnels_update (map (resetRow (quotaMonth now) now)) (st_db s)"
    using assms(1) unfolding Store_ResetMonthlyQuotas_def by (rule exec_Inr)
  moreover have "t_ID (resetRow (quotaMonth now) now t) = t_ID t" for t by (simp add: resetRow_def)
  ultimately show ?thesis using assms(2) by (simp add: lookup_map)
qed

lemma resetRow_fields:
  "entered m (resetRow m now old) = (resetRow m now old)" "t_QuotaUsedBytes (resetRow m now old) = t_QuotaUsedBytes (entered m old)"
  "t_QuotaPeriod (resetRow m now old) = m" "t_QuotaGiB (resetRow m now old) = t_QuotaGiB old"
  "t_RXBytes (resetRow m now old) = t_RXBytes old" "t_TXBytes (resetRow m now old) = t_TXBytes old"
  "t_Enabled (resetRow m now old) \<longleftrightarrow> t_Enabled old \<or> t_QuotaPeriod old \<noteq> m \<and> t_QuotaDisabled old"
  by (cases old; auto simp: resetRow_def entered_def)+

text \<open>
  C10. The samples of a month charge exactly the traffic they show: after a series of samples of one
  month, with or without the monthly reset before it, the tunnel's usage is what it had used in that
  month, zero when its stored month is another, plus the traffic of the samples, restarts of a counter
  included; it is marked as over quota exactly when the usage has reached the quota, and it is enabled
  exactly when the usage is below the quota and it was enabled before, or the reset found it disabled
  by the quota of another month.
\<close>

theorem quota_accounting:
  assumes "lookupRow t_ID k (db_tunnels (st_db s)) = Some old" and "samples \<noteq> []"
    and "andThen (if reset then Store_ResetMonthlyQuotas start else return ())
           (\<lambda>_. each (\<lambda>(t, now). ignore (Store_UpdateTelemetry t now)) samples) s = (Inr (), s')"
    and "\<forall>x\<in>set samples. t_ID (fst x) = k \<and> quotaMonth (snd x) = quotaMonth start \<and> counters_ok (fst x)"
    and "counters_ok old" and "0 \<le> t_QuotaUsedBytes old"
    and "before = (if t_QuotaPeriod old = quotaMonth start then t_QuotaUsedBytes old else 0)"
    and "used = before + traffic (t_RXBytes old) (map (\<lambda>x. t_RXBytes (fst x)) samples) +
           traffic (t_TXBytes old) (map (\<lambda>x. t_TXBytes (fst x)) samples)"
    and "used < 2 ^ 63" and "validateQuota (t_QuotaGiB old) = None"
  shows "\<exists>new. lookupRow t_ID k (db_tunnels (st_db s')) = Some new \<and>
    t_QuotaPeriod new = quotaMonth start \<and> t_QuotaUsedBytes new = used \<and>
    (t_QuotaDisabled new \<longleftrightarrow> t_QuotaGiB old * 2 ^ 30 \<le> used) \<and>
    (t_Enabled new \<longleftrightarrow> used < t_QuotaGiB old * 2 ^ 30 \<and>
       (t_Enabled old \<or> reset \<and> t_QuotaPeriod old \<noteq> quotaMonth start \<and> t_QuotaDisabled old))"
proof -
  let ?m = "quotaMonth start"
  define row where "row = (if reset then resetRow ?m start old else entered ?m old)"
  have row: "t_QuotaUsedBytes row = before" "t_QuotaPeriod row = ?m" "t_QuotaGiB row = t_QuotaGiB old" "counters_ok row"
    "moved row samples = used - before"
    "t_Enabled row \<longleftrightarrow> t_Enabled old \<or> reset \<and> t_QuotaPeriod old \<noteq> ?m \<and> t_QuotaDisabled old"
    using assms(5,7,8) by (auto simp: row_def resetRow_fields entered_def counters_ok_def moved_def)
  have "lookupRow t_ID k (db_tunnels (st_db s')) = Some (foldl (charge ?m) row samples)"
  proof (cases reset)
    case True
    then obtain s1 where s1: "Store_ResetMonthlyQuotas start s = (Inr (), s1)"
        "each (\<lambda>(t, now). ignore (Store_UpdateTelemetry t now)) samples s1 = (Inr (), s')"
      using assms(3) by (auto simp: andThen_Inr)
    show ?thesis
      using samples_Inr [OF s1(2) ResetMonthlyQuotas_Inr [OF s1(1) assms(1)]] assms(4) True by (simp add: row_def)
  next
    case False
    then show ?thesis
      using samples_Inr [OF _ assms(1)] assms(3,4) charges_entered [OF assms(2)] by (simp add: row_def)
  qed
  moreover have "0 \<le> before" using assms(6,7) by simp
  ultimately show ?thesis
    using charges [of samples row ?m] row assms(2,4,9,10) by auto
qed

definition january :: time where
  "january = 739616 * 86400 * 10 ^ 9"

definition february :: time where
  "february = january + 31 * 86400 * 10 ^ 9"



definition waiting_store :: store where
  "waiting_store = quiet_store\<lparr>st_db := freshDB\<lparr>db_upstreams := [sample_routed],
     db_tunnels := [sample_tunnel\<lparr>t_ID := 1, t_RoutingGroups := []\<rparr>]\<rparr>\<rparr>"

definition native_settings :: settings where
  "native_settings = \<lparr>V4NAT = True, V4Warp = False, V4Pool = ''0.0.0.0/30'', DefaultDNS = [], InterTunnelPolicy = ''isolated''\<rparr>"

theorem ipv4_allocations_complete_witness:
  "\<exists>s'. Store_EnsureIPv4Allocations native_settings waiting_store = (Inr (), s') \<and>
     (\<exists>rows. st_db s' = (st_db waiting_store)\<lparr>db_tunnels := rows\<rparr> \<and> rows \<noteq> [] \<and>
        distinct (filter (\<lambda>a. a \<noteq> []) (map t_V4Address rows)))"
proof -
  have "fst (Store_EnsureIPv4Allocations native_settings waiting_store) = Inr ()" by code_simp
  then have run: "Store_EnsureIPv4Allocations native_settings waiting_store =
      (Inr (), snd (Store_EnsureIPv4Allocations native_settings waiting_store))" by (simp add: prod_eq_iff)
  have wf: "wf_db (st_db waiting_store)" and some: "db_tunnels (st_db waiting_store) \<noteq> []" by code_simp+
  obtain pool rows where "st_db (snd (Store_EnsureIPv4Allocations native_settings waiting_store)) = (st_db waiting_store)\<lparr>db_tunnels := rows\<rparr>"
    "list_all2 (v4_step (Masked pool) (needsIPv4 native_settings (connectionsOf (st_db waiting_store)))) (db_tunnels (st_db waiting_store)) rows"
    "distinct (filter (\<lambda>a. a \<noteq> []) (map t_V4Address rows))"
    using ipv4_allocations_complete [OF wf run] by blast
  then show ?thesis using run some by fastforce
qed

text \<open>A store in which a tunnel has spent its quota of January, reached from an empty one.\<close>

definition spending :: store where
  "spending = snd (run_op (OpInsertTunnel (sample_tunnel\<lparr>t_RoutingGroups := [], t_QuotaGiB := 1, t_QuotaPeriod := ''2026-01''\<rparr>) ''a'') quiet_store)"

definition spent :: store where
  "spent = snd (run_op (OpUpdateTelemetry (sample_tunnel\<lparr>t_ID := 1, t_RXBytes := 2 ^ 30\<rparr>) january) spending)"


definition spent_row :: tunnel where
  "spent_row = zeroTunnel\<lparr>t_ID := 1, t_UpstreamID := 1, t_Label := ''l'', t_PublicKey := ''k'', t_V6CIDR := ''::/112'',
     t_Status := ''quota-exceeded'', t_QuotaGiB := 1, t_QuotaUsedBytes := 2 ^ 30, t_QuotaPeriod := ''2026-01'', t_QuotaDisabled := True,
     t_RXBytes := 2 ^ 30, t_UpdatedAt := january\<rparr>"

lemma spent_rows: "db_tunnels (st_db spent) = [spent_row]"
  by code_simp

lemma spent_months: "t_QuotaPeriod spent_row = quotaMonth january" "quotaMonth february \<noteq> quotaMonth january"
  by code_simp+

lemma spent_fields: "t_ID spent_row = 1" "t_QuotaUsedBytes spent_row = 2 ^ 30" "t_QuotaGiB spent_row = 1" "t_QuotaDisabled spent_row"
  "t_RXBytes spent_row = 2 ^ 30" "t_TXBytes spent_row = 0"
  by (simp_all add: spent_row_def zeroTunnel_def)

text \<open>A driver that fails no call.\<close>

lemma rollback_fault: "st_fault (snd (rollback d r)) = st_fault (snd r)"
  by (auto simp: rollback_def split: prod.split sum.split)

lemma fault_tx: "keeps (\<lambda>s. st_fault s = F) m \<Longrightarrow> keeps (\<lambda>s. st_fault s = F) (tx m)"
proof -
  assume "keeps (\<lambda>s. st_fault s = F) m"
  then have "keeps (\<lambda>s. st_fault s = F) (andThen (query (\<lambda>_. ())) (\<lambda>_. andThen m (\<lambda>x. andThen (query (\<lambda>_. ())) (\<lambda>_. return x))))"
    unfolding query_def by (intro keeps_andThen fault_kept keeps_simple)
  then show ?thesis by (simp add: keeps_def tx_def rollback_fault)
qed

lemma fault_methods:
  "keeps (\<lambda>s. st_fault s = F) (Store_UpdateTelemetry t now)" "keeps (\<lambda>s. st_fault s = F) (Store_InsertTunnel t admin)"
  unfolding Store_UpdateTelemetry_def Store_InsertTunnel_def addRow_def setTunnelRoutingGroupsTx_def requireGroup_def insertMember_def
    auditRow_def query_def queryRow_def exec_def Let_def
  by (intro keeps_andThen keeps_each keeps_simple fault_kept fault_tx)+

lemma spent_quiet: "st_fault spent = (\<lambda>_. False)"
proof -
  have "keeps (\<lambda>s. st_fault s = (\<lambda>_. False)) (run_op (OpInsertTunnel t admin))"
    "keeps (\<lambda>s. st_fault s = (\<lambda>_. False)) (run_op (OpUpdateTelemetry t now))" for t admin now
    unfolding run_op.simps ignore_def by (intro keeps_andThen keeps_simple fault_methods)+
  moreover have "st_fault quiet_store = (\<lambda>_. False)" by (simp add: quiet_store_def)
  ultimately show ?thesis unfolding spent_def spending_def keeps_def by blast
qed

lemma quiet_telemetry:
  assumes "st_fault s = (\<lambda>_. False)" "lookupRow t_ID (t_ID t) (db_tunnels (st_db s)) = Some old"
  shows "\<exists>hit s'. Store_UpdateTelemetry t now s = (Inr hit, s') \<and> st_fault s' = (\<lambda>_. False)"
  using assms by (simp add: Store_UpdateTelemetry_def tx_def rollback_def query_def queryRow_def exec_def sql_def andThen_def Let_def)

lemma quiet_methods:
  assumes "st_fault s = (\<lambda>_. False)"
  shows "\<exists>s'. Store_SetEnabled k on admin s = (Inr (), s') \<and> st_fault s' = (\<lambda>_. False)"
    and "\<exists>s'. Store_ResetMonthlyQuotas now s = (Inr (), s') \<and> st_fault s' = (\<lambda>_. False)"
  using assms by (simp_all add: Store_SetEnabled_def Store_ResetMonthlyQuotas_def exec_def sql_def auditRow_def Now_def andThen_def Let_def)

theorem quota_accounting_witness:
  "\<exists>s' new. andThen (if True then Store_ResetMonthlyQuotas february else return ())
       (\<lambda>_. each (\<lambda>(t, now). ignore (Store_UpdateTelemetry t now)) [(spent_row\<lparr>t_RXBytes := 2 ^ 30 + 5\<rparr>, february)]) spent = (Inr (), s') \<and>
     lookupRow t_ID 1 (db_tunnels (st_db s')) = Some new \<and> t_QuotaUsedBytes new = 5 \<and> \<not> t_QuotaDisabled new \<and> t_Enabled new"
proof -
  let ?t = "spent_row\<lparr>t_RXBytes := 2 ^ 30 + 5\<rparr>"
  have row: "lookupRow t_ID 1 (db_tunnels (st_db spent)) = Some spent_row" by (simp add: spent_rows lookupRow_def spent_fields)
  obtain s1 where s1: "Store_ResetMonthlyQuotas february spent = (Inr (), s1)" "st_fault s1 = (\<lambda>_. False)"
    using quiet_methods(2) [OF spent_quiet] by blast
  have "lookupRow t_ID (t_ID ?t) (db_tunnels (st_db s1)) = Some (resetRow (quotaMonth february) february spent_row)"
    using ResetMonthlyQuotas_Inr [OF s1(1) row] by (simp add: spent_fields)
  then obtain hit s' where "Store_UpdateTelemetry ?t february s1 = (Inr hit, s')" using quiet_telemetry [OF s1(2)] by blast
  then have run: "andThen (if True then Store_ResetMonthlyQuotas february else return ())
       (\<lambda>_. each (\<lambda>(t, now). ignore (Store_UpdateTelemetry t now)) [(?t, february)]) spent = (Inr (), s')"
    using s1(1) by (simp add: ignore_def)
  have ok: "validateQuota 1 = None" by code_simp
  show ?thesis
    using quota_accounting [OF row _ run, of 0 5] run spent_fields spent_months ok by (auto simp: counters_ok_def counter_ok_def)
qed


end
