(* ===== verification/Service.thy ===== *)
theory Service
  imports Store_Accounting
begin

section \<open>The application (the stateful half of internal/broker/service.go)\<close>

text \<open>
  One action per method of \<open>App\<close>, named \<open>App_<method>\<close>. Every method that takes the mutex runs as one
  action; the store's clock, driver and rows are a component of the state. What the methods call
  outside the package is the record \<open>env\<close>: the \<open>Kernel\<close> interface, key generation, password
  hashing and the random index of the allocator. The n-th generated key is \<open>e_key n\<close>, so that keys may
  differ from call to call and may fail. \<open>e_text\<close> renders an error as text.

  \<open>Apply\<close> gets the slice of tunnels and writes telemetry into it; the model uses the tunnels it
  returns and reads the others again from the store, as the code does, so that this aliasing has
  no effect on what is stored.
\<close>

record 'k env =
  e_Apply :: "settings \<Rightarrow> warp_account \<Rightarrow> upstream list \<Rightarrow> tunnel list \<Rightarrow> ('k, tunnel list) action"
  e_Inspect :: "settings \<Rightarrow> warp_account \<Rightarrow> upstream list \<Rightarrow> tunnel list \<Rightarrow> ('k, string list) action"
  e_Remove :: "upstream \<Rightarrow> tunnel \<Rightarrow> ('k, unit) action"
  e_RemoveUpstream :: "upstream \<Rightarrow> ('k, unit) action"
  e_TestWarp :: "settings \<Rightarrow> warp_account \<Rightarrow> ('k, string) action"
  e_key :: "nat \<Rightarrow> string result"          \<comment> \<open>wgtypes.GeneratePrivateKey and GenerateKey, as text\<close>
  e_publicKey :: "string \<Rightarrow> string"       \<comment> \<open>the public key of a private key\<close>
  e_validKey :: "string \<Rightarrow> bool"          \<comment> \<open>wgtypes.ParseKey succeeds\<close>
  e_rand :: "nat \<Rightarrow> nat \<Rightarrow> int result"     \<comment> \<open>crypto/rand.Int, by use and bound\<close>
  e_hash :: "string \<Rightarrow> string result"     \<comment> \<open>bcrypt.GenerateFromPassword\<close>
  e_compare :: "string \<Rightarrow> string \<Rightarrow> bool" \<comment> \<open>bcrypt.CompareHashAndPassword succeeds\<close>
  e_unicode :: unicode
  e_text :: "error \<Rightarrow> string"

record session =
  s_Username :: string
  s_CSRF :: string
  s_Expires :: time

record 'k app =
  app_store :: store
  app_kernel :: 'k
  app_health :: health
  app_sessions :: "string \<rightharpoonup> session"
  app_draws :: nat                       \<comment> \<open>uses of randomness so far\<close>

definition App_New :: "store \<Rightarrow> 'k \<Rightarrow> 'k app" where
  "App_New s k = \<lparr>app_store = s, app_kernel = k, app_health = \<lparr>h_Drift = [], h_LastReconcile = 0, h_Error = []\<rparr>,
     app_sessions = Map.empty, app_draws = 0\<rparr>"

definition onStore :: "(store, 'a) action \<Rightarrow> ('k app, 'a) action" where
  "onStore m = zoom app_store app_store_update m"

definition onKernel :: "('k, 'a) action \<Rightarrow> ('k app, 'a) action" where
  "onKernel m = zoom app_kernel app_kernel_update m"

definition draw :: "(nat \<Rightarrow> 'a result) \<Rightarrow> ('k app, 'a) action" where
  "draw f s = (f (app_draws s), s\<lparr>app_draws := Suc (app_draws s)\<rparr>)"

definition wrapError :: "string \<Rightarrow> string list \<Rightarrow> ('s, 'a) action \<Rightarrow> ('s, 'a) action" where
  "wrapError msg args m = mapError (Wrapf msg args) m"

definition setHealthError :: "string \<Rightarrow> ('k app, unit) action" where
  "setHealthError msg = modify (\<lambda>s. s\<lparr>app_health := (app_health s)\<lparr>h_Error := msg\<rparr>\<rparr>)"

subsection \<open>Administrators\<close>

definition App_BootstrapAdmin :: "'k env \<Rightarrow> string \<Rightarrow> string \<Rightarrow> ('k app, unit) action" where
  "App_BootstrapAdmin E user password =
     andThen (onStore Store_AdminCount) (\<lambda>n.
     if 0 < n then return ()
     else if user = [] \<or> password = []
     then throw (newError ''no admin exists: set OTB_ADMIN_PASSWORD for first start'')
     else if length password < 12
     then throw (newError ''bootstrap admin password must be at least 12 characters'')
     else andThen (liftResult (e_hash E password)) (\<lambda>h. onStore (Store_AddAdmin user h)))"

definition App_Authenticate :: "'k env \<Rightarrow> string \<Rightarrow> string \<Rightarrow> ('k app, bool) action" where
  "App_Authenticate E user password =
     andThen (attempt (onStore (Store_AdminHash user))) (\<lambda>r.
     return (case r of Inl _ \<Rightarrow> False | Inr h \<Rightarrow> e_compare E h password))"

subsection \<open>Reconciliation\<close>

definition clearHealth :: "time \<Rightarrow> ('k app, unit) action" where
  "clearHealth now = modify (\<lambda>s. s\<lparr>app_health := \<lparr>h_Drift = [], h_LastReconcile = now, h_Error = []\<rparr>\<rparr>)"

definition noteReconcile :: "time \<Rightarrow> ('k app, unit) action" where
  "noteReconcile now = modify (\<lambda>s. s\<lparr>app_health := (app_health s)\<lparr>h_LastReconcile := now\<rparr>\<rparr>)"

text \<open>A failure of the kernel is recorded as the health error and returned.\<close>

definition orHealth :: "'k env \<Rightarrow> ('k app, 'a) action \<Rightarrow> ('k app, 'a) action" where
  "orHealth E m = andThen (attempt m) (\<lambda>r. case r of
       Inr x \<Rightarrow> return x
     | Inl e \<Rightarrow> andThen (setHealthError (e_text E e)) (\<lambda>_. throw e))"

fun updateAll :: "'k env \<Rightarrow> time \<Rightarrow> bool \<Rightarrow> tunnel list \<Rightarrow> ('k app, bool) action" where
  "updateAll E now quotaHit [] = return quotaHit"
| "updateAll E now quotaHit (t # ts) =
     andThen (orHealth E (onStore (Store_UpdateTelemetry t now))) (\<lambda>hit.
     updateAll E now (quotaHit \<or> hit) ts)"

definition setStatuses :: "tunnel list \<Rightarrow> string \<Rightarrow> string \<Rightarrow> ('k app, unit) action" where
  "setStatuses ts status msg =
     each (\<lambda>t. andThen (attempt (onStore (Store_SetStatus (t_ID t) status msg))) (\<lambda>_. return ())) ts"

text \<open>The end of a reconciliation: \<open>Inspect\<close> returns no drift together with an error.\<close>

definition noteDrift :: "'k env \<Rightarrow> string list result \<Rightarrow> ('k app, unit) action" where
  "noteDrift E r = (case r of
       Inr drift \<Rightarrow> modify (\<lambda>s. s\<lparr>app_health := (app_health s)\<lparr>h_Drift := drift\<rparr>\<rparr>)
     | Inl e \<Rightarrow> andThen (modify (\<lambda>s. s\<lparr>app_health := (app_health s)\<lparr>h_Drift := [], h_Error := e_text E e\<rparr>\<rparr>)) (\<lambda>_. throw e))"

text \<open>The second half of a reconciliation, from the call of \<open>Apply\<close> on.\<close>

definition applyTunnels ::
  "'k env \<Rightarrow> settings \<Rightarrow> time \<Rightarrow> upstream list \<Rightarrow> tunnel list \<Rightarrow> ('k app, unit) action" where
  "applyTunnels E cfg now upstreams ts =
     andThen (onStore Store_WarpAccount) (\<lambda>warp.
     andThen (attempt (onKernel (e_Apply E cfg warp upstreams ts))) (\<lambda>r.
     andThen (noteReconcile now) (\<lambda>_.
     case r of
       Inl e \<Rightarrow>
         andThen (setHealthError (e_text E e)) (\<lambda>_.
         andThen (setStatuses ts ''error'' (e_text E e)) (\<lambda>_. throw e))
     | Inr live \<Rightarrow>
         andThen (setHealthError []) (\<lambda>_.
         andThen (updateAll E now False live) (\<lambda>quotaHit.
         andThen (onStore Store_Tunnels) (\<lambda>ts.
         andThen (if quotaHit
                  then andThen (orHealth E (onKernel (e_Apply E cfg warp upstreams ts))) (\<lambda>_. return ())
                  else return ()) (\<lambda>_.
         andThen (setStatuses (filter (\<lambda>t. \<not> t_QuotaDisabled t) ts) ''applied'' []) (\<lambda>_.
         andThen (attempt (onKernel (e_Inspect E cfg warp upstreams ts))) (noteDrift E)))))))))"

definition upstreamOf :: "upstream list \<Rightarrow> tunnel \<Rightarrow> upstream" where
  "upstreamOf upstreams t = (case upstreamsByID upstreams (t_UpstreamID t) of None \<Rightarrow> zeroUpstream | Some u \<Rightarrow> u)"

definition requireWarp :: "string \<Rightarrow> ('k app, unit) action" where
  "requireWarp msg =
     andThen (onStore Store_WarpAccount) (\<lambda>account. require (Exists account) (newError msg))"

definition reconcileLocked :: "'k env \<Rightarrow> ('k app, unit) action" where
  "reconcileLocked E =
     andThen (onStore Store_Settings) (\<lambda>cfg.
     andThen (onStore Now) (\<lambda>now.
     andThen (onStore (Store_ResetMonthlyQuotas now)) (\<lambda>_.
     andThen (onStore Store_Upstreams) (\<lambda>upstreams.
     if upstreams = [] then
       andThen (onStore Store_WarpAccount) (\<lambda>warp.
       andThen (orHealth E (onKernel (e_Apply E cfg warp [] []))) (\<lambda>_.
       clearHealth now))
     else
       andThen (onStore Store_Tunnels) (\<lambda>ts.
       let modes = map (\<lambda>t. tunnelV4Mode cfg (upstreamOf upstreams t) t) ts;
           needsIPv4 = list_ex (\<lambda>m. m \<noteq> V4ModeOff) modes;
           needsWarp = list_ex (\<lambda>m. m = V4ModeWarp) modes
       in andThen (if needsWarp
              then requireWarp ''create a Cloudflare WARP account before applying WARP IPv4 egress''
              else return ()) (\<lambda>_.
          andThen (if needsIPv4
              then andThen (liftResult (parsePrefixErr (V4Pool cfg))) (\<lambda>pool.
                   andThen (require (Is4 (pAddr pool)) (newError ''v4 pool must be an IPv4 CIDR'')) (\<lambda>_.
                   andThen (onStore (Store_EnsureIPv4Allocations cfg)) (\<lambda>_.
                   onStore Store_Tunnels)))
              else return ts) (\<lambda>ts.
          applyTunnels E cfg now upstreams ts)))))))"

text \<open>The periodic reconciler, by the events it selects; a failure is only logged.\<close>

datatype reconciler_event = Tick | Done

fun RunReconciler :: "'k env \<Rightarrow> reconciler_event list \<Rightarrow> ('k app, unit) action" where
  "RunReconciler E [] = return ()"
| "RunReconciler E (Done # evs) = return ()"
| "RunReconciler E (Tick # evs) = andThen (attempt (reconcileLocked E)) (\<lambda>_. RunReconciler E evs)"

subsection \<open>Settings\<close>

definition App_SaveSettings :: "settings \<Rightarrow> ('k app, unit) action" where
  "App_SaveSettings v =
     (let v = (if InterTunnelPolicy v = [] then v\<lparr>InterTunnelPolicy := InterTunnelIsolated\<rparr> else v) in
      andThen (check (validateSettings v)) (\<lambda>_.
      andThen (if V4Warp v
               then requireWarp ''create a Cloudflare WARP account before enabling WARP IPv4 egress''
               else return ()) (\<lambda>_.
      onStore (Store_SaveSettings v))))"

definition App_ResetGeneralSettings :: "'k env \<Rightarrow> string \<Rightarrow> ('k app, unit) action" where
  "App_ResetGeneralSettings E admin =
     andThen (onStore Store_Settings) (\<lambda>cfg.
     andThen (onStore (Store_SaveSettings (cfg
       \<lparr>V4NAT := False, V4Warp := False, V4Pool := ''10.99.0.0/16'', DefaultDNS := ''2606:4700:4700::1111'',
        InterTunnelPolicy := InterTunnelIsolated\<rparr>))) (\<lambda>_.
     andThen (attempt (onStore (Store_AddAudit admin ''settings-reset'' ''general defaults restored''))) (\<lambda>_.
     reconcileLocked E)))"

subsection \<open>Provider connections\<close>

definition prepareUpstream :: "'k env \<Rightarrow> upstream \<Rightarrow> ('k app, upstream) action" where
  "prepareUpstream E up =
     andThen (onStore Store_Upstreams) (\<lambda>others.
     andThen (liftResult (normalizeUpstream up others)) (\<lambda>up.
     andThen (check (validateUpstream up)) (\<lambda>_.
     andThen (check (validateUpstreamUniqueness (e_unicode E) up others)) (\<lambda>_.
     if up_ServerPrivateKey up = []
     then andThen (draw (e_key E)) (\<lambda>key. return (up\<lparr>up_ServerPrivateKey := key\<rparr>))
     else return up))))"

definition App_CreateUpstream :: "'k env \<Rightarrow> UpstreamInput \<Rightarrow> string \<Rightarrow> ('k app, upstream) action" where
  "App_CreateUpstream E inp admin =
     andThen (prepareUpstream E (apply_input inp (zeroUpstream
       \<lparr>up_MTU := 1420, up_Keepalive := 25, up_MinPrefix := 48, up_MaxPrefix := 64, up_DefaultPrefix := 56,
        up_EndpointPort := 51820\<rparr>))) (\<lambda>up.
     andThen (onStore (Store_InsertUpstream up admin)) (\<lambda>up.
     andThen (wrapError ''upstream saved but apply failed: %w'' [] (reconcileLocked E)) (\<lambda>_.
     onStore (Store_Upstream (up_ID up)))))"

text \<open>The rest of an update once the new values are prepared.\<close>

definition saveUpdated :: "'k env \<Rightarrow> upstream \<Rightarrow> string \<Rightarrow> upstream \<Rightarrow> ('k app, upstream) action" where
  "saveUpdated E existing admin updated =
     andThen (onStore (Store_TunnelsForUpstream (up_ID updated))) (\<lambda>tunnels.
     andThen (check (validateUpstreamAgainstTunnels updated tunnels)) (\<lambda>_.
     andThen (onStore (Store_UpdateUpstream updated admin)) (\<lambda>_.
     andThen (if up_InterfaceName existing \<noteq> up_InterfaceName updated
              then wrapError ''upstream saved but the previous interface %s could not be removed: %w''
                     [up_InterfaceName existing] (onKernel (e_RemoveUpstream E existing))
              else return ()) (\<lambda>_.
     andThen (wrapError ''upstream saved but apply failed: %w'' [] (reconcileLocked E)) (\<lambda>_.
     onStore (Store_Upstream (up_ID updated)))))))"

definition App_UpdateUpstream :: "'k env \<Rightarrow> UpstreamInput \<Rightarrow> string \<Rightarrow> ('k app, upstream) action" where
  "App_UpdateUpstream E inp admin =
     andThen (onStore (Store_Upstream (in_ID inp))) (\<lambda>existing.
     andThen (prepareUpstream E (apply_input inp existing)) (saveUpdated E existing admin))"

definition App_DeleteUpstream :: "'k env \<Rightarrow> int \<Rightarrow> string \<Rightarrow> ('k app, unit) action" where
  "App_DeleteUpstream E k admin =
     andThen (onStore (Store_Upstream k)) (\<lambda>up.
     if 0 < up_TunnelCount up
     then throw (Errorf ''upstream %q still has %d tunnel(s); delete them first'' [up_Name up, Itoa (up_TunnelCount up)])
     else
       andThen (wrapError ''upstream not deleted because its interface could not be removed: %w'' []
         (onKernel (e_RemoveUpstream E up))) (\<lambda>_.
       andThen (onStore (Store_DeleteUpstream k admin)) (\<lambda>_.
       reconcileLocked E)))"

subsection \<open>Tunnels\<close>

record CreateTunnelInput =
  ct_UpstreamID :: int
  ct_Label :: string
  ct_PublicKey :: string
  ct_DNS :: string
  ct_V4Mode :: string
  ct_RoutingGroups :: "string list"
  ct_Prefix :: int
  ct_QuotaGiB :: int
  ct_GenerateKeys :: bool

definition resolveUpstream :: "int \<Rightarrow> ('k app, upstream) action" where
  "resolveUpstream k =
     (if 0 < k
      then mapError (\<lambda>_. newError ''the selected upstream does not exist'') (onStore (Store_Upstream k))
      else andThen (onStore Store_Upstreams) (\<lambda>upstreams.
        case upstreams of
          [] \<Rightarrow> throw (newError ''configure an upstream before creating tunnels'')
        | [up] \<Rightarrow> return up
        | _ \<Rightarrow> throw (newError ''select which upstream this tunnel is allocated from'')))"

text \<open>The prefix of a new tunnel: its length, the prefixes in use, the draw.\<close>

definition allocateTunnel :: "'k env \<Rightarrow> upstream \<Rightarrow> int \<Rightarrow> ('k app, prefix) action" where
  "allocateTunnel E up requested =
     (let bits = (if requested = 0 then up_DefaultPrefix up else requested) in
      andThen (require (\<not> (bits < up_MinPrefix up \<or> up_MaxPrefix up < bits))
        (newError ''requested prefix is outside the limits configured for this upstream'')) (\<lambda>_.
      andThen (onStore (Store_UsedPrefixes (up_ID up))) (\<lambda>used.
      let used = (case serverReservation up of None \<Rightarrow> used | Some reserved \<Rightarrow> used @ [reserved])
      in case delegatedPrefix up of
           None \<Rightarrow> throw (newError ''upstream IPv6 must be an IPv6 CIDR'')
         | Some pool \<Rightarrow> draw (\<lambda>n. Allocate (e_rand E n) pool used bits))))"

text \<open>The keys of a new tunnel: generated, or the given public key checked; a preshared key.\<close>

definition tunnelKeys :: "'k env \<Rightarrow> bool \<Rightarrow> tunnel \<Rightarrow> ('k app, tunnel) action" where
  "tunnelKeys E generate t =
     andThen (if generate
              then andThen (draw (e_key E)) (\<lambda>priv.
                   return (t\<lparr>t_PrivateKey := priv, t_PublicKey := e_publicKey E priv\<rparr>))
              else andThen (require (e_validKey E (t_PublicKey t))
                     (newError ''a valid WireGuard public key is required'')) (\<lambda>_. return t)) (\<lambda>t.
     andThen (draw (e_key E)) (\<lambda>psk.
     return (t\<lparr>t_PresharedKey := psk\<rparr>)))"

definition tunnelAddress :: "settings \<Rightarrow> tunnel \<Rightarrow> ('k app, tunnel) action" where
  "tunnelAddress cfg t =
     (if t_V4Enabled t
      then case ParsePrefix (V4Pool cfg) of
             None \<Rightarrow> throw (newError ''v4 pool must be an IPv4 CIDR'')
           | Some pool \<Rightarrow> andThen (onStore (Store_NextV4 pool)) (\<lambda>a. return (t\<lparr>t_V4Address := a\<rparr>))
      else return t)"

text \<open>The rest of a creation once the tunnel's prefix is chosen.\<close>

definition saveTunnel :: "'k env \<Rightarrow> settings \<Rightarrow> bool \<Rightarrow> string \<Rightarrow> tunnel \<Rightarrow> ('k app, tunnel) action" where
  "saveTunnel E cfg generate admin t =
     andThen (tunnelKeys E generate t) (\<lambda>t.
     andThen (tunnelAddress cfg t) (\<lambda>t.
     andThen (onStore (Store_InsertTunnel t admin)) (\<lambda>t.
     andThen (wrapError ''tunnel saved but apply failed: %w'' [] (reconcileLocked E)) (\<lambda>_.
     onStore (Store_Tunnel (t_ID t))))))"

definition App_CreateTunnel :: "'k env \<Rightarrow> CreateTunnelInput \<Rightarrow> string \<Rightarrow> ('k app, tunnel) action" where
  "App_CreateTunnel E inp admin =
     andThen (onStore Store_Settings) (\<lambda>cfg.
     andThen (resolveUpstream (ct_UpstreamID inp)) (\<lambda>up.
     andThen (check (map_option (Wrapf ''upstream %q is not usable: %w'' [up_Name up]) (validateUpstream up))) (\<lambda>_.
     andThen (require (TrimSpace (ct_Label inp) \<noteq> []) (newError ''label is required'')) (\<lambda>_.
     andThen (require (validTunnelV4Mode (ct_V4Mode inp)) (newError ''invalid IPv4 egress mode'')) (\<lambda>_.
     let quota = (if ct_QuotaGiB inp = 0 then 100 else ct_QuotaGiB inp) in
     andThen (check (validateQuota quota)) (\<lambda>_.
     andThen (liftResult (normalizeRoutingGroups (ct_RoutingGroups inp))) (\<lambda>names.
     andThen (onStore Now) (\<lambda>now.
     let t = zeroTunnel\<lparr>t_UpstreamID := up_ID up, t_Label := TrimSpace (ct_Label inp),
           t_PublicKey := TrimSpace (ct_PublicKey inp), t_DNSOverride := TrimSpace (ct_DNS inp),
           t_V4Mode := ct_V4Mode inp, t_QuotaGiB := quota, t_QuotaPeriod := quotaMonth now,
           t_RoutingGroups := names, t_Enabled := True\<rparr> in
     andThen (if tunnelV4Mode cfg up t = V4ModeWarp
              then requireWarp ''create a Cloudflare WARP account before selecting WARP IPv4 egress''
              else return ()) (\<lambda>_.
     andThen (allocateTunnel E up (ct_Prefix inp)) (\<lambda>alloc.
     saveTunnel E cfg (ct_GenerateKeys inp) admin
       (t\<lparr>t_V6CIDR := prefixString alloc, t_V4Enabled := tunnelV4Mode cfg up t \<noteq> V4ModeOff\<rparr>)))))))))))"

definition App_SetTunnelV4Mode :: "'k env \<Rightarrow> int \<Rightarrow> string \<Rightarrow> string \<Rightarrow> ('k app, unit) action" where
  "App_SetTunnelV4Mode E k mode admin =
     andThen (require (validTunnelV4Mode mode) (newError ''invalid IPv4 egress mode'')) (\<lambda>_.
     andThen (onStore (Store_Tunnel k)) (\<lambda>t.
     andThen (onStore Store_Settings) (\<lambda>cfg.
     andThen (onStore (Store_Upstream (t_UpstreamID t))) (\<lambda>up.
     andThen (if tunnelV4Mode cfg up (t\<lparr>t_V4Mode := mode\<rparr>) = V4ModeWarp
              then requireWarp ''create a Cloudflare WARP account before selecting WARP IPv4 egress''
              else return ()) (\<lambda>_.
     andThen (onStore (Store_SetTunnelV4Mode k mode admin)) (\<lambda>_.
     reconcileLocked E))))))"

definition App_SetTunnelQuota :: "'k env \<Rightarrow> int \<Rightarrow> int \<Rightarrow> string \<Rightarrow> ('k app, unit) action" where
  "App_SetTunnelQuota E k quotaGiB admin =
     andThen (check (validateQuota quotaGiB)) (\<lambda>_.
     andThen (onStore (Store_Tunnel k)) (\<lambda>_.
     andThen (onStore (Store_SetTunnelQuota k quotaGiB admin)) (\<lambda>_.
     reconcileLocked E)))"

definition App_SetTunnelRoutingGroups :: "'k env \<Rightarrow> int \<Rightarrow> string list \<Rightarrow> string \<Rightarrow> ('k app, unit) action" where
  "App_SetTunnelRoutingGroups E k names admin =
     andThen (liftResult (normalizeRoutingGroups names)) (\<lambda>names.
     andThen (onStore (Store_Tunnel k)) (\<lambda>_.
     andThen (onStore (Store_SetTunnelRoutingGroups k names admin)) (\<lambda>_.
     reconcileLocked E)))"

definition App_DeleteTunnel :: "'k env \<Rightarrow> int \<Rightarrow> string \<Rightarrow> ('k app, unit) action" where
  "App_DeleteTunnel E k admin =
     andThen (onStore (Store_Tunnel k)) (\<lambda>t.
     andThen (attempt (onStore (Store_Upstream (t_UpstreamID t)))) (\<lambda>r.
     case r of
       Inl _ \<Rightarrow> onStore (Store_DeleteTunnel k admin)
     | Inr up \<Rightarrow>
         andThen (attempt (onKernel (e_Remove E up t))) (\<lambda>r.
         case r of
           Inl e \<Rightarrow> andThen (attempt (onStore (Store_SetStatus k ''error'' (e_text E e)))) (\<lambda>_. throw e)
         | Inr _ \<Rightarrow> onStore (Store_DeleteTunnel k admin))))"

definition App_SetEnabled :: "'k env \<Rightarrow> int \<Rightarrow> bool \<Rightarrow> string \<Rightarrow> ('k app, unit) action" where
  "App_SetEnabled E k on admin =
     andThen (onStore (Store_SetEnabled k on admin)) (\<lambda>_. reconcileLocked E)"

subsection \<open>Routing groups\<close>

definition groupName :: "string \<Rightarrow> ('k app, string) action" where
  "groupName name =
     (let name = TrimSpace name in
      andThen (require (name \<noteq> []) (newError ''routing group name is required'')) (\<lambda>_.
      andThen (check (validateRoutingGroup name)) (\<lambda>_. return name)))"

definition App_CreateRoutingGroup :: "string \<Rightarrow> string \<Rightarrow> ('k app, unit) action" where
  "App_CreateRoutingGroup name admin =
     andThen (groupName name) (\<lambda>name. onStore (Store_CreateRoutingGroup name admin))"

definition App_RenameRoutingGroup :: "'k env \<Rightarrow> int \<Rightarrow> string \<Rightarrow> string \<Rightarrow> ('k app, unit) action" where
  "App_RenameRoutingGroup E k name admin =
     andThen (groupName name) (\<lambda>name.
     andThen (onStore (Store_RenameRoutingGroup k name admin)) (\<lambda>_. reconcileLocked E))"

definition App_DeleteRoutingGroup :: "'k env \<Rightarrow> int \<Rightarrow> string \<Rightarrow> ('k app, unit) action" where
  "App_DeleteRoutingGroup E k admin =
     andThen (onStore (Store_DeleteRoutingGroup k admin)) (\<lambda>_. reconcileLocked E)"

end
