(* ===== verification/Service_Safety.thy ===== *)
theory Service_Safety
  imports Service
begin

section \<open>Address safety of the application\<close>

text \<open>
  The invariant that spans the components: in every state the application can reach, the
  connections coexist, every tunnel belongs to a connection and holds an aligned prefix inside its
  delegation and outside the server's reservation, and no two tunnels of a connection overlap.
  It rests on the allocator (\<open>Allocator\<close>), the checks on connections (\<open>Upstream_Config\<close>) and the
  integrity of the store (\<open>Store_Integrity\<close>); the kernel, the driver and the clock are arbitrary.
\<close>

subsection \<open>Reasoning about the database under an action\<close>

abbreviation adb :: "'k app \<Rightarrow> db" where
  "adb a \<equiv> st_db (app_store a)"

definition readonly :: "('k app, 'a) action \<Rightarrow> bool" where
  "readonly m \<longleftrightarrow> (\<forall>a. adb (snd (m a)) = adb a)"

definition leads :: "(db \<Rightarrow> bool) \<Rightarrow> (db \<Rightarrow> bool) \<Rightarrow> ('k app, 'a) action \<Rightarrow> bool" where
  "leads P I m \<longleftrightarrow> (\<forall>a. P (adb a) \<longrightarrow> I (adb (snd (m a))))"

lemma leads_pre: "leads P I m \<Longrightarrow> (\<And>d. P' d \<Longrightarrow> P d) \<Longrightarrow> leads P' I m"
  by (auto simp: leads_def)

lemma leads_fact:
  fixes m :: "('k app, 'a) action"
  assumes "readonly m" "\<And>d. P d \<Longrightarrow> I d" "\<And>a x a'. m a = (Inr x, a') \<Longrightarrow> F x (adb a)"
    "\<And>x. leads (\<lambda>d. P d \<and> F x d) I (k x)"
  shows "leads P I (andThen m k)"
  unfolding leads_def
proof (intro allI impI)
  fix a :: "'k app" assume P: "P (adb a)"
  obtain r a' where m: "m a = (r, a')" by (cases "m a")
  have d: "adb a' = adb a" using assms(1) m by (metis readonly_def snd_conv)
  show "I (adb (snd (andThen m k a)))"
  proof (cases r)
    case (Inl e)
    then show ?thesis using m d P assms(2) by simp
  next
    case (Inr x)
    then show ?thesis using m d P assms(3) [of a x a'] assms(4) [of x] by (simp add: leads_def)
  qed
qed

lemma leads_read:
  assumes "readonly m" "\<And>d. P d \<Longrightarrow> I d" "\<And>x. leads P I (k x)"
  shows "leads P I (andThen m k)"
  using leads_fact [of m P I "\<lambda>_ _. True" k] assms by simp

lemma leads_step:
  fixes m :: "('k app, 'a) action"
  assumes "leads P J m" "\<And>d. J d \<Longrightarrow> I d" "\<And>x. leads J I (k x)"
  shows "leads P I (andThen m k)"
  unfolding leads_def
proof (intro allI impI)
  fix a :: "'k app" assume P: "P (adb a)"
  obtain r a' where m: "m a = (r, a')" by (cases "m a")
  then have "J (adb a')" using assms(1) P by (metis leads_def snd_conv)
  then show "I (adb (snd (andThen m k a)))"
    using m assms(2,3) by (cases r) (auto simp: leads_def)
qed

lemma readonly_simple [simp]:
  "readonly (return x)" "readonly (throw e)" "readonly (check c)" "readonly (require b e)" "readonly (liftResult r)"
  "readonly (draw f)" "readonly (onKernel m)" "readonly (setHealthError msg)" "readonly (noteReconcile now)"
  "readonly (clearHealth now)"
  by (auto simp: readonly_def draw_def onKernel_def zoom_def setHealthError_def noteReconcile_def clearHealth_def
      split: option.split prod.split)

lemma readonly_keeps: "readonly m \<longleftrightarrow> (\<forall>d0. keeps (\<lambda>a. adb a = d0) m)"
  by (auto simp: readonly_def keeps_def)

lemma leads_keeps_iff: "leads I I m \<longleftrightarrow> keeps (\<lambda>a. I (adb a)) m"
  by (simp add: leads_def keeps_def)

lemma readonly_andThen: "readonly m \<Longrightarrow> (\<And>x. readonly (k x)) \<Longrightarrow> readonly (andThen m k)"
  unfolding readonly_keeps by (simp add: keeps_andThen)

lemma readonly_attempt: "readonly m \<Longrightarrow> readonly (attempt m)"
  unfolding readonly_keeps by (simp add: keeps_attempt)

lemma readonly_mapError: "readonly m \<Longrightarrow> readonly (mapError f m)"
  unfolding mapError_def by (intro readonly_andThen readonly_attempt) (auto split: sum.split)

lemma readonly_onStore: "(\<And>d0. dbkeeps (\<lambda>d. d = d0) m) \<Longrightarrow> readonly (onStore m)"
proof -
  assume k: "\<And>d0. dbkeeps (\<lambda>d. d = d0) m"
  show ?thesis
    unfolding readonly_keeps
  proof
    fix d0
    show "keeps (\<lambda>a. adb a = d0) (onStore m)"
      unfolding onStore_def by (rule keeps_zoom [OF k]) simp
  qed
qed

lemma readonly_if [simp]: "readonly m \<Longrightarrow> readonly m' \<Longrightarrow> readonly (if b then m else m')"
  by simp

lemma readonly_queries [simp]:
  "readonly (onStore Store_Settings)" "readonly (onStore Store_Upstreams)" "readonly (onStore (Store_Upstream k))"
  "readonly (onStore Store_Tunnels)" "readonly (onStore (Store_Tunnel k))" "readonly (onStore (Store_TunnelsForUpstream k))"
  "readonly (onStore Store_WarpAccount)" "readonly (onStore (Store_UsedPrefixes k))" "readonly (onStore (Store_NextV4 pool))"
  "readonly (onStore Now)" "readonly (onStore Store_AdminCount)" "readonly (onStore (Store_AdminHash user))"
  by (intro readonly_onStore keeps_rules)+

lemma readonly_requireWarp [simp]: "readonly (requireWarp msg)"
  unfolding requireWarp_def by (intro readonly_andThen) simp_all

text \<open>Inversion of store calls made by the application.\<close>

lemma onStore_Inr:
  assumes "onStore m a = (Inr x, a')"
  obtains s' where "m (app_store a) = (Inr x, s')" "app_store a' = s'"
  using assms by (auto simp: onStore_def zoom_def split: prod.splits)

lemma leads_onStore:
  assumes "\<And>s r s'. P (st_db s) \<Longrightarrow> m s = (r, s') \<Longrightarrow> I (st_db s')"
  shows "leads P I (onStore m)"
  using assms by (auto simp: leads_def onStore_def zoom_def split: prod.split)

lemma leads_keeps: "dbkeeps I m \<Longrightarrow> leads I I (onStore m)"
  by (rule leads_onStore) (rule keepsD)

lemma leads_readonly: "readonly m \<Longrightarrow> (\<And>d. P d \<Longrightarrow> I d) \<Longrightarrow> leads P I m"
  by (auto simp: leads_def readonly_def)

lemma leads_mapError: "leads P I m \<Longrightarrow> leads P I (mapError f m)"
  unfolding leads_def mapError_def andThen_def attempt_def by (fastforce split: prod.splits sum.splits)

lemma leads_attempt: "leads P I m \<Longrightarrow> leads P I (attempt m)"
  unfolding leads_def attempt_def by (fastforce split: prod.splits)

lemma leads_each: "(\<And>x. leads I I (f x)) \<Longrightarrow> leads I I (each f xs)"
  unfolding leads_keeps_iff by (rule keeps_each)

subsection \<open>The invariant\<close>

text \<open>The allocation written in \<open>cidr\<close> is sound under the connection.\<close>

definition holds :: "upstream \<Rightarrow> string \<Rightarrow> bool" where
  "holds u cidr \<longleftrightarrow> (\<exists>p D. ParsePrefix cidr = Some p \<and> wf6 p \<and> Masked p = p \<and> delegatedPrefix u = Some D \<and>
     Contains D (pAddr p) \<and> pBits D \<le> pBits p \<and> (\<forall>r. serverReservation u = Some r \<longrightarrow> \<not> overlaps r p))"

definition apart :: "string \<Rightarrow> string \<Rightarrow> bool" where
  "apart c c' \<longleftrightarrow> (\<forall>p p'. ParsePrefix c = Some p \<longrightarrow> ParsePrefix c' = Some p' \<longrightarrow> \<not> overlaps p p')"

type_synonym allocation = "int \<times> int \<times> string"    \<comment> \<open>tunnel, connection, prefix\<close>

definition allocations :: "db \<Rightarrow> allocation set" where
  "allocations d = (\<lambda>t. (t_ID t, t_UpstreamID t, t_V6CIDR t)) ` set (db_tunnels d)"

definition placement :: "unicode \<Rightarrow> upstream list \<Rightarrow> allocation set \<Rightarrow> bool" where
  "placement uni ups ks \<longleftrightarrow> coexist uni ups \<and>
     (\<forall>(i, k, c)\<in>ks. \<exists>u\<in>set ups. up_ID u = k \<and> holds u c) \<and>
     (\<forall>(i, k, c)\<in>ks. \<forall>(i', k', c')\<in>ks. i \<noteq> i' \<longrightarrow> k = k' \<longrightarrow> apart c c')"

definition sane :: "unicode \<Rightarrow> db \<Rightarrow> bool" where
  "sane uni d \<longleftrightarrow> wf_db d \<and> placement uni (db_upstreams d) (allocations d)"

text \<open>What the placement depends on.\<close>

definition same_skel :: "upstream list \<times> allocation set \<Rightarrow> db \<Rightarrow> bool" where
  "same_skel sk d \<longleftrightarrow> (db_upstreams d, allocations d) = sk"

lemma sane_keep:
  assumes "dbkeeps wf_db m" "\<And>sk. dbkeeps (same_skel sk) m"
  shows "dbkeeps (sane uni) m"
  unfolding keeps_def
proof (intro allI impI)
  fix s :: store assume s: "sane uni (st_db s)"
  have "wf_db (st_db (snd (m s)))" using assms(1) s by (auto simp: keeps_def sane_def)
  moreover have "same_skel (db_upstreams (st_db s), allocations (st_db s)) (st_db (snd (m s)))"
    using assms(2) by (auto simp: keeps_def same_skel_def)
  ultimately show "sane uni (st_db (snd (m s)))" using s by (auto simp: sane_def same_skel_def)
qed

definition steady :: "(tunnel \<Rightarrow> tunnel) \<Rightarrow> bool" where
  "steady f \<longleftrightarrow> (\<forall>t. t_ID (f t) = t_ID t \<and> t_UpstreamID (f t) = t_UpstreamID t \<and> t_V6CIDR (f t) = t_V6CIDR t)"

lemma steady_benign: "benign f \<Longrightarrow> steady f"
  by (simp add: benign_def steady_def)

lemma allocations_map: "steady f \<Longrightarrow> allocations (db_tunnels_update (map f) d) = allocations d"
  by (simp add: allocations_def steady_def image_image)

lemma allocations_update: "steady f \<Longrightarrow> allocations (db_tunnels_update (updateRow t_ID k f) d) = allocations d"
  unfolding updateRow_map by (rule allocations_map) (simp add: steady_def)

lemma allocations_other [simp]:
  "allocations (db_settings_update f1 d) = allocations d" "allocations (db_members_update f2 d) = allocations d"
  "allocations (db_audit_update f3 d) = allocations d" "allocations (db_groups_update f4 d) = allocations d"
  "allocations (db_warp_update f5 d) = allocations d" "allocations (db_admins_update f6 d) = allocations d"
  "allocations (db_upstreams_update f7 d) = allocations d"
  by (simp_all add: allocations_def)

lemma skel_exec:
  "steady f \<Longrightarrow> dbkeeps (same_skel sk) (exec (db_tunnels_update (map f)))"
  "steady f \<Longrightarrow> dbkeeps (same_skel sk) (exec (db_tunnels_update (updateRow t_ID k f)))"
  "dbkeeps (same_skel sk) (exec (db_members_update f2))"
  "dbkeeps (same_skel sk) (auditRow admin action tunnel detail now)"
  "dbkeeps (same_skel sk) (insertMember k name)"
  unfolding auditRow_def insertMember_def
  by (intro keeps_exec keeps_sql; simp add: same_skel_def allocations_map allocations_update split: option.split)+

lemma skel_setRow:
  "steady f \<Longrightarrow> dbkeeps (same_skel sk) (setRow tunnel_uniques db_tunnels db_tunnels_update t_ID k f)"
  "dbkeeps (same_skel sk) (setRow group_uniques db_groups db_groups_update g_ID k f')"
  "dbkeeps (same_skel sk) (addRow group_uniques db_groups db_groups_update g_ID row)"
  "dbkeeps (same_skel sk) (addRow admin_uniques db_admins db_admins_update ad_ID row')"
  unfolding setRow_def addRow_def
  by (intro keeps_sql; simp add: same_skel_def allocations_update Let_def split: option.split)+

lemma steady_v4: "steady (\<lambda>t. t\<lparr>t_V4Address := a, t_V4Enabled := b, t_UpdatedAt := now\<rparr>)"
  by (simp add: steady_def)

lemma skel_assign: "dbkeeps (same_skel sk) (assignIPv4 pool cfg byID used ts)"
  by (induction ts arbitrary: used) (auto intro!: keeps_rules skel_setRow steady_v4 split: option.split)

lemma skel_ensure: "dbkeeps (same_skel sk) (ensureIPv4AllocationsTx pool cfg ups)"
  unfolding ensureIPv4AllocationsTx_def by (intro keeps_rules skel_assign)

lemma skel_setGroups: "dbkeeps (same_skel sk) (setTunnelRoutingGroupsTx k names)"
  unfolding setTunnelRoutingGroupsTx_def requireGroup_def by (intro keeps_rules skel_exec)

lemmas skel_rules = skel_exec skel_setRow skel_ensure skel_setGroups steady_benign benign_rows

lemma skel_settings:
  "dbkeeps (same_skel sk) (Store_SaveSettings v)" "dbkeeps (same_skel sk) (Store_EnsureIPv4Allocations cfg)"
  "dbkeeps (same_skel sk) (Store_SaveWarpAccount a)" "dbkeeps (same_skel sk) (Store_SaveWarpTest tr tm)"
  "dbkeeps (same_skel sk) (Store_AddAudit admin action detail)" "dbkeeps (same_skel sk) (Store_AddAdmin user hash)"
  unfolding Store_SaveSettings_def Store_EnsureIPv4Allocations_def Store_SaveWarpAccount_def Store_SaveWarpTest_def
    Store_AddAudit_def Store_AddAdmin_def
  by (intro keeps_rules skel_rules; simp add: same_skel_def)+

lemma skel_tunnels:
  "dbkeeps (same_skel sk) (Store_SetTunnelV4Mode k mode admin)" "dbkeeps (same_skel sk) (Store_SetEnabled k on admin)"
  "dbkeeps (same_skel sk) (Store_SetStatus k st msg)" "dbkeeps (same_skel sk) (Store_UpdateTelemetry t now)"
  "dbkeeps (same_skel sk) (Store_ResetMonthlyQuotas now)" "dbkeeps (same_skel sk) (Store_SetTunnelQuota k q admin)"
  "dbkeeps (same_skel sk) (Store_SetTunnelRoutingGroups k names admin)"
  unfolding Store_SetTunnelV4Mode_def Store_SetEnabled_def Store_SetStatus_def Store_UpdateTelemetry_def
    Store_ResetMonthlyQuotas_def Store_SetTunnelQuota_def Store_SetTunnelRoutingGroups_def Let_def
  by (intro keeps_rules skel_rules)+

lemma skel_groups:
  "dbkeeps (same_skel sk) (Store_CreateRoutingGroup name admin)" "dbkeeps (same_skel sk) (Store_RenameRoutingGroup k name admin)"
  "dbkeeps (same_skel sk) (Store_DeleteRoutingGroup k admin)"
  unfolding Store_CreateRoutingGroup_def Store_RenameRoutingGroup_def Store_DeleteRoutingGroup_def
  by (intro keeps_rules skel_rules; simp add: same_skel_def allocations_def)+

lemma sane_methods:
  "dbkeeps (sane uni) (Store_SaveSettings v)" "dbkeeps (sane uni) (Store_EnsureIPv4Allocations cfg)"
  "dbkeeps (sane uni) (Store_SaveWarpAccount a)" "dbkeeps (sane uni) (Store_SaveWarpTest tr tm)"
  "dbkeeps (sane uni) (Store_AddAudit admin action detail)" "dbkeeps (sane uni) (Store_AddAdmin user hash)"
  "dbkeeps (sane uni) (Store_SetTunnelV4Mode k mode admin)" "dbkeeps (sane uni) (Store_SetEnabled k on admin)"
  "dbkeeps (sane uni) (Store_SetStatus k st msg)" "dbkeeps (sane uni) (Store_UpdateTelemetry t now)"
  "dbkeeps (sane uni) (Store_ResetMonthlyQuotas now)" "dbkeeps (sane uni) (Store_SetTunnelQuota k q admin)"
  "dbkeeps (sane uni) (Store_SetTunnelRoutingGroups k names admin)"
  "dbkeeps (sane uni) (Store_CreateRoutingGroup name admin)" "dbkeeps (sane uni) (Store_RenameRoutingGroup k name admin)"
  "dbkeeps (sane uni) (Store_DeleteRoutingGroup k admin)"
  by (rule sane_keep; rule store_methods_keep skel_settings skel_tunnels skel_groups)+

end
