(* ===== verification/Firewall.thy ===== *)
theory Firewall
  imports Service_Safety
begin

section \<open>The packet filter (internal/broker/firewall.go)\<close>

text \<open>
  The nftables script of a deployment. The code writes lines into a \<open>strings.Builder\<close>; the model
  builds the list of commands, one constructor per format string of the code, and \<open>render\<close> prints
  them, so that a command can also be given a meaning: which packets the forward chain accepts and
  which source addresses are masqueraded.
\<close>

subsection \<open>strconv.Quote, the verb \<open>%q\<close>\<close>

definition backslash :: char where
  "backslash = CHR 0x5C"

definition IsPrint :: "unicode \<Rightarrow> nat \<Rightarrow> bool" where
  "IsPrint u r = (if r < 0x80 then in_range 0x20 0x7E r else uni_print u r)"

definition hexPad :: "nat \<Rightarrow> nat \<Rightarrow> string" where
  "hexPad width n = replicate (width - length (hex n)) (CHR ''0'') @ hex n"

definition escapeRune :: "nat \<Rightarrow> string" where
  "escapeRune r =
     (if r = 0x07 then [backslash, CHR ''a''] else if r = 0x08 then [backslash, CHR ''b'']
      else if r = 0x0C then [backslash, CHR ''f''] else if r = 0x0A then [backslash, CHR ''n'']
      else if r = 0x0D then [backslash, CHR ''r''] else if r = 0x09 then [backslash, CHR ''t'']
      else if r = 0x0B then [backslash, CHR ''v'']
      else if r < 0x20 \<or> r = 0x7F then [backslash, CHR ''x''] @ hexPad 2 r
      else if r < 0x10000 then [backslash, CHR ''u''] @ hexPad 4 r
      else [backslash, CHR ''U''] @ hexPad 8 r)"

text \<open>One rune, given with its bytes; a byte that starts no valid sequence is printed in hexadecimal.\<close>

definition quoteRune :: "unicode \<Rightarrow> nat \<Rightarrow> string \<Rightarrow> string" where
  "quoteRune u r bytes =
     (if r = RuneError \<and> length bytes = 1 then [backslash, CHR ''x''] @ hexPad 2 (byte (hd bytes))
      else if r = byte dquote \<or> r = byte backslash then backslash # bytes
      else if IsPrint u r then bytes
      else escapeRune r)"

function quoteBody :: "unicode \<Rightarrow> string \<Rightarrow> string" where
  "quoteBody u s =
     (if s = [] then []
      else quoteRune u (fst (DecodeRuneInString s)) (take (snd (DecodeRuneInString s)) s)
           @ quoteBody u (drop (snd (DecodeRuneInString s)) s))"
  by pat_completeness auto
termination
  by (relation "measure (length \<circ> snd)") (auto simp: DecodeRune_width)

declare quoteBody.simps [simp del]

definition Quote :: "unicode \<Rightarrow> string \<Rightarrow> string" where
  "Quote u s = dquote # quoteBody u s @ [dquote]"

subsection \<open>Commands and their text\<close>

datatype family = Inet4 | Inet6

datatype nft =
    DeleteTable
  | AddTable
  | ForwardChain
  | Accept string string                 \<comment> \<open>iifname, oifname\<close>
  | AcceptReply string string            \<comment> \<open>the same for established and related traffic\<close>
  | AddSet family string
  | AddElement string "string list"
  | AcceptSet family string string string \<comment> \<open>iifname, oifname, set\<close>
  | PostroutingChain
  | Masquerade string string             \<comment> \<open>source address, oifname\<close>

definition ruleLine :: "unicode \<Rightarrow> string \<Rightarrow> string \<Rightarrow> string \<Rightarrow> string" where
  "ruleLine u iif oif rest =
     ''add rule inet open_tunnelbroker forward iifname '' @ Quote u iif @ '' oifname '' @ Quote u oif @ rest @ nl"

fun render :: "unicode \<Rightarrow> nft \<Rightarrow> string" where
  "render u DeleteTable = ''delete table inet open_tunnelbroker'' @ nl"
| "render u AddTable = ''add table inet open_tunnelbroker'' @ nl"
| "render u ForwardChain =
     ''add chain inet open_tunnelbroker forward { type filter hook forward priority 0; policy drop; }'' @ nl"
| "render u (Accept iif oif) = ruleLine u iif oif '' accept''"
| "render u (AcceptReply iif oif) = ruleLine u iif oif '' ct state established,related accept''"
| "render u (AddSet Inet6 name) =
     ''add set inet open_tunnelbroker '' @ name @ '' { type ipv6_addr; flags interval; }'' @ nl"
| "render u (AddSet Inet4 name) = ''add set inet open_tunnelbroker '' @ name @ '' { type ipv4_addr; }'' @ nl"
| "render u (AddElement name es) =
     ''add element inet open_tunnelbroker '' @ name @ '' { '' @ Join es '', '' @ '' }'' @ nl"
| "render u (AcceptSet Inet6 iif oif name) =
     ruleLine u iif oif ('' ip6 saddr @'' @ name @ '' ip6 daddr @'' @ name @ '' accept'')"
| "render u (AcceptSet Inet4 iif oif name) =
     ruleLine u iif oif ('' ip saddr @'' @ name @ '' ip daddr @'' @ name @ '' accept'')"
| "render u PostroutingChain =
     ''add chain inet open_tunnelbroker postrouting { type nat hook postrouting priority 100; policy accept; }'' @ nl"
| "render u (Masquerade addr oif) =
     ''add rule inet open_tunnelbroker postrouting ip saddr '' @ addr @ ''/32 oifname '' @ Quote u oif @ '' masquerade'' @ nl"

subsection \<open>The interfaces\<close>

definition sortedKeys :: "string list \<Rightarrow> string list" where
  "sortedKeys keys = sort (remdups keys)"

definition tunnelInterfaces :: "upstream list \<Rightarrow> string list" where
  "tunnelInterfaces ups = sortedKeys (filter (\<lambda>n. n \<noteq> []) (map up_InterfaceName ups))"

definition warpTunnelInterfaces :: "settings \<Rightarrow> upstream list \<Rightarrow> tunnel list \<Rightarrow> string list" where
  "warpTunnelInterfaces cfg ups ts =
     (let byID = upstreamsByID ups in
      sortedKeys (concat (map (\<lambda>t. case byID (t_UpstreamID t) of
          None \<Rightarrow> []
        | Some up \<Rightarrow> if tunnelV4Mode cfg up t = V4ModeWarp then [up_InterfaceName up] else []) ts)))"

definition forwardPair :: "string \<Rightarrow> string \<Rightarrow> nft list" where
  "forwardPair inner outer = [Accept inner outer, AcceptReply outer inner]"

subsection \<open>Traffic between tunnels\<close>

text \<open>The tunnels the groups are made of, and the members of a group in the order they are appended.\<close>

definition groupable :: "upstream list \<Rightarrow> tunnel list \<Rightarrow> tunnel list" where
  "groupable ups ts = filter (\<lambda>t. t_Enabled t \<and> upstreamsByID ups (t_UpstreamID t) \<noteq> None) ts"

definition groupMembers :: "upstream list \<Rightarrow> tunnel list \<Rightarrow> string \<Rightarrow> tunnel list" where
  "groupMembers ups ts name = concat (map (\<lambda>t. map (\<lambda>_. t) (filter (\<lambda>g. g = name) (t_RoutingGroups t))) (groupable ups ts))"

fun groupElements ::
  "settings \<Rightarrow> (int \<rightharpoonup> upstream) \<Rightarrow> tunnel list \<Rightarrow> (string list \<times> string list) result" where
  "groupElements cfg byID [] = Inr ([], [])"
| "groupElements cfg byID (t # ts) =
     (case ParsePrefix (t_V6CIDR t) of
        None \<Rightarrow> Inl (Errorf ''tunnel %d has invalid IPv6 allocation'' [Itoa (t_ID t)])
      | Some p \<Rightarrow>
          if \<not> Is6 (pAddr p) then Inl (Errorf ''tunnel %d has invalid IPv6 allocation'' [Itoa (t_ID t)])
          else if tunnelIPv4Enabled cfg (case byID (t_UpstreamID t) of None \<Rightarrow> zeroUpstream | Some up \<Rightarrow> up) t
          then (case ParseAddr (t_V4Address t) of
                  None \<Rightarrow> Inl (Errorf ''tunnel %d has invalid IPv4 allocation'' [Itoa (t_ID t)])
                | Some a \<Rightarrow>
                    if \<not> Is4 a then Inl (Errorf ''tunnel %d has invalid IPv4 allocation'' [Itoa (t_ID t)])
                    else (case groupElements cfg byID ts of
                            Inl e \<Rightarrow> Inl e
                          | Inr (v6s, v4s) \<Rightarrow> Inr (prefixString (Masked p) # v6s, addrString a # v4s)))
          else (case groupElements cfg byID ts of
                  Inl e \<Rightarrow> Inl e
                | Inr (v6s, v4s) \<Rightarrow> Inr (prefixString (Masked p) # v6s, v4s)))"

definition setName :: "nat \<Rightarrow> string \<Rightarrow> string" where
  "setName index suffix = ''tunnel_group_'' @ dec index @ suffix"

definition groupCommands :: "string list \<Rightarrow> nat \<Rightarrow> string list \<times> string list \<Rightarrow> nft list" where
  "groupCommands interfaces index es =
     (case es of (v6s, v4s) \<Rightarrow>
      let v6Set = setName index ''_v6'';
          v4Set = (if 2 \<le> length v4s then setName index ''_v4'' else [])
      in [AddSet Inet6 v6Set, AddElement v6Set v6s]
         @ (if 2 \<le> length v4s then [AddSet Inet4 v4Set, AddElement v4Set v4s] else [])
         @ concat (map (\<lambda>ingress. concat (map (\<lambda>egress.
             AcceptSet Inet6 ingress egress v6Set # (if v4Set \<noteq> [] then [AcceptSet Inet4 ingress egress v4Set] else []))
             interfaces)) interfaces))"

fun groupLoop ::
  "(string \<Rightarrow> tunnel list) \<Rightarrow> (tunnel list \<Rightarrow> (string list \<times> string list) result) \<Rightarrow> string list \<Rightarrow> nat \<Rightarrow> string list
     \<Rightarrow> nft list result" where
  "groupLoop members els interfaces index [] = Inr []"
| "groupLoop members els interfaces index (name # names) =
     (if length (members name) < 2 then groupLoop members els interfaces (Suc index) names
      else case els (members name) of
        Inl e \<Rightarrow> Inl e
      | Inr es \<Rightarrow>
          (case groupLoop members els interfaces (Suc index) names of
             Inl e \<Rightarrow> Inl e
           | Inr rest \<Rightarrow> Inr (groupCommands interfaces index es @ rest)))"

definition routingGroupRules :: "settings \<Rightarrow> upstream list \<Rightarrow> tunnel list \<Rightarrow> nft list result" where
  "routingGroupRules cfg ups ts =
     groupLoop (groupMembers ups ts) (groupElements cfg (upstreamsByID ups)) (tunnelInterfaces ups) 0
       (sortedKeys (concat (map t_RoutingGroups (groupable ups ts))))"

definition interTunnelRules :: "settings \<Rightarrow> upstream list \<Rightarrow> tunnel list \<Rightarrow> nft list result" where
  "interTunnelRules cfg ups ts =
     (if InterTunnelPolicy cfg = [] \<or> InterTunnelPolicy cfg = InterTunnelIsolated then Inr []
      else if InterTunnelPolicy cfg = InterTunnelAny
      then Inr (concat (map (\<lambda>ingress. map (\<lambda>egress. Accept ingress egress) (tunnelInterfaces ups)) (tunnelInterfaces ups)))
      else if InterTunnelPolicy cfg = InterTunnelGroups then routingGroupRules cfg ups ts
      else Inl (newError ''invalid inter-tunnel routing policy''))"

subsection \<open>The whole table\<close>

fun checkInterfaces :: "upstream list \<Rightarrow> error option" where
  "checkInterfaces [] = None"
| "checkInterfaces (up # ups) =
     (if up_EgressInterface up = [] then Some (Errorf ''upstream %q has no egress interface'' [up_Name up])
      else if up_InterfaceName up = [] then Some (Errorf ''upstream %q has no WireGuard interface'' [up_Name up])
      else checkInterfaces ups)"

definition natRules :: "settings \<Rightarrow> upstream list \<Rightarrow> tunnel list \<Rightarrow> nft list" where
  "natRules cfg ups ts = concat (map (\<lambda>t. case upstreamsByID ups (t_UpstreamID t) of
       None \<Rightarrow> []
     | Some up \<Rightarrow>
         if \<not> tunnelIPv4Enabled cfg up t then []
         else [Masquerade (t_V4Address t)
                (if tunnelV4Mode cfg up t = V4ModeWarp then warpInterfaceName else up_EgressInterface up)]) ts)"

definition nftCommands :: "settings \<Rightarrow> upstream list \<Rightarrow> tunnel list \<Rightarrow> nft list result" where
  "nftCommands cfg ups ts =
     (if ups = [] then Inr [DeleteTable, AddTable]
      else case checkInterfaces ups of
        Some e \<Rightarrow> Inl e
      | None \<Rightarrow>
          (case interTunnelRules cfg ups ts of
             Inl e \<Rightarrow> Inl e
           | Inr interTunnel \<Rightarrow>
               let warpEnabled = list_ex (\<lambda>t. resolvedV4Mode cfg (upstreamsByID ups) t = V4ModeWarp) ts;
                   nats = natRules cfg ups ts
               in Inr ([DeleteTable, AddTable, ForwardChain]
                    @ concat (map (\<lambda>up. forwardPair (up_InterfaceName up) (up_EgressInterface up)) ups)
                    @ interTunnel
                    @ (if warpEnabled
                       then concat (map (\<lambda>name. forwardPair name warpInterfaceName) (warpTunnelInterfaces cfg ups ts))
                       else [])
                    @ (if nats \<noteq> [] then PostroutingChain # nats else []))))"

definition buildNFTScript :: "unicode \<Rightarrow> settings \<Rightarrow> upstream list \<Rightarrow> tunnel list \<Rightarrow> string result" where
  "buildNFTScript u cfg ups ts = map_sum id (\<lambda>cmds. concat (map (render u) cmds)) (nftCommands cfg ups ts)"

end
