(* ===== verification/Ndp_Responder.thy ===== *)
theory Ndp_Responder
  imports Ndp
begin

section \<open>The packet listeners (internal/broker/ndp_linux.go)\<close>

text \<open>
  One responder per egress interface reads Ethernet frames from a packet socket and answers the
  solicitations its proxy set covers. The system calls (link lookup, socket options) are
  parameters, the fields of \<open>ndp_sys\<close>; the open descriptors are part of the state, so that the
  theorems can say that none is leaked. The receive loop is a function of the sequence of events
  it meets: frames, read errors, new proxy sets stored by \<open>Configure\<close>, and the stop request.
\<close>

unbundle bit_operations_syntax

subsection \<open>The socket filter\<close>

datatype sock_filter = SockFilter (bpf_code: nat) (bpf_jt: nat) (bpf_jf: nat) (bpf_k: nat)

text \<open>The instruction classes and modes of classic BPF.\<close>

definition BPF_LD :: nat where "BPF_LD = 0x00"
definition BPF_JMP :: nat where "BPF_JMP = 0x05"
definition BPF_RET :: nat where "BPF_RET = 0x06"
definition BPF_H :: nat where "BPF_H = 0x08"
definition BPF_B :: nat where "BPF_B = 0x10"
definition BPF_ABS :: nat where "BPF_ABS = 0x20"
definition BPF_JEQ :: nat where "BPF_JEQ = 0x10"
definition BPF_K :: nat where "BPF_K = 0x00"
definition ETH_P_IPV6 :: nat where "ETH_P_IPV6 = 0x86DD"

lemmas bpf_consts = BPF_LD_def BPF_JMP_def BPF_RET_def BPF_H_def BPF_B_def BPF_ABS_def BPF_JEQ_def
  BPF_K_def ETH_P_IPV6_def

definition neighborSolicitationFilter :: "sock_filter list" where
  "neighborSolicitationFilter =
     (let ethertypeOffset = 12; nextHeaderOffset = ethernetHeaderLength + 6;
          icmpTypeOffset = ethernetHeaderLength + ipv6HeaderLength
      in [SockFilter (BPF_LD OR BPF_H OR BPF_ABS) 0 0 ethertypeOffset,
          SockFilter (BPF_JMP OR BPF_JEQ OR BPF_K) 0 5 ETH_P_IPV6,
          SockFilter (BPF_LD OR BPF_B OR BPF_ABS) 0 0 nextHeaderOffset,
          SockFilter (BPF_JMP OR BPF_JEQ OR BPF_K) 0 3 protocolICMPv6,
          SockFilter (BPF_LD OR BPF_B OR BPF_ABS) 0 0 icmpTypeOffset,
          SockFilter (BPF_JMP OR BPF_JEQ OR BPF_K) 0 1 icmpv6NeighborSolicitation,
          SockFilter (BPF_RET OR BPF_K) 0 0 0xffffffff,
          SockFilter (BPF_RET OR BPF_K) 0 0 0])"

text \<open>
  What the instructions mean: absolute loads of a byte or a big-endian half word into the
  accumulator, where a load past the end of the packet rejects it; a comparison that skips \<open>jt\<close> or
  \<open>jf\<close> instructions; and the return of the number of bytes to keep, 0 to drop the packet. Jumps
  only go forward, so a run ends.
\<close>

function bpf_run :: "sock_filter list \<Rightarrow> nat \<Rightarrow> bytes \<Rightarrow> nat" where
  "bpf_run [] acc pkt = 0"
| "bpf_run (SockFilter code jt jf k # rest) acc pkt =
     (if code = 0x28 then
        (if k + 2 \<le> length pkt then bpf_run rest (unat (Uint16 (pkt ! k) (pkt ! (k + 1)))) pkt else 0)
      else if code = 0x30 then
        (if k < length pkt then bpf_run rest (unat (pkt ! k)) pkt else 0)
      else if code = 0x15 then bpf_run (drop (if acc = k then jt else jf) rest) acc pkt
      else if code = 0x06 then k else 0)"
  by pat_completeness auto
termination
  by (relation "measure (\<lambda>(p, _, _). length p)") auto

definition bpf_accepts :: "sock_filter list \<Rightarrow> bytes \<Rightarrow> bool" where
  "bpf_accepts prog pkt \<longleftrightarrow> bpf_run prog 0 pkt \<noteq> 0"

subsection \<open>Answering a frame\<close>

text \<open>\<open>net.HardwareAddr.String\<close>: two lower-case hex digits per byte, separated by colons.\<close>

definition hexDigit :: "nat \<Rightarrow> char" where
  "hexDigit n = (''0123456789abcdef'' ! n)"

definition macString :: "bytes \<Rightarrow> string" where
  "macString a = Join (map (\<lambda>b. [hexDigit (unat b div 16), hexDigit (unat b mod 16)]) a) '':''"

definition buildNeighborAdvertisementFrame ::
    "neighborSolicitation \<Rightarrow> bytes \<Rightarrow> bytes \<Rightarrow> bytes result" where
  "buildNeighborAdvertisementFrame solicitation hardware destination =
     (if length hardware \<noteq> ethernetAddressLength \<or> length destination \<noteq> ethernetAddressLength
      then Err ''neighbor discovery proxying requires Ethernet addresses''
      else case buildNeighborAdvertisement (Target solicitation) (Source solicitation) hardware of
        Inl err \<Rightarrow> Inl err
      | Inr packet \<Rightarrow> Inr (destination @ hardware @ PutUint16 (of_nat ETH_P_IPV6) @ packet))"

text \<open>\<open>current\<close> is the stored proxy pset, \<open>None\<close> for the nil pointer.\<close>

definition answer :: "ndpProxySet option \<Rightarrow> bytes \<Rightarrow> bytes \<Rightarrow> (bytes \<times> bytes) option" where
  "answer current frame hardware =
     (if length frame < ethernetHeaderLength then None
      else let sender = slice 6 12 frame in
      if macString hardware = macString sender then None
      else (case current of
        None \<Rightarrow> None
      | Some pset \<Rightarrow>
          (case parseNeighborSolicitation (drop ethernetHeaderLength frame) of
             Inl err \<Rightarrow> None
           | Inr solicitation \<Rightarrow>
               if \<not> shouldAnswer pset (Target solicitation) then None
               else (case buildNeighborAdvertisementFrame solicitation hardware sender of
                   Inl err \<Rightarrow> None
                 | Inr reply \<Rightarrow> Some (reply, sender)))))"

subsection \<open>The receive loop\<close>

definition htons :: "16 word \<Rightarrow> 16 word" where
  "htons value = push_bit 8 value OR drop_bit 8 value"

record sockaddr_ll =
  sll_Protocol :: "16 word"
  sll_Ifindex :: int
  sll_Halen :: nat
  sll_Addr :: bytes

datatype loop_event =
    Stopped
  | Received bytes
  | ReadError
  | Stored ndpProxySet

text \<open>
  The frames the loop sends, each with its link-layer destination: the loop stops at a stop
  request, skips every read error, and consults the stored set anew for each frame.
\<close>

fun serve :: "ndpProxySet option \<Rightarrow> bytes \<Rightarrow> int \<Rightarrow> loop_event list \<Rightarrow> (bytes \<times> sockaddr_ll) list" where
  "serve current hardware index [] = []"
| "serve current hardware index (Stopped # events) = []"
| "serve current hardware index (ReadError # events) = serve current hardware index events"
| "serve current hardware index (Stored pset # events) = serve (Some pset) hardware index events"
| "serve current hardware index (Received frame # events) =
     (case answer current frame hardware of
        None \<Rightarrow> []
      | Some (reply, destination) \<Rightarrow>
          [(reply, \<lparr>sll_Protocol = htons (of_nat ETH_P_IPV6), sll_Ifindex = index,
                    sll_Halen = ethernetAddressLength, sll_Addr = destination\<rparr>)]) @
     serve current hardware index events"

subsection \<open>One responder\<close>

record ndp_sys =
  LinkByName :: "string \<Rightarrow> (int \<times> bytes) result"
  sys_socket :: "int list \<Rightarrow> int result"
  sys_attach_filter :: "int \<Rightarrow> sock_filter list \<Rightarrow> error option"
  sys_bind :: "int \<Rightarrow> int \<Rightarrow> error option"
  sys_ignore_outgoing :: "int \<Rightarrow> error option"
  sys_add_allmulti :: "int \<Rightarrow> int \<Rightarrow> error option"
  sys_receive_timeout :: "int \<Rightarrow> error option"

text \<open>The open descriptors \<open>fds\<close> are threaded through; \<open>removeAll\<close> is \<open>unix.Close\<close>.\<close>

definition openNDPSocket :: "ndp_sys \<Rightarrow> int \<Rightarrow> int list \<Rightarrow> int result \<times> int list" where
  "openNDPSocket sys index fds =
     (case sys_socket sys fds of
        Inl err \<Rightarrow> (Inl (Wrapf ''open packet socket: %w'' [] err), fds)
      | Inr socket \<Rightarrow>
          let fail = (\<lambda>msg err. (Inl (Wrapf msg [] err), removeAll socket (socket # fds))) in
          (case sys_attach_filter sys socket neighborSolicitationFilter of
             Some err \<Rightarrow> fail ''attach neighbor solicitation filter: %w'' err
           | None \<Rightarrow>
          (case sys_bind sys socket index of
             Some err \<Rightarrow> fail ''bind packet socket: %w'' err
           | None \<Rightarrow>
          (case sys_ignore_outgoing sys socket of
             Some err \<Rightarrow> fail ''ignore outgoing frames: %w'' err
           | None \<Rightarrow>
          (case sys_add_allmulti sys socket index of
             Some err \<Rightarrow> fail ''enable all-multicast reception: %w'' err
           | None \<Rightarrow>
          (case sys_receive_timeout sys socket of
             Some err \<Rightarrow> fail ''set receive timeout: %w'' err
           | None \<Rightarrow> (Inr socket, socket # fds)))))))"

record responder =
  r_current :: "ndpProxySet option"
  r_upstreamName :: string
  r_index :: int
  r_hardware :: bytes
  r_socket :: int

definition newNDPResponder :: responder where
  "newNDPResponder = \<lparr>r_current = None, r_upstreamName = [], r_index = 0, r_hardware = [], r_socket = -1\<rparr>"

definition stopLocked :: "responder \<Rightarrow> int list \<Rightarrow> responder \<times> int list" where
  "stopLocked r fds =
     (if r_socket r < 0 then (r, fds)
      else (\<lparr>r_current = Some emptySet, r_upstreamName = [], r_index = 0, r_hardware = [], r_socket = -1\<rparr>,
            removeAll (r_socket r) fds))"

definition responder_Configure ::
    "ndp_sys \<Rightarrow> string \<Rightarrow> ndpProxySet \<Rightarrow> responder \<Rightarrow> int list \<Rightarrow> error option \<times> responder \<times> int list" where
  "responder_Configure sys upstreamInterface pset r fds =
     (if ndp_empty pset \<or> upstreamInterface = [] then (None, stopLocked r fds)
      else if 0 \<le> r_socket r \<and> r_upstreamName r = upstreamInterface
      then (None, r\<lparr>r_current := Some pset\<rparr>, fds)
      else let (r, fds) = stopLocked r fds in
        case LinkByName sys upstreamInterface of
          Inl err \<Rightarrow> (Some (Wrapf ''neighbor discovery proxy: upstream interface %s: %w'' [upstreamInterface] err), r, fds)
        | Inr (index, hardware) \<Rightarrow>
            if length hardware \<noteq> ethernetAddressLength
            then (Some (Errorf ''neighbor discovery proxy: %s has no Ethernet address, so an on-link upstream cannot be proxied''
                    [upstreamInterface]), r, fds)
            else (case openNDPSocket sys index fds of
                (Inl err, fds) \<Rightarrow> (Some (Wrapf ''neighbor discovery proxy: %w'' [] err), r, fds)
              | (Inr socket, fds) \<Rightarrow>
                  (None, \<lparr>r_current = Some pset, r_upstreamName = upstreamInterface, r_index = index,
                          r_hardware = hardware, r_socket = socket\<rparr>, fds)))"

definition responder_Close :: "responder \<Rightarrow> int list \<Rightarrow> responder \<times> int list" where
  "responder_Close r fds = stopLocked r fds"

definition responder_state :: "responder \<Rightarrow> string \<times> ndpProxySet \<times> bool" where
  "responder_state r =
     (r_upstreamName r, (case r_current r of None \<Rightarrow> emptySet | Some s \<Rightarrow> s), 0 \<le> r_socket r)"

subsection \<open>The manager\<close>

text \<open>
  The manager's map of responders with the open descriptors. Go iterates over a map in an
  unspecified order: the lists \<open>running\<close> and \<open>names\<close> are that order, each listing the keys once.
\<close>

type_synonym manager = "(string \<rightharpoonup> responder) \<times> int list"

fun close_stale :: "(string \<rightharpoonup> ndpProxySet) \<Rightarrow> string list \<Rightarrow> manager \<Rightarrow> manager" where
  "close_stale sets [] m = m"
| "close_stale sets (name # names) (rs, fds) =
     close_stale sets names
       (case rs name of
          None \<Rightarrow> (rs, fds)
        | Some r \<Rightarrow>
            if (case sets name of None \<Rightarrow> True | Some pset \<Rightarrow> ndp_empty pset)
            then (rs(name := None), snd (responder_Close r fds))
            else (rs, fds))"

fun configure_sets ::
    "ndp_sys \<Rightarrow> (string \<rightharpoonup> ndpProxySet) \<Rightarrow> string list \<Rightarrow> error option \<Rightarrow> manager \<Rightarrow> error option \<times> manager" where
  "configure_sets sys sets [] firstErr m = (firstErr, m)"
| "configure_sets sys sets (name # names) firstErr (rs, fds) =
     (case sets name of
        None \<Rightarrow> configure_sets sys sets names firstErr (rs, fds)
      | Some pset \<Rightarrow>
          if ndp_empty pset \<or> name = [] then configure_sets sys sets names firstErr (rs, fds)
          else let r = (case rs name of None \<Rightarrow> newNDPResponder | Some r \<Rightarrow> r) in
            (case responder_Configure sys name pset r fds of
               (None, r, fds) \<Rightarrow> configure_sets sys sets names firstErr (rs(name \<mapsto> r), fds)
             | (Some err, r, fds) \<Rightarrow>
                 configure_sets sys sets names
                   (case firstErr of None \<Rightarrow> Some err | Some e \<Rightarrow> Some e)
                   (rs(name := None), snd (responder_Close r fds))))"

definition manager_Configure ::
    "ndp_sys \<Rightarrow> string list \<Rightarrow> string list \<Rightarrow> (string \<rightharpoonup> ndpProxySet) \<Rightarrow> manager \<Rightarrow> error option \<times> manager" where
  "manager_Configure sys running names sets m =
     configure_sets sys sets names None (close_stale sets running m)"

fun manager_Close :: "string list \<Rightarrow> manager \<Rightarrow> manager" where
  "manager_Close [] m = m"
| "manager_Close (name # names) (rs, fds) =
     manager_Close names
       (case rs name of None \<Rightarrow> (rs, fds) | Some r \<Rightarrow> (rs(name := None), snd (responder_Close r fds)))"

definition manager_states :: "manager \<Rightarrow> (string \<rightharpoonup> ndpProxySet)" where
  "manager_states m name =
     (case fst m name of
        None \<Rightarrow> None
      | Some r \<Rightarrow> (case responder_state r of (_, pset, up) \<Rightarrow> if up then Some pset else None))"

text \<open>\<open>upstreamLocalAddresses\<close>: the addresses of a link, IPv4-mapped ones unwrapped.\<close>

definition upstreamLocalAddresses ::
    "(string \<Rightarrow> 'l result) \<Rightarrow> ('l \<Rightarrow> bytes list result) \<Rightarrow> string \<Rightarrow> addr list result" where
  "upstreamLocalAddresses linkByName addrList upstreamInterface =
     (case linkByName upstreamInterface of
        Inl err \<Rightarrow> Inl err
      | Inr link \<Rightarrow>
          (case addrList link of
             Inl err \<Rightarrow> Inl err
           | Inr addresses \<Rightarrow> Inr (map Unmap (List.map_filter AddrFromSlice addresses))))"

subsection \<open>Facts about frames\<close>

lemma hexDigit_inject: "m < 16 \<Longrightarrow> n < 16 \<Longrightarrow> hexDigit m = hexDigit n \<longleftrightarrow> m = n"
  unfolding hexDigit_def by (subst nth_eq_iff_index_eq) (simp_all add: eval_nat_numeral)

lemma hexByte_inject:
  "hexDigit (unat a div 16) = hexDigit (unat b div 16) \<Longrightarrow>
   hexDigit (unat a mod 16) = hexDigit (unat b mod 16) \<Longrightarrow> a = (b :: 8 word)"
  using unat_byte_lt [of a] unat_byte_lt [of b]
  by (simp add: hexDigit_inject div_less_iff_less_mult word_unat_eq_iff) (metis div_mult_mod_eq)

lemma macString_Cons:
  "macString (b # bs) = [hexDigit (unat b div 16), hexDigit (unat b mod 16)] @
     (if bs = [] then [] else CHR '':'' # macString bs)"
  by (cases bs) (simp_all add: macString_def)

lemma macString_inject: "macString a = macString b \<longleftrightarrow> a = b"
proof (induction a arbitrary: b)
  case Nil
  show ?case by (cases b) (simp_all add: macString_Cons, simp add: macString_def)
next
  case (Cons x xs)
  show ?case
  proof (cases b)
    case Nil
    then show ?thesis by (simp add: macString_Cons) (simp add: macString_def)
  next
    case (Cons y ys)
    have "macString ys = [] \<longleftrightarrow> ys = []" by (cases ys) (simp_all add: macString_Cons, simp add: macString_def)
    then show ?thesis using Cons.IH [of ys] hexByte_inject [of x y] by (auto simp: Cons macString_Cons)
  qed
qed

text \<open>Everything the parser has checked about a packet it accepts.\<close>

lemma parse_checks:
  assumes "parseNeighborSolicitation packet = Inr ns"
  defines "n \<equiv> unat (Uint16 (packet ! 4) (packet ! 5))"
  shows "64 \<le> length packet" "drop_bit 4 (packet ! 0) = 6" "packet ! 6 = 58" "packet ! 7 = 255"
    "24 \<le> n" "40 + n \<le> length packet" "packet ! 40 = 135" "packet ! 41 = 0"
    "AddrFromSlice (slice 8 24 packet) = Some (Source ns)"
    "AddrFromSlice (slice 24 40 packet) = Some (Destination ns)"
    "AddrFromSlice (slice 48 64 packet) = Some (Target ns)"
    "icmpv6Checksum (Source ns) (Destination ns) (slice 40 (40 + n) packet) = 0"
    "IsGlobalUnicast (Target ns) \<or> IsPrivate (Target ns)"
    "IsGlobalUnicast (Source ns) \<or> IsPrivate (Source ns) \<or> IsLinkLocalUnicast (Source ns)"
proof -
  have u: "unat b = k \<longleftrightarrow> b = of_nat k" if "k < 256" for b :: "8 word" and k
    using that by (auto simp: unat_of_nat)
  note defs = parseNeighborSolicitation_def Let_def ndp_consts
  show g: "64 \<le> length packet" "drop_bit 4 (packet ! 0) = 6" "packet ! 6 = 58" "packet ! 7 = 255"
    "24 \<le> n" "40 + n \<le> length packet"
    using assms by (auto simp: defs u not_less split: if_splits)
  have "slice 40 (40 + n) packet ! k = packet ! (40 + k)" if "k < 24" for k
    using g that by (simp add: slice_def)
  moreover have "slice 8 24 (slice 40 (40 + n) packet) = slice 48 64 packet"
    using g by (simp add: slice_def drop_take)
  ultimately show "packet ! 40 = 135" "packet ! 41 = 0"
    "AddrFromSlice (slice 8 24 packet) = Some (Source ns)"
    "AddrFromSlice (slice 24 40 packet) = Some (Destination ns)"
    "AddrFromSlice (slice 48 64 packet) = Some (Target ns)"
    "icmpv6Checksum (Source ns) (Destination ns) (slice 40 (40 + n) packet) = 0"
    "IsGlobalUnicast (Target ns) \<or> IsPrivate (Target ns)"
    "IsGlobalUnicast (Source ns) \<or> IsPrivate (Source ns) \<or> IsLinkLocalUnicast (Source ns)"
    using assms by (auto simp: defs u split: if_splits option.splits)
qed

lemma answer_iff:
  "answer current frame hardware = Some (reply, dest) \<longleftrightarrow>
     14 \<le> length frame \<and> dest = slice 6 12 frame \<and> dest \<noteq> hardware \<and>
     (\<exists>set ns packet. current = Some set \<and> parseNeighborSolicitation (drop 14 frame) = Inr ns \<and>
        shouldAnswer set (Target ns) \<and> length hardware = 6 \<and>
        buildNeighborAdvertisement (Target ns) (Source ns) hardware = Inr packet \<and>
        reply = dest @ hardware @ [0x86, 0xDD] @ packet)"
proof -
  have l: "14 \<le> length frame \<Longrightarrow> length (slice 6 12 frame) = 6" by (simp add: slice_def)
  have e: "PutUint16 (of_nat ETH_P_IPV6) = [0x86, 0xDD]" by (simp add: PutUint16_def ETH_P_IPV6_def)
  show ?thesis
    using l
    by (auto simp: answer_def Let_def macString_inject buildNeighborAdvertisementFrame_def e
        ethernetHeaderLength_def ethernetAddressLength_def not_less
        split: if_splits option.splits sum.splits)
qed

lemma neighborSolicitationFilter_code:
  "neighborSolicitationFilter =
     [SockFilter 0x28 0 0 12, SockFilter 0x15 0 5 0x86DD, SockFilter 0x30 0 0 20, SockFilter 0x15 0 3 58,
      SockFilter 0x30 0 0 54, SockFilter 0x15 0 1 135, SockFilter 0x06 0 0 0xffffffff, SockFilter 0x06 0 0 0]"
  by (simp add: neighborSolicitationFilter_def Let_def bpf_consts ndp_consts)

lemma filter_iff:
  "bpf_accepts neighborSolicitationFilter frame \<longleftrightarrow>
     55 \<le> length frame \<and> Uint16 (frame ! 12) (frame ! 13) = 0x86DD \<and> frame ! 20 = 58 \<and> frame ! 54 = 135"
proof -
  have b: "unat b = k \<longleftrightarrow> b = of_nat k" if "k < 256" for b :: "8 word" and k
    using that by (auto simp: unat_of_nat)
  have w: "unat v = 34525 \<longleftrightarrow> v = 0x86DD" for v :: "16 word"
    by (simp add: word_unat_eq_iff)
  show ?thesis
    by (auto simp: bpf_accepts_def neighborSolicitationFilter_code b w)
qed

subsection \<open>Facts about responders\<close>

text \<open>The proxy set the loop consults after a number of events.\<close>

fun in_force :: "ndpProxySet option \<Rightarrow> loop_event list \<Rightarrow> ndpProxySet option" where
  "in_force current [] = current"
| "in_force current (Stored s # events) = in_force (Some s) events"
| "in_force current (_ # events) = in_force current events"

lemma serve_sent:
  "(f, a) \<in> set (serve current hardware index events) \<Longrightarrow>
   \<exists>pre frame post. events = pre @ Received frame # post \<and> Stopped \<notin> set pre \<and>
     answer (in_force current pre) frame hardware = Some (f, sll_Addr a) \<and> sll_Ifindex a = index"
proof (induction current hardware index events rule: serve.induct)
  case (3 current hardware index events)
  then obtain pre frame post where "events = pre @ Received frame # post" "Stopped \<notin> set pre"
    "answer (in_force current pre) frame hardware = Some (f, sll_Addr a)" "sll_Ifindex a = index"
    by auto
  then show ?case by (intro exI [of _ "ReadError # pre"]) auto
next
  case (4 current hardware index s events)
  then obtain pre frame post where "events = pre @ Received frame # post" "Stopped \<notin> set pre"
    "answer (in_force (Some s) pre) frame hardware = Some (f, sll_Addr a)" "sll_Ifindex a = index"
    by auto
  then show ?case by (intro exI [of _ "Stored s # pre"]) auto
next
  case (5 current hardware index frame0 events)
  show ?case
  proof (cases "(f, a) \<in> set (serve current hardware index events)")
    case True
    with 5 obtain pre frame post where "events = pre @ Received frame # post" "Stopped \<notin> set pre"
      "answer (in_force current pre) frame hardware = Some (f, sll_Addr a)" "sll_Ifindex a = index"
      by auto
    then show ?thesis by (intro exI [of _ "Received frame0 # pre"]) auto
  next
    case False
    with 5 have "answer (in_force current []) frame0 hardware = Some (f, sll_Addr a) \<and> sll_Ifindex a = index"
      by (cases "answer current frame0 hardware") auto
    then have "Received frame0 # events = [] @ Received frame0 # events \<and> Stopped \<notin> set [] \<and>
        answer (in_force current []) frame0 hardware = Some (f, sll_Addr a) \<and> sll_Ifindex a = index"
      by simp
    then show ?thesis by blast
  qed
qed auto

text \<open>Opening a socket either returns a fresh open descriptor or leaves the descriptors alone.\<close>

definition fresh_sockets :: "ndp_sys \<Rightarrow> bool" where
  "fresh_sockets sys \<longleftrightarrow> (\<forall>fds fd. sys_socket sys fds = Inr fd \<longrightarrow> 0 \<le> fd \<and> fd \<notin> set fds)"

lemma openNDPSocket_cases:
  assumes "fresh_sockets sys"
  obtains err where "openNDPSocket sys index fds = (Inl err, fds)"
  | fd where "openNDPSocket sys index fds = (Inr fd, fd # fds)" "0 \<le> fd" "fd \<notin> set fds"
proof (cases "sys_socket sys fds")
  case (Inl e)
  then show ?thesis using that(1) by (simp add: openNDPSocket_def)
next
  case (Inr fd)
  then have "0 \<le> fd" "fd \<notin> set fds" using assms by (auto simp: fresh_sockets_def)
  moreover have "(\<exists>err. openNDPSocket sys index fds = (Inl err, fds)) \<or>
      openNDPSocket sys index fds = (Inr fd, fd # fds)"
    using Inr \<open>fd \<notin> set fds\<close> by (simp add: openNDPSocket_def Let_def split: option.split)
  ultimately show ?thesis using that by blast
qed

text \<open>
  A listener that runs: it holds an open descriptor, serves the interface it is registered under,
  and has a proxy set that is not empty.
\<close>

definition listening :: "string \<Rightarrow> ndpProxySet \<Rightarrow> responder \<Rightarrow> bool" where
  "listening name s r \<longleftrightarrow> 0 \<le> r_socket r \<and> r_upstreamName r = name \<and> r_current r = Some s \<and> \<not> ndp_empty s"

definition socket_of :: "(string \<rightharpoonup> responder) \<Rightarrow> string \<Rightarrow> int" where
  "socket_of rs name = r_socket (the (rs name))"

text \<open>The open descriptors are those of the listeners and the process's \<open>other\<close> ones.\<close>

definition manager_inv :: "int set \<Rightarrow> manager \<Rightarrow> bool" where
  "manager_inv other m \<longleftrightarrow>
     (\<forall>name r. fst m name = Some r \<longrightarrow> name \<noteq> [] \<and> (\<exists>s. listening name s r)) \<and>
     inj_on (socket_of (fst m)) (dom (fst m)) \<and> other \<inter> socket_of (fst m) ` dom (fst m) = {} \<and>
     set (snd m) = other \<union> socket_of (fst m) ` dom (fst m)"

lemma socket_of_upd:
  "socket_of (rs(name := r)) ` (A - {name}) = socket_of rs ` (A - {name})"
  "inj_on (socket_of (rs(name := r))) (A - {name}) \<longleftrightarrow> inj_on (socket_of rs) (A - {name})"
  by (auto simp: socket_of_def inj_on_def)

lemma manager_inv_remove:
  assumes inv: "manager_inv other (rs, fds)" and r: "rs name = Some r"
  shows "manager_inv other (rs(name := None), removeAll (r_socket r) fds)"
proof -
  have inj: "inj_on (socket_of rs) (dom rs)" using inv by (simp add: manager_inv_def)
  have s: "socket_of rs name = r_socket r" "name \<in> dom rs" using r by (auto simp: socket_of_def)
  then have "socket_of rs ` (dom rs - {name}) = socket_of rs ` dom rs - {r_socket r}"
    using inj by (simp add: inj_on_image_set_diff [OF inj, of "dom rs" "{name}"])
  moreover have "r_socket r \<in> socket_of rs ` dom rs" using s by (metis imageI)
  then have "r_socket r \<notin> other" using inv unfolding manager_inv_def fst_conv by blast
  ultimately show ?thesis
    using inv inj_on_subset [OF inj, of "dom rs - {name}"]
    unfolding manager_inv_def fst_conv snd_conv dom_fun_upd
    by (simp add: socket_of_upd) blast
qed

lemma manager_inv_add:
  assumes inv: "manager_inv other (rs, fds)" and "rs name = None" and "name \<noteq> []"
    and "listening name s r" and "r_socket r \<notin> set fds"
  shows "manager_inv other (rs(name \<mapsto> r), r_socket r # fds)"
proof -
  have d: "dom rs - {name} = dom rs" using assms(2) by auto
  have "socket_of (rs(name \<mapsto> r)) name = r_socket r" by (simp add: socket_of_def)
  then show ?thesis
    using assms socket_of_upd [of rs name "Some r" "dom rs"]
    by (auto simp: manager_inv_def inj_on_insert d)
qed

lemma manager_inv_store:
  assumes inv: "manager_inv other (rs, fds)" and r: "rs name = Some r" and "\<not> ndp_empty s"
  shows "manager_inv other (rs(name \<mapsto> r\<lparr>r_current := Some s\<rparr>), fds)"
proof -
  have "socket_of (rs(name \<mapsto> r\<lparr>r_current := Some s\<rparr>)) = socket_of rs"
    using r by (auto simp: socket_of_def)
  moreover have "dom (rs(name \<mapsto> r\<lparr>r_current := Some s\<rparr>)) = dom rs" using r by auto
  moreover have "listening name s (r\<lparr>r_current := Some s\<rparr>)"
    using assms by (auto simp: manager_inv_def listening_def)
  ultimately show ?thesis using inv r by (auto simp: manager_inv_def)
qed

text \<open>Closing the stale listeners keeps the others as they are.\<close>

definition wanted :: "(string \<rightharpoonup> ndpProxySet) \<Rightarrow> string \<Rightarrow> bool" where
  "wanted sets name \<longleftrightarrow> (case sets name of None \<Rightarrow> False | Some s \<Rightarrow> \<not> ndp_empty s)"

lemma close_stale_spec:
  assumes "manager_inv other m"
  shows "manager_inv other (close_stale sets names m) \<and>
    fst (close_stale sets names m) = (\<lambda>n. if n \<in> set names \<and> \<not> wanted sets n then None else fst m n)"
  using assms
proof (induction sets names m rule: close_stale.induct)
  case (2 sets name names rs fds)
  let ?m = "case rs name of None \<Rightarrow> (rs, fds)
    | Some r \<Rightarrow> if (case sets name of None \<Rightarrow> True | Some s \<Rightarrow> ndp_empty s)
        then (rs(name := None), snd (responder_Close r fds)) else (rs, fds)"
  have w: "(case sets name of None \<Rightarrow> True | Some s \<Rightarrow> ndp_empty s) \<longleftrightarrow> \<not> wanted sets name"
    by (simp add: wanted_def split: option.split)
  have inv: "manager_inv other ?m"
  proof (cases "rs name")
    case (Some r)
    then have "0 \<le> r_socket r" using "2.prems" by (auto simp: manager_inv_def listening_def)
    then show ?thesis
      using Some "2.prems" manager_inv_remove [of other rs fds name r]
      by (simp add: responder_Close_def stopLocked_def)
  qed (use "2.prems" in simp)
  have f: "fst ?m = (\<lambda>n. if n = name \<and> \<not> wanted sets name then None else rs n)"
    unfolding w by (auto split: option.split)
  show ?case using "2.IH" [OF inv] unfolding f close_stale.simps by auto
qed auto

lemma responder_Configure_new:
  assumes "fresh_sockets sys" and "\<not> ndp_empty s" and "name \<noteq> []"
  obtains err r' where "responder_Configure sys name s newNDPResponder fds = (Some err, r', fds)" "r_socket r' = -1"
  | r' where "responder_Configure sys name s newNDPResponder fds = (None, r', r_socket r' # fds)"
      "listening name s r'" "r_socket r' \<notin> set fds"
proof -
  have st: "stopLocked newNDPResponder fds = (newNDPResponder, fds)"
    by (simp add: stopLocked_def newNDPResponder_def)
  have n: "r_socket newNDPResponder = -1" by (simp add: newNDPResponder_def)
  note unf = responder_Configure_def st n assms(2,3)
  show ?thesis
  proof (cases "LinkByName sys name")
    case (Inl e)
    then show ?thesis using that(1) n by (simp add: unf)
  next
    case (Inr p)
    obtain i hw where p: "p = (i, hw)" by (cases p)
    show ?thesis
    proof (cases "length hw = ethernetAddressLength")
      case False
      then show ?thesis using that(1) n Inr p by (simp add: unf)
    next
      case True
      consider err where "openNDPSocket sys i fds = (Inl err, fds)"
        | fd where "openNDPSocket sys i fds = (Inr fd, fd # fds)" "0 \<le> fd" "fd \<notin> set fds"
        using openNDPSocket_cases [OF assms(1)] by metis
      then show ?thesis
      proof cases
        case 1
        then show ?thesis using that(1) n Inr p True by (simp add: unf)
      next
        case 2
        let ?r = "\<lparr>r_current = Some s, r_upstreamName = name, r_index = i, r_hardware = hw, r_socket = fd\<rparr>"
        show ?thesis by (rule that(2) [of ?r]) (use 2 n Inr p True assms in \<open>auto simp: unf listening_def\<close>)
      qed
    qed
  qed
qed

text \<open>
  One pass over the wanted sets. A listener that ran keeps running with the new set; a name that did
  not run is started, or reported and left without a listener.
\<close>

lemma configure_sets_step:
  assumes "fresh_sockets sys" and inv: "manager_inv other (rs, fds)" and s: "sets name = Some s"
    and w: "\<not> ndp_empty s" "name \<noteq> []"
  obtains rs' fds' e where
    "configure_sets sys sets (name # names) firstErr (rs, fds) =
       configure_sets sys sets names (case firstErr of None \<Rightarrow> e | Some x \<Rightarrow> Some x) (rs', fds')"
    "manager_inv other (rs', fds')" "\<forall>n. n \<noteq> name \<longrightarrow> rs' n = rs n"
    "e = None \<longrightarrow> (\<exists>r. rs' name = Some r \<and> listening name s r)"
    "e \<noteq> None \<longrightarrow> rs name = None \<and> rs' name = None"
proof (cases "rs name")
  case (Some r)
  then have "0 \<le> r_socket r" "r_upstreamName r = name"
    using inv by (auto simp: manager_inv_def listening_def)
  then have c: "responder_Configure sys name s r fds = (None, r\<lparr>r_current := Some s\<rparr>, fds)"
    using w by (simp add: responder_Configure_def)
  show ?thesis
    by (rule that [of None "rs(name \<mapsto> r\<lparr>r_current := Some s\<rparr>)" fds])
      (use Some s w c manager_inv_store [OF inv Some w(1)] \<open>0 \<le> r_socket r\<close> \<open>r_upstreamName r = name\<close>
        in \<open>auto simp: listening_def split: option.split\<close>)
next
  case None
  consider err r' where "responder_Configure sys name s newNDPResponder fds = (Some err, r', fds)" "r_socket r' = -1"
    | r' where "responder_Configure sys name s newNDPResponder fds = (None, r', r_socket r' # fds)"
      "listening name s r'" "r_socket r' \<notin> set fds"
    using responder_Configure_new [OF assms(1) w] by metis
  then show ?thesis
  proof cases
    case 1
    then have "responder_Close r' fds = (r', fds)" by (simp add: responder_Close_def stopLocked_def)
    moreover have "rs(name := None) = rs" using None by auto
    ultimately show ?thesis
      by (intro that [of "Some err" rs fds])
        (use 1 None s w inv in \<open>auto simp: Let_def split: option.split\<close>)
  next
    case 2
    show ?thesis
      by (rule that [of None "rs(name \<mapsto> r')" "r_socket r' # fds"])
        (use 2 None s w manager_inv_add [OF inv None w(2) 2(2,3)] in \<open>auto simp: Let_def split: option.split\<close>)
  qed
qed

lemma configure_sets_spec:
  assumes "fresh_sockets sys" and "manager_inv other m" and "distinct names"
    and "configure_sets sys sets names firstErr m = (err, m')"
  shows "manager_inv other m' \<and> (firstErr \<noteq> None \<longrightarrow> err = firstErr) \<and>
    (\<forall>n. n \<notin> set names \<or> n = [] \<or> \<not> wanted sets n \<longrightarrow> fst m' n = fst m n) \<and>
    (\<forall>n s. n \<in> set names \<longrightarrow> n \<noteq> [] \<longrightarrow> sets n = Some s \<longrightarrow> \<not> ndp_empty s \<longrightarrow>
       (\<exists>r. fst m' n = Some r \<and> listening n s r) \<or> err \<noteq> None \<and> fst m n = None \<and> fst m' n = None)"
  using assms(2-)
proof (induction names arbitrary: m firstErr)
  case (Cons name names)
  obtain rs fds where m: "m = (rs, fds)" by (cases m)
  show ?case
  proof (cases "wanted sets name \<and> name \<noteq> []")
    case False
    then have "configure_sets sys sets (name # names) firstErr m = configure_sets sys sets names firstErr m"
      by (auto simp: m wanted_def split: option.split)
    with Cons.IH [of m firstErr] Cons.prems False show ?thesis
      by (auto simp: wanted_def split: option.splits)
  next
    case True
    then obtain s where s: "sets name = Some s" "\<not> ndp_empty s" "name \<noteq> []"
      by (auto simp: wanted_def split: option.splits)
    have inv: "manager_inv other (rs, fds)" using Cons.prems m by simp
    obtain rs' fds' e where
      step: "configure_sets sys sets (name # names) firstErr (rs, fds) =
         configure_sets sys sets names (case firstErr of None \<Rightarrow> e | Some x \<Rightarrow> Some x) (rs', fds')"
      and inv': "manager_inv other (rs', fds')" and same: "\<forall>n. n \<noteq> name \<longrightarrow> rs' n = rs n"
      and ok: "e = None \<longrightarrow> (\<exists>r. rs' name = Some r \<and> listening name s r)"
      and bad: "e \<noteq> None \<longrightarrow> rs name = None \<and> rs' name = None"
      by (rule configure_sets_step [OF assms(1) inv, where sets = sets and name = name and s = s
            and names = names and firstErr = firstErr])
        (use s in auto)
    let ?first = "case firstErr of None \<Rightarrow> e | Some x \<Rightarrow> Some x"
    have d: "name \<notin> set names" "distinct names" using Cons.prems by simp_all
    have "configure_sets sys sets names ?first (rs', fds') = (err, m')" using Cons.prems step m by simp
    note ih = Cons.IH [OF inv' d(2) this]
    have keep: "fst m' name = rs' name" using ih d(1) by auto
    have first: "firstErr \<noteq> None \<Longrightarrow> err = firstErr" "e \<noteq> None \<Longrightarrow> err \<noteq> None"
      using ih by (cases firstErr; auto)+
    have "(\<exists>r. fst m' name = Some r \<and> listening name s r) \<or> err \<noteq> None \<and> fst m name = None \<and> fst m' name = None"
      using ok bad keep first(2) m by (cases e) auto
    note this' = this
    have frame: "\<And>n. n \<notin> set names \<or> n = [] \<or> \<not> wanted sets n \<Longrightarrow> fst m' n = rs' n"
      and run: "\<And>n s. n \<in> set names \<Longrightarrow> n \<noteq> [] \<Longrightarrow> sets n = Some s \<Longrightarrow> \<not> ndp_empty s \<Longrightarrow>
        (\<exists>r. fst m' n = Some r \<and> listening n s r) \<or> err \<noteq> None \<and> rs' n = None \<and> fst m' n = None"
      using ih by simp_all
    show ?thesis
    proof (intro conjI allI impI)
      show "fst m' n = fst m n" if "n \<notin> set (name # names) \<or> n = [] \<or> \<not> wanted sets n" for n
      proof -
        have "n \<noteq> name" using that True by auto
        with frame [of n] same m that show ?thesis by auto
      qed
      show "(\<exists>r. fst m' n = Some r \<and> listening n t r) \<or> err \<noteq> None \<and> fst m n = None \<and> fst m' n = None"
        if "n \<in> set (name # names)" "n \<noteq> []" "sets n = Some t" "\<not> ndp_empty t" for n t
        using this' run [of n t] same m that s(1) by (cases "n = name") auto
    qed (use ih first(1) in auto)
  qed
qed auto

lemma manager_states_inv:
  assumes "manager_inv other m"
  shows "manager_states m n = Some s \<longleftrightarrow> (\<exists>r. fst m n = Some r \<and> listening n s r)"
    and "manager_states m n = None \<longleftrightarrow> fst m n = None"
proof -
  have "\<exists>t. listening n t r" if "fst m n = Some r" for r
    using assms that by (auto simp: manager_inv_def)
  then show "manager_states m n = Some s \<longleftrightarrow> (\<exists>r. fst m n = Some r \<and> listening n s r)"
    and "manager_states m n = None \<longleftrightarrow> fst m n = None"
    by (cases "fst m n"; fastforce simp: manager_states_def responder_state_def listening_def)+
qed

lemma manager_Close_spec:
  "manager_inv other m \<Longrightarrow> manager_inv other (manager_Close names m) \<and>
   fst (manager_Close names m) = (\<lambda>n. if n \<in> set names then None else fst m n)"
proof (induction names m rule: manager_Close.induct)
  case (2 name names rs fds)
  let ?m = "case rs name of None \<Rightarrow> (rs, fds) | Some r \<Rightarrow> (rs(name := None), snd (responder_Close r fds))"
  have inv: "manager_inv other ?m"
  proof (cases "rs name")
    case (Some r)
    then have "0 \<le> r_socket r" using "2.prems" by (auto simp: manager_inv_def listening_def)
    then show ?thesis
      using Some "2.prems" manager_inv_remove [of other rs fds name r]
      by (simp add: responder_Close_def stopLocked_def)
  qed (use "2.prems" in simp)
  have f: "fst ?m = rs(name := None)" by (auto split: option.split)
  show ?case using "2.IH" [OF inv] unfolding f by auto
qed auto

subsection \<open>Properties\<close>






text \<open>
  C29. The socket filter accepts exactly the IPv6 frames whose next header is ICMPv6 and whose type is
  neighbor solicitation; it never drops an IPv6 frame that the responder would answer.
\<close>

theorem filter_lossless:
  "(bpf_accepts neighborSolicitationFilter frame \<longleftrightarrow>
     55 \<le> length frame \<and> Uint16 (frame ! 12) (frame ! 13) = 0x86DD \<and> frame ! 20 = 58 \<and> frame ! 54 = 135) \<and>
   (Uint16 (frame ! 12) (frame ! 13) = 0x86DD \<and> answer current frame hardware \<noteq> None \<longrightarrow>
     bpf_accepts neighborSolicitationFilter frame)"
proof -
  have "55 \<le> length frame \<and> frame ! 20 = 58 \<and> frame ! 54 = 135" if "answer current frame hardware \<noteq> None"
  proof -
    from that obtain reply dest where "answer current frame hardware = Some (reply, dest)" by auto
    then obtain ns where "parseNeighborSolicitation (drop 14 frame) = Inr ns" by (auto simp: answer_iff)
    from parse_checks [OF this] show ?thesis by simp
  qed
  then show ?thesis by (auto simp: filter_iff)
qed

theorem filter_lossless_witness:
  "bpf_accepts neighborSolicitationFilter (replicate 12 0 @ [0x86, 0xDD] @ replicate 6 0 @ [58] @ replicate 33 0 @ [135])"
  using filter_lossless [of "replicate 12 0 @ [0x86, 0xDD] @ replicate 6 0 @ [58] @ replicate 33 0 @ [135]"]
  by (simp add: nth_append Uint16_def)

text \<open>
  Every frame the receive loop sends answers a frame it received before a stop request, judged by
  the proxy set in force when that frame was read: a set stored by a reconfiguration applies from
  the next frame on.
\<close>

theorem serve_uses_current_set:
  assumes "(reply, address) \<in> set (serve current hardware index events)"
  shows "\<exists>pre frame post s ns. events = pre @ Received frame # post \<and> Stopped \<notin> set pre \<and>
     in_force current pre = Some s \<and> parseNeighborSolicitation (drop 14 frame) = Inr ns \<and>
     shouldAnswer s (Target ns) \<and> sll_Addr address = slice 6 12 frame \<and> sll_Ifindex address = index"
proof -
  obtain pre frame post where "events = pre @ Received frame # post" "Stopped \<notin> set pre"
    "answer (in_force current pre) frame hardware = Some (reply, sll_Addr address)" "sll_Ifindex address = index"
    using serve_sent [OF assms] by blast
  then show ?thesis by (auto simp: answer_iff)
qed

text \<open>A solicitation for \<open>::5\<close> from \<open>::2\<close>.\<close>

definition sample_frame :: bytes where
  "sample_frame = [2, 0, 0, 0, 0, 1, 2, 0, 0, 0, 0, 9, 134, 221, 96, 0, 0, 0, 0, 24, 58, 255, 0, 0, 0, 0, 0,
     0, 0, 0, 0, 0, 0, 0, 0, 0, 0, 2, 0, 0, 0, 0, 0, 0, 0, 0, 0, 0, 0, 0, 0, 0, 0, 5, 135, 0,
     120, 161, 0, 0, 0, 0, 0, 0, 0, 0, 0, 0, 0, 0, 0, 0, 0, 0, 0, 0, 0, 5]"

lemma sample_parse:
  "parseNeighborSolicitation (drop 14 sample_frame) =
     Inr \<lparr>Source = Addr6 2 [], Destination = Addr6 5 [], Target = Addr6 5 []\<rparr>"
proof -
  have b2: "be_word [0, 0, 0, 0, 0, 0, 0, 0, 0, 0, 0, 0, 0, 0, 0, 2] = (2 :: 128 word)"
    and b5: "be_word [0, 0, 0, 0, 0, 0, 0, 0, 0, 0, 0, 0, 0, 0, 0, 5] = (5 :: 128 word)"
    by (simp_all add: be_word_def)
  have "bytes16 2 = [0, 0, 0, 0, 0, 0, 0, 0, 0, 0, 0, 0, 0, 0, 0, 2]"
    "bytes16 5 = [0, 0, 0, 0, 0, 0, 0, 0, 0, 0, 0, 0, 0, 0, 0, 5]"
    using bytes16_be_word [of "[0, 0, 0, 0, 0, 0, 0, 0, 0, 0, 0, 0, 0, 0, 0, 2]"]
      bytes16_be_word [of "[0, 0, 0, 0, 0, 0, 0, 0, 0, 0, 0, 0, 0, 0, 0, 5]"] b2 b5 by simp_all
  then have "icmpv6Checksum (Addr6 2 []) (Addr6 5 [])
      [135, 0, 120, 161, 0, 0, 0, 0, 0, 0, 0, 0, 0, 0, 0, 0, 0, 0, 0, 0, 0, 0, 0, 5] = 0"
    by (simp add: icmpv6Checksum_def protocolICMPv6_def Uint16_def fold_carry.simps)
  moreover have "IsGlobalUnicast (Addr6 2 [])" "IsGlobalUnicast (Addr6 5 [])" by code_simp+
  ultimately show ?thesis
    by (simp add: parseNeighborSolicitation_def sample_frame_def ndp_consts Uint16_def slice_def
        AddrFromSlice_def b2 b5)
qed

theorem serve_uses_current_set_witness:
  "\<exists>pre frame post s ns. [Received sample_frame, Stopped] = pre @ Received frame # post \<and> Stopped \<notin> set pre \<and>
     in_force (Some \<lparr>Delegated = [Prefix (Addr6 4 []) 126], Local = []\<rparr>) pre = Some s \<and>
     parseNeighborSolicitation (drop 14 frame) = Inr ns \<and> shouldAnswer s (Target ns)"
proof -
  let ?s = "\<lparr>Delegated = [Prefix (Addr6 4 []) 126], Local = []\<rparr>" and ?h = "[2, 0, 0, 0, 0, 1] :: bytes"
  have "Contains (Prefix (Addr6 4 []) 126) (Addr6 5 [])" by code_simp
  then have "shouldAnswer ?s (Addr6 5 [])" by (simp add: shouldAnswer_def)
  moreover obtain packet where "buildNeighborAdvertisement (Addr6 5 []) (Addr6 2 []) ?h = Inr packet"
    by (auto simp: buildNeighborAdvertisement_def ethernetAddressLength_def Let_def)
  ultimately have "answer (Some ?s) sample_frame ?h = Some ([2, 0, 0, 0, 0, 9] @ ?h @ [0x86, 0xDD] @ packet, [2, 0, 0, 0, 0, 9])"
    unfolding answer_iff sample_parse by (simp add: sample_frame_def slice_def)
  then obtain reply address where "(reply, address) \<in> set (serve (Some ?s) ?h 2 [Received sample_frame, Stopped])"
    by auto
  from serve_uses_current_set [OF this] show ?thesis by blast
qed

text \<open>
  C19. Reconfiguring the listeners brings them in line with the wanted sets whatever the order in
  which the maps are walked: a listener runs only for a wanted interface and with its set; every
  wanted interface runs unless starting it failed, which is reported; a running listener survives
  the failure of another; and the open descriptors are exactly those of the listeners.
\<close>

theorem manager_Configure_reconciles:
  assumes "fresh_sockets sys" and "manager_inv other m"
    and "dom (fst m) \<subseteq> set running" and "distinct names" and "set names = dom sets"
    and "manager_Configure sys running names sets m = (err, m')"
  shows "manager_inv other m' \<and>
    (\<forall>n s. manager_states m' n = Some s \<longrightarrow> sets n = Some s \<and> \<not> ndp_empty s) \<and>
    (\<forall>n s. sets n = Some s \<and> \<not> ndp_empty s \<and> n \<noteq> [] \<longrightarrow>
       manager_states m' n = Some s \<or> err \<noteq> None \<and> manager_states m n = None)"
proof -
  define m1 where "m1 = close_stale sets running m"
  have m1: "manager_inv other m1" "fst m1 = (\<lambda>n. if n \<in> set running \<and> \<not> wanted sets n then None else fst m n)"
    using close_stale_spec [OF assms(2), of sets running] by (simp_all add: m1_def)
  have "configure_sets sys sets names None m1 = (err, m')"
    using assms(6) by (simp add: manager_Configure_def m1_def)
  note c = configure_sets_spec [OF assms(1) m1(1) assms(4) this]
  have inv': "manager_inv other m'" using c by simp
  have w: "wanted sets n \<longleftrightarrow> (\<exists>s. sets n = Some s \<and> \<not> ndp_empty s)" for n
    by (auto simp: wanted_def split: option.split)
  have run: "(\<exists>r. fst m' n = Some r \<and> listening n s r) \<or> err \<noteq> None \<and> fst m1 n = None \<and> fst m' n = None"
    if "sets n = Some s" "\<not> ndp_empty s" "n \<noteq> []" for n s
    by (rule c [THEN conjunct2, THEN conjunct2, THEN conjunct2, rule_format]) (use that assms(5) in auto)
  have "sets n = Some s \<and> \<not> ndp_empty s" if st: "manager_states m' n = Some s" for n s
  proof -
    obtain r where r: "fst m' n = Some r" "listening n s r"
      using st manager_states_inv(1) [OF inv', of n s] by auto
    have "n \<noteq> []" using inv' r(1) by (auto simp: manager_inv_def)
    have "wanted sets n"
    proof (rule ccontr)
      assume "\<not> wanted sets n"
      then have "fst m1 n = Some r" using c r(1) by auto
      moreover from this have "n \<in> dom (fst m)" using m1(2) by (auto split: if_splits)
      then have "n \<in> set running" using assms(3) by blast
      ultimately show False using m1(2) \<open>\<not> wanted sets n\<close> by simp
    qed
    then obtain t where "sets n = Some t" "\<not> ndp_empty t" using w by blast
    with run [OF this \<open>n \<noteq> []\<close>] r show ?thesis by (auto simp: listening_def)
  qed
  moreover have "manager_states m' n = Some s \<or> err \<noteq> None \<and> manager_states m n = None"
    if "sets n = Some s" "\<not> ndp_empty s" "n \<noteq> []" for n s
    using run [OF that] that w [of n] m1(2) manager_states_inv(1) [OF inv', of n s] manager_states_inv(2) [OF assms(2), of n]
    by auto
  ultimately show ?thesis using inv' by blast
qed

text \<open>A system whose calls all succeed, for the concrete instances below.\<close>

definition sample_sys :: ndp_sys where
  "sample_sys = \<lparr>LinkByName = (\<lambda>_. Inr (2, [2, 0, 0, 0, 0, 1])), sys_socket = (\<lambda>fds. Inr (1 + foldr max fds 0)),
     sys_attach_filter = (\<lambda>_ _. None), sys_bind = (\<lambda>_ _. None), sys_ignore_outgoing = (\<lambda>_. None),
     sys_add_allmulti = (\<lambda>_ _. None), sys_receive_timeout = (\<lambda>_. None)\<rparr>"

definition sample_sets :: "string \<rightharpoonup> ndpProxySet" where
  "sample_sets = [''eth0'' \<mapsto> \<lparr>Delegated = [Prefix (Addr6 4 []) 126], Local = []\<rparr>]"

lemma sample_fresh: "fresh_sockets sample_sys"
proof -
  have "x \<in> set fds \<Longrightarrow> x \<le> foldr max fds 0" "0 \<le> foldr max fds 0" for x :: int and fds
    by (induction fds) auto
  then show ?thesis by (fastforce simp: fresh_sockets_def sample_sys_def)
qed

lemma manager_inv_empty: "manager_inv (set fds) (Map.empty, fds)"
  by (simp add: manager_inv_def)

theorem manager_Configure_reconciles_witness:
  "manager_states (snd (manager_Configure sample_sys [] [''eth0''] sample_sets (Map.empty, [0])))
     ''eth0'' = Some \<lparr>Delegated = [Prefix (Addr6 4 []) 126], Local = []\<rparr>"
proof -
  obtain err m' where r: "manager_Configure sample_sys [] [''eth0''] sample_sets (Map.empty, [0]) = (err, m')"
    by (cases "manager_Configure sample_sys [] [''eth0''] sample_sets (Map.empty, [0])")
  let ?s = "\<lparr>Delegated = [Prefix (Addr6 4 []) 126], Local = []\<rparr>"
  have ok: "sample_sets ''eth0'' = Some ?s" "\<not> ndp_empty ?s" "''eth0'' \<noteq> []"
    by (simp_all add: sample_sets_def ndp_empty_def)
  have "responder_Configure sample_sys ''eth0'' ?s newNDPResponder [0] = (None,
      \<lparr>r_current = Some ?s, r_upstreamName = ''eth0'', r_index = 2, r_hardware = [2, 0, 0, 0, 0, 1], r_socket = 1\<rparr>, [1, 0])"
    using ok(2) by (simp add: responder_Configure_def newNDPResponder_def stopLocked_def sample_sys_def
        openNDPSocket_def ethernetAddressLength_def Let_def)
  then have "err = None"
    using r ok by (simp add: manager_Configure_def)
  have "set [''eth0''] = dom sample_sets" by (simp add: sample_sets_def)
  from manager_Configure_reconciles [OF sample_fresh manager_inv_empty [of "[0]"] _ _ this r]
  have "manager_states m' ''eth0'' = Some ?s \<or> err \<noteq> None \<and> manager_states (Map.empty, [0]) ''eth0'' = None"
    using ok by (simp only: fst_conv dom_empty empty_subsetI distinct_singleton) blast
  with \<open>err = None\<close> have "manager_states m' ''eth0'' = Some ?s" by blast
  then show ?thesis by (simp only: r snd_conv)
qed

text \<open>
  Closing the manager stops every listener and closes exactly the descriptors they held.
\<close>

theorem manager_Close_releases:
  assumes "manager_inv other m" and "dom (fst m) \<subseteq> set names"
  shows "fst (manager_Close names m) = Map.empty \<and> set (snd (manager_Close names m)) = other"
proof -
  have "fst (manager_Close names m) = Map.empty"
    using manager_Close_spec [OF assms(1), of names] assms(2) by (auto simp: fun_eq_iff subset_iff)
  then show ?thesis using manager_Close_spec [OF assms(1), of names] by (simp add: manager_inv_def)
qed

theorem manager_Close_releases_witness:
  "set (snd (manager_Close [] (Map.empty, [0, 1]))) = {0, 1}"
  using manager_Close_releases [OF manager_inv_empty [of "[0, 1]"], of "[]"] by simp

end
