(* ===== verification/Network.thy ===== *)
theory Network
  imports Firewall Ndp_Responder
begin

section \<open>Kernel networking (internal/broker/network.go)\<close>

text \<open>
  The Linux kernel driver. The netlink and WireGuard libraries, the file system, the \<open>nft\<close> program
  and the network are the record \<open>os_api\<close>: one action per call the code makes, on a kernel state
  of any type. Errors the code tells apart are the constants \<open>LinkNotFound\<close>, \<open>ErrExist\<close> and
  \<open>ErrNotExist\<close>. A \<open>net.IPNet\<close> is a prefix; keys are their base64 text, which \<open>wg_ParseKey\<close>
  validates. Go iterates over its maps in an unspecified order; the model iterates over lists of
  their entries.
\<close>

subsection \<open>What the kernel holds\<close>

record link =
  ln_Name :: string
  ln_Index :: int
  ln_MTU :: int
  ln_Up :: bool

record hop =
  hop_LinkIndex :: int
  hop_Gw :: "bytes option"

record route =
  rt_LinkIndex :: int
  rt_Dst :: "prefix option"
  rt_Gw :: "bytes option"
  rt_Table :: int
  rt_Protocol :: int
  rt_Priority :: int
  rt_MultiPath :: "hop option list"

record rule =
  ru_Family :: int
  ru_Priority :: int
  ru_Table :: int
  ru_Src :: "prefix option"
  ru_Dst :: "prefix option"

record peer =
  p_PublicKey :: string
  p_AllowedIPs :: "prefix list"
  p_LastHandshakeTime :: time
  p_ReceiveBytes :: int
  p_TransmitBytes :: int

record peer_config =
  pc_PublicKey :: string
  pc_Remove :: bool
  pc_ReplaceAllowedIPs :: bool
  pc_AllowedIPs :: "prefix list"
  pc_PresharedKey :: "string option"
  pc_Endpoint :: "string option"
  pc_Keepalive :: "int option"           \<comment> \<open>seconds\<close>

record wg_config =
  wc_PrivateKey :: "string option"
  wc_ListenPort :: "int option"
  wc_ReplacePeers :: bool
  wc_Peers :: "peer_config list"

definition zeroRoute :: route where
  "zeroRoute = \<lparr>rt_LinkIndex = 0, rt_Dst = None, rt_Gw = None, rt_Table = 0, rt_Protocol = 0, rt_Priority = 0, rt_MultiPath = []\<rparr>"

definition newRule :: rule where
  "newRule = \<lparr>ru_Family = 0, ru_Priority = -1, ru_Table = 0, ru_Src = None, ru_Dst = None\<rparr>"

definition peerConfig :: "string \<Rightarrow> peer_config" where
  "peerConfig key = \<lparr>pc_PublicKey = key, pc_Remove = False, pc_ReplaceAllowedIPs = False, pc_AllowedIPs = [],
     pc_PresharedKey = None, pc_Endpoint = None, pc_Keepalive = None\<rparr>"

definition FAMILY_ALL :: int where "FAMILY_ALL = 0"
definition FAMILY_V4 :: int where "FAMILY_V4 = 2"
definition FAMILY_V6 :: int where "FAMILY_V6 = 10"

definition LinkNotFound :: error where "LinkNotFound = LibErr ''netlink.LinkNotFoundError''"
definition ErrExist :: error where "ErrExist = LibErr ''os.ErrExist''"
definition ErrNotExist :: error where "ErrNotExist = LibErr ''os.ErrNotExist''"

record 'k os_api =
  nl_LinkByName :: "string \<Rightarrow> ('k, link) action"
  nl_LinkAdd :: "string \<Rightarrow> ('k, link) action"       \<comment> \<open>a link of type wireguard\<close>
  nl_LinkSetMTU :: "link \<Rightarrow> int \<Rightarrow> ('k, unit) action"
  nl_LinkSetUp :: "link \<Rightarrow> ('k, unit) action"
  nl_LinkDel :: "link \<Rightarrow> ('k, unit) action"
  nl_AddrList :: "link \<Rightarrow> int \<Rightarrow> ('k, bytes list) action"
  nl_AddrDel :: "link \<Rightarrow> bytes \<Rightarrow> ('k, unit) action"
  nl_AddrReplace :: "link \<Rightarrow> prefix \<Rightarrow> ('k, unit) action"
  nl_RouteList :: "link option \<Rightarrow> int \<Rightarrow> ('k, route list) action"
  nl_RouteListTable :: "int \<Rightarrow> int \<Rightarrow> ('k, route list) action"   \<comment> \<open>RouteListFiltered by family and table\<close>
  nl_RouteReplace :: "route \<Rightarrow> ('k, unit) action"
  nl_RouteDel :: "route \<Rightarrow> ('k, unit) action"
  nl_RuleList :: "int \<Rightarrow> ('k, rule list) action"
  nl_RuleAdd :: "rule \<Rightarrow> ('k, unit) action"
  nl_RuleDel :: "rule \<Rightarrow> ('k, unit) action"
  wg_New :: "('k, unit) action"
  wg_Device :: "string \<Rightarrow> ('k, peer list) action"
  wg_ConfigureDevice :: "string \<Rightarrow> wg_config \<Rightarrow> ('k, unit) action"
  wg_ParseKey :: "string \<Rightarrow> string result"
  os_ReadFile :: "string \<Rightarrow> ('k, string) action"
  os_WriteFile :: "string \<Rightarrow> string \<Rightarrow> ('k, unit) action"
  os_nft :: "string \<Rightarrow> ('k, string \<times> error option) action"   \<comment> \<open>combined output and error of nft -f -\<close>
  net_Resolve :: "string \<Rightarrow> ('k, string) action"
  net_Trace :: "addr \<Rightarrow> ('k, int \<times> string) action"           \<comment> \<open>status and body of the trace request\<close>
  os_ndp :: ndp_sys
  os_unicode :: unicode
  os_text :: "error \<Rightarrow> string"

text \<open>The driver's own state is the Neighbor Discovery manager, created on first use.\<close>

record 'k machine =
  mc_kernel :: 'k
  mc_ndp :: manager
  mc_ndpNames :: "string list"           \<comment> \<open>the keys of the manager's map\<close>

definition os :: "('k, 'a) action \<Rightarrow> ('k machine, 'a) action" where
  "os m = zoom mc_kernel mc_kernel_update m"

text \<open>A call whose error is ignored, and a body with a deferred clean-up.\<close>

definition tryTo :: "('s, 'a) action \<Rightarrow> ('s, unit) action" where
  "tryTo m = andThen (attempt m) (\<lambda>_. return ())"

definition deferring :: "('s, 'b) action \<Rightarrow> ('s, 'a) action \<Rightarrow> ('s, 'a) action" where
  "deferring cleanup m = andThen (attempt m) (\<lambda>r. andThen (attempt cleanup) (\<lambda>_. liftResult r))"

definition tolerating :: "error \<Rightarrow> (error \<Rightarrow> error) \<Rightarrow> ('s, unit) action \<Rightarrow> ('s, unit) action" where
  "tolerating harmless f m = andThen (attempt m) (\<lambda>r. case r of
       Inr _ \<Rightarrow> return ()
     | Inl e \<Rightarrow> if e = harmless then return () else throw (f e))"

subsection \<open>Constants and conversions\<close>

definition warpRouteTable :: int where "warpRouteTable = 51822"
definition warpRulePriority :: int where "warpRulePriority = 90"
definition interUpstreamRulePriority :: int where "interUpstreamRulePriority = 80"
definition upstreamRulePriority :: int where "upstreamRulePriority = 110"
definition upstreamRouteTableBase :: int where "upstreamRouteTableBase = 52000"
definition mainRouteTable :: int where "mainRouteTable = 254"
definition tunnelRouteMetric :: int where "tunnelRouteMetric = 128"
definition gatewayRouteMetric :: int where "gatewayRouteMetric = 64"

definition upstreamRouteTable :: "upstream \<Rightarrow> int" where
  "upstreamRouteTable up = upstreamRouteTableBase + up_ID up"

definition prefixIPNet :: "prefix \<Rightarrow> prefix" where
  "prefixIPNet p = Masked p"

definition addressIPNet :: "prefix \<Rightarrow> prefix" where
  "addressIPNet p = p"

definition ipNetString :: "prefix option \<Rightarrow> string" where
  "ipNetString value = (case value of
       None \<Rightarrow> []
     | Some v \<Rightarrow> (case ParsePrefix (prefixString v) of None \<Rightarrow> prefixString v | Some p \<Rightarrow> prefixString (Masked p)))"

definition ruleFamily :: "prefix \<Rightarrow> int" where
  "ruleFamily p = (if Is4 (pAddr p) then FAMILY_V4 else FAMILY_V6)"

definition MustParsePrefix :: "string \<Rightarrow> prefix result" where
  "MustParsePrefix s = (case ParsePrefix s of None \<Rightarrow> Inl Panic | Some p \<Rightarrow> Inr p)"

definition isDefaultRoute :: "prefix \<Rightarrow> bool" where
  "isDefaultRoute destination \<longleftrightarrow> pBits destination = 0"

definition defaultDst :: "int \<Rightarrow> prefix" where
  "defaultDst family = (if family = FAMILY_V6 then Prefix (Addr6 0 []) 0 else Prefix (Addr4 0) 0)"

subsection \<open>Links\<close>

definition ensureLink :: "'k os_api \<Rightarrow> string \<Rightarrow> ('k machine, link) action" where
  "ensureLink api name =
     andThen (attempt (os (nl_LinkByName api name))) (\<lambda>r. case r of
         Inr link \<Rightarrow> return link
       | Inl e \<Rightarrow> if e = LinkNotFound then os (nl_LinkAdd api name) else throw e)"

definition upstreamLocalAddresses :: "'k os_api \<Rightarrow> string \<Rightarrow> ('k machine, addr list) action" where
  "upstreamLocalAddresses api name =
     andThen (os (nl_LinkByName api name)) (\<lambda>link.
     andThen (os (nl_AddrList api link FAMILY_V6)) (\<lambda>addresses.
     return (map Unmap (List.map_filter AddrFromSlice addresses))))"

subsection \<open>Routes\<close>

definition flushRouteTable :: "'k os_api \<Rightarrow> int \<Rightarrow> ('k machine, unit) action" where
  "flushRouteTable api table =
     each (\<lambda>family.
       andThen (os (nl_RouteListTable api family table)) (\<lambda>routes.
       each (\<lambda>route. tolerating ErrNotExist id (os (nl_RouteDel api route))) routes))
     [FAMILY_V4, FAMILY_V6]"

definition clearPolicyTables :: "'k os_api \<Rightarrow> upstream list \<Rightarrow> ('k machine, unit) action" where
  "clearPolicyTables api ups = each (\<lambda>up. flushRouteTable api (upstreamRouteTable up)) ups"

definition hopGateway :: "int \<Rightarrow> hop option \<Rightarrow> bytes option" where
  "hopGateway linkIndex h = (case h of
       None \<Rightarrow> None
     | Some hop \<Rightarrow> if hop_LinkIndex hop = linkIndex then hop_Gw hop else None)"

fun firstSome :: "('a \<Rightarrow> 'b option) \<Rightarrow> 'a list \<Rightarrow> 'b option" where
  "firstSome f [] = None"
| "firstSome f (x # xs) = (case f x of None \<Rightarrow> firstSome f xs | Some y \<Rightarrow> Some y)"

definition routeGateway :: "int \<Rightarrow> route \<Rightarrow> bytes option" where
  "routeGateway linkIndex route =
     (if rt_Table route \<noteq> 254 \<or> (case rt_Dst route of None \<Rightarrow> False | Some d \<Rightarrow> \<not> isDefaultRoute d) then None
      else if rt_LinkIndex route = linkIndex \<and> rt_Gw route \<noteq> None then rt_Gw route
      else firstSome (hopGateway linkIndex) (rt_MultiPath route))"

definition defaultGatewayVia :: "'k os_api \<Rightarrow> int \<Rightarrow> int \<Rightarrow> ('k machine, bytes option) action" where
  "defaultGatewayVia api linkIndex family =
     andThen (attempt (os (nl_RouteList api None family))) (\<lambda>r. case r of
         Inl _ \<Rightarrow> return None
       | Inr routes \<Rightarrow> return (firstSome (routeGateway linkIndex) routes))"

definition ensureUpstreamTable :: "'k os_api \<Rightarrow> upstream \<Rightarrow> ('k machine, unit) action" where
  "ensureUpstreamTable api up =
     (if up_EgressInterface up = [] then return ()
      else
        andThen (wrapError ''egress interface %s: %w'' [up_EgressInterface up] (os (nl_LinkByName api (up_EgressInterface up)))) (\<lambda>link.
        each (\<lambda>family.
          andThen (defaultGatewayVia api (ln_Index link) family) (\<lambda>gateway.
          andThen (attempt (os (nl_RouteReplace api (zeroRoute
            \<lparr>rt_LinkIndex := ln_Index link, rt_Table := upstreamRouteTable up, rt_Protocol := 0x42,
             rt_Dst := Some (prefixIPNet (defaultDst family)), rt_Gw := gateway\<rparr>)))) (\<lambda>r. case r of
              Inr _ \<Rightarrow> return ()
            | Inl e \<Rightarrow> if family = FAMILY_V6
                       then throw (Wrapf ''default route for upstream %q: %w'' [up_Name up] e) else return ())))
        [FAMILY_V6, FAMILY_V4]))"

text \<open>A next hop inside the delegated prefix is pinned to the egress interface.\<close>

definition pinGateway :: "'k os_api \<Rightarrow> link \<Rightarrow> prefix \<Rightarrow> route \<Rightarrow> ('k machine, unit) action" where
  "pinGateway api link prefix route =
     (case (case rt_Gw route of None \<Rightarrow> None | Some gw \<Rightarrow> AddrFromSlice gw) of
        None \<Rightarrow> return ()
      | Some gateway \<Rightarrow>
          if rt_LinkIndex route \<noteq> ln_Index link \<or> \<not> Contains prefix (Unmap gateway) then return ()
          else wrapError ''pin upstream gateway %s: %w'' [addrString (Unmap gateway)]
                 (os (nl_RouteReplace api (zeroRoute\<lparr>rt_LinkIndex := ln_Index link,
                    rt_Dst := Some (prefixIPNet (PrefixFrom (Unmap gateway) 128)), rt_Protocol := 0x42,
                    rt_Priority := gatewayRouteMetric\<rparr>))))"

definition pinUpstreamNeighbors :: "'k os_api \<Rightarrow> upstream \<Rightarrow> ('k machine, unit) action" where
  "pinUpstreamNeighbors api up =
     (if upstreamMode up \<noteq> UpstreamOnLink \<or> up_EgressInterface up = [] then return ()
      else case delegatedPrefix up of
        None \<Rightarrow> return ()
      | Some prefix \<Rightarrow>
          andThen (wrapError ''egress interface %s: %w'' [up_EgressInterface up] (os (nl_LinkByName api (up_EgressInterface up)))) (\<lambda>link.
          andThen (os (nl_RouteList api None FAMILY_V6)) (\<lambda>routes.
          each (pinGateway api link prefix) routes)))"

subsection \<open>Policy rules\<close>

record policyRule =
  pr_family :: int
  pr_priority :: int
  pr_table :: int
  pr_source :: string
  pr_dest :: string

definition optionalPrefix :: "string \<Rightarrow> prefix option result" where
  "optionalPrefix s = (if s = [] then Inr None else map_sum id (\<lambda>p. Some (prefixIPNet p)) (MustParsePrefix s))"

definition netlinkRule :: "policyRule \<Rightarrow> rule result" where
  "netlinkRule r =
     (case optionalPrefix (pr_source r) of
        Inl e \<Rightarrow> Inl e
      | Inr src \<Rightarrow>
          (case optionalPrefix (pr_dest r) of
             Inl e \<Rightarrow> Inl e
           | Inr dst \<Rightarrow> Inr (newRule\<lparr>ru_Family := pr_family r, ru_Priority := pr_priority r, ru_Table := pr_table r,
                 ru_Src := src, ru_Dst := dst\<rparr>)))"

definition localPrefixes :: "settings \<Rightarrow> upstream list \<Rightarrow> prefix list" where
  "localPrefixes cfg ups =
     concat (map (\<lambda>up.
         (case delegatedPrefix up of None \<Rightarrow> [] | Some p \<Rightarrow> [p]) @
         (case transportPrefix up of None \<Rightarrow> [] | Some t \<Rightarrow> [Masked t])) ups)
     @ (case ParsePrefix (V4Pool cfg) of None \<Rightarrow> [] | Some pool \<Rightarrow> if Is4 (pAddr pool) then [Masked pool] else [])"

definition destRule :: "prefix \<Rightarrow> policyRule" where
  "destRule d = \<lparr>pr_family = ruleFamily d, pr_priority = interUpstreamRulePriority, pr_table = mainRouteTable,
     pr_source = [], pr_dest = prefixString d\<rparr>"

definition sourceRule :: "int \<Rightarrow> upstream \<Rightarrow> prefix \<Rightarrow> policyRule" where
  "sourceRule family up p = \<lparr>pr_family = family, pr_priority = upstreamRulePriority, pr_table = upstreamRouteTable up,
     pr_source = prefixString p, pr_dest = []\<rparr>"

definition nativeRule :: "settings \<Rightarrow> upstream list \<Rightarrow> tunnel \<Rightarrow> policyRule list" where
  "nativeRule cfg ups t =
     (case upstreamsByID ups (t_UpstreamID t) of
        None \<Rightarrow> []
      | Some up \<Rightarrow>
          if tunnelV4Mode cfg up t \<noteq> V4ModeNative \<or> t_V4Address t = [] then []
          else (case ParseAddr (t_V4Address t) of
                  None \<Rightarrow> []
                | Some a \<Rightarrow> if Is4 a then [sourceRule FAMILY_V4 up (PrefixFrom a 32)] else []))"

definition desiredPolicyRules :: "settings \<Rightarrow> upstream list \<Rightarrow> tunnel list \<Rightarrow> policyRule list" where
  "desiredPolicyRules cfg ups ts = remdups (
     map destRule (localPrefixes cfg ups)
     @ concat (map (\<lambda>up. case delegatedPrefix up of None \<Rightarrow> [] | Some p \<Rightarrow> [sourceRule FAMILY_V6 up p]) ups)
     @ concat (map (nativeRule cfg ups) ts))"

definition ownedRule :: "int \<Rightarrow> rule \<Rightarrow> policyRule list" where
  "ownedRule family rule =
     (if ru_Priority rule \<noteq> interUpstreamRulePriority \<and> ru_Priority rule \<noteq> upstreamRulePriority then []
      else [\<lparr>pr_family = family, pr_priority = ru_Priority rule, pr_table = ru_Table rule,
             pr_source = ipNetString (ru_Src rule), pr_dest = ipNetString (ru_Dst rule)\<rparr>])"

definition currentPolicyRules :: "'k os_api \<Rightarrow> ('k machine, policyRule list) action" where
  "currentPolicyRules api =
     andThen (os (nl_RuleList api FAMILY_V4)) (\<lambda>rules4.
     andThen (os (nl_RuleList api FAMILY_V6)) (\<lambda>rules6.
     return (remdups (concat (map (ownedRule FAMILY_V4) rules4) @ concat (map (ownedRule FAMILY_V6) rules6)))))"

definition reconcilePolicyRules :: "'k os_api \<Rightarrow> policyRule list \<Rightarrow> ('k machine, unit) action" where
  "reconcilePolicyRules api desired =
     andThen (currentPolicyRules api) (\<lambda>existing.
     andThen (each (\<lambda>r. andThen (liftResult (netlinkRule r)) (\<lambda>rule.
         tolerating ErrExist (Wrapf ''add policy rule for %s%s: %w'' [pr_source r, pr_dest r]) (os (nl_RuleAdd api rule))))
       (filter (\<lambda>r. r \<notin> set existing) desired)) (\<lambda>_.
     each (\<lambda>r. andThen (liftResult (netlinkRule r)) (\<lambda>rule.
         tolerating ErrNotExist (Wrapf ''remove stale policy rule for %s%s: %w'' [pr_source r, pr_dest r]) (os (nl_RuleDel api rule))))
       (filter (\<lambda>r. r \<notin> set desired) existing)))"

definition applyPolicyRouting :: "'k os_api \<Rightarrow> settings \<Rightarrow> upstream list \<Rightarrow> tunnel list \<Rightarrow> ('k machine, unit) action" where
  "applyPolicyRouting api cfg ups ts =
     (if length ups < 2
      then andThen (reconcilePolicyRules api []) (\<lambda>_. clearPolicyTables api ups)
      else andThen (each (ensureUpstreamTable api) ups) (\<lambda>_.
           reconcilePolicyRules api (desiredPolicyRules cfg ups ts)))"

subsection \<open>One provider connection\<close>

definition staleAddress :: "prefix \<Rightarrow> bytes \<Rightarrow> bool" where
  "staleAddress p existing = (case AddrFromSlice existing of
       None \<Rightarrow> False
     | Some a \<Rightarrow> a \<noteq> pAddr p \<and> \<not> IsLinkLocalUnicast a)"

definition assignAddress :: "'k os_api \<Rightarrow> upstream \<Rightarrow> link \<Rightarrow> ('k machine, unit) action" where
  "assignAddress api up link =
     (let tunnelAddress = tunnelInterfaceAddress up in
      if tunnelAddress = [] then return ()
      else
        andThen (wrapError ''tunnel interface address: %w'' [] (liftResult (parsePrefixErr tunnelAddress))) (\<lambda>p.
        andThen (require (delegatedPrefix up \<noteq> None) (newError ''upstream prefix is not an IPv6 CIDR'')) (\<lambda>_.
        andThen (os (nl_AddrList api link FAMILY_V6)) (\<lambda>addresses.
        andThen (each (\<lambda>existing. os (nl_AddrDel api link existing)) (filter (staleAddress p) addresses)) (\<lambda>_.
        os (nl_AddrReplace api link (addressIPNet p)))))))"

definition tunnelPeer :: "'k os_api \<Rightarrow> settings \<Rightarrow> upstream \<Rightarrow> tunnel \<Rightarrow> peer_config result" where
  "tunnelPeer api cfg up t =
     (case wg_ParseKey api (t_PublicKey t) of
        Inl e \<Rightarrow> Inl (Wrapf ''tunnel %d public key: %w'' [Itoa (t_ID t)] e)
      | Inr pub \<Rightarrow>
          let pc = (peerConfig pub)\<lparr>pc_ReplaceAllowedIPs := True, pc_AllowedIPs := map prefixIPNet (tunnelAllowedIPs cfg up t),
                pc_Keepalive := (if 0 < up_Keepalive up then Some (up_Keepalive up) else None)\<rparr>
          in if t_PresharedKey t = [] then Inr pc
             else (case wg_ParseKey api (t_PresharedKey t) of
                     Inl e \<Rightarrow> Inl e
                   | Inr psk \<Rightarrow> Inr (pc\<lparr>pc_PresharedKey := Some psk\<rparr>)))"

fun tunnelPeers :: "'k os_api \<Rightarrow> settings \<Rightarrow> upstream \<Rightarrow> tunnel list \<Rightarrow> peer_config list result" where
  "tunnelPeers api cfg up [] = Inr []"
| "tunnelPeers api cfg up (t # ts) =
     (if \<not> t_Enabled t then tunnelPeers api cfg up ts
      else case tunnelPeer api cfg up t of
        Inl e \<Rightarrow> Inl e
      | Inr pc \<Rightarrow> (case tunnelPeers api cfg up ts of Inl e \<Rightarrow> Inl e | Inr pcs \<Rightarrow> Inr (pc # pcs)))"

text \<open>The last tunnel with a public key, as in \<open>desired[t.PublicKey] = t\<close>.\<close>

definition byPublicKey :: "tunnel list \<Rightarrow> (string \<rightharpoonup> tunnel)" where
  "byPublicKey ts = foldl (\<lambda>m t. m(t_PublicKey t \<mapsto> t)) Map.empty ts"

definition removals :: "tunnel list \<Rightarrow> peer list \<Rightarrow> peer_config list" where
  "removals ts peers = map (\<lambda>p. (peerConfig (p_PublicKey p))\<lparr>pc_Remove := True\<rparr>)
     (filter (\<lambda>p. case byPublicKey ts (p_PublicKey p) of None \<Rightarrow> True | Some t \<Rightarrow> \<not> t_Enabled t) peers)"

definition tunnelRoutes :: "'k os_api \<Rightarrow> settings \<Rightarrow> upstream \<Rightarrow> link \<Rightarrow> tunnel \<Rightarrow> ('k machine, unit) action" where
  "tunnelRoutes api cfg up link t =
     andThen (wrapError ''tunnel %d allocation: %w'' [Itoa (t_ID t)] (liftResult (parsePrefixErr (t_V6CIDR t)))) (\<lambda>p.
     let v6Route = zeroRoute\<lparr>rt_LinkIndex := ln_Index link, rt_Dst := Some (prefixIPNet p), rt_Protocol := 0x42,
           rt_Priority := tunnelRouteMetric\<rparr>
     in andThen (if t_Enabled t then os (nl_RouteReplace api v6Route) else tryTo (os (nl_RouteDel api v6Route))) (\<lambda>_.
        if t_V4Address t = [] then return ()
        else
          andThen (wrapError ''tunnel %d IPv4 address: %w'' [Itoa (t_ID t)] (liftResult (case ParseAddr (t_V4Address t) of
              None \<Rightarrow> Inl (LibErr ''netip.ParseAddr'') | Some a \<Rightarrow> Inr a))) (\<lambda>a.
          let v4Route = zeroRoute\<lparr>rt_LinkIndex := ln_Index link, rt_Dst := Some (prefixIPNet (PrefixFrom a 32)), rt_Protocol := 0x42\<rparr>
          in if t_Enabled t \<and> tunnelIPv4Enabled cfg up t then os (nl_RouteReplace api v4Route)
             else tryTo (os (nl_RouteDel api v4Route)))))"

definition livePeers :: "peer list \<Rightarrow> (string \<rightharpoonup> peer)" where
  "livePeers peers = foldl (\<lambda>m p. m(p_PublicKey p \<mapsto> p)) Map.empty peers"

definition applyUpstream :: "'k os_api \<Rightarrow> settings \<Rightarrow> upstream \<Rightarrow> tunnel list \<Rightarrow> ('k machine, string \<rightharpoonup> peer) action" where
  "applyUpstream api cfg up ts =
     andThen (require (up_InterfaceName up \<noteq> []) (newError ''interface name is required'')) (\<lambda>_.
     andThen (wrapError ''server private key: %w'' [] (liftResult (wg_ParseKey api (up_ServerPrivateKey up)))) (\<lambda>key.
     andThen (ensureLink api (up_InterfaceName up)) (\<lambda>link.
     andThen (if 0 < up_MTU up \<and> ln_MTU link \<noteq> up_MTU up then os (nl_LinkSetMTU api link (up_MTU up)) else return ()) (\<lambda>_.
     andThen (assignAddress api up link) (\<lambda>_.
     andThen (os (nl_LinkSetUp api link)) (\<lambda>_.
     andThen (os (wg_Device api (up_InterfaceName up))) (\<lambda>present.
     andThen (liftResult (tunnelPeers api cfg up ts)) (\<lambda>peers.
     andThen (os (wg_ConfigureDevice api (up_InterfaceName up) \<lparr>wc_PrivateKey = Some key, wc_ListenPort = Some (up_EndpointPort up),
        wc_ReplacePeers = False, wc_Peers = peers @ removals ts present\<rparr>)) (\<lambda>_.
     andThen (os (wg_Device api (up_InterfaceName up))) (\<lambda>present.
     andThen (pinUpstreamNeighbors api up) (\<lambda>_.
     andThen (each (tunnelRoutes api cfg up link) ts) (\<lambda>_.
     return (livePeers present)))))))))))))"

subsection \<open>Cloudflare WARP\<close>

definition warpRule :: "rule \<Rightarrow> bool" where
  "warpRule rule \<longleftrightarrow> ru_Table rule = warpRouteTable \<and> ru_Priority rule = warpRulePriority"

definition dropWarpRules :: "'k os_api \<Rightarrow> ('k machine, unit) action" where
  "dropWarpRules api =
     andThen (os (nl_RuleList api FAMILY_V4)) (\<lambda>rules.
     each (\<lambda>rule. tryTo (os (nl_RuleDel api rule))) (filter warpRule rules))"

definition addWarpRule :: "'k os_api \<Rightarrow> settings \<Rightarrow> upstream list \<Rightarrow> tunnel \<Rightarrow> ('k machine, unit) action" where
  "addWarpRule api cfg ups t =
     (if resolvedV4Mode cfg (upstreamsByID ups) t \<noteq> V4ModeWarp \<or> t_V4Address t = [] then return ()
      else case ParseAddr (t_V4Address t) of
        None \<Rightarrow> throw (LibErr ''netip.ParseAddr'')
      | Some source \<Rightarrow> os (nl_RuleAdd api (newRule\<lparr>ru_Family := FAMILY_V4, ru_Priority := warpRulePriority,
            ru_Table := warpRouteTable, ru_Src := Some (prefixIPNet (PrefixFrom source 32))\<rparr>)))"

text \<open>\<open>existing.IP.Equal(net.ParseIP(account.IPv4Address))\<close>: equal as addresses.\<close>

definition sameIP :: "bytes \<Rightarrow> addr \<Rightarrow> bool" where
  "sameIP existing a = (case AddrFromSlice existing of None \<Rightarrow> False | Some b \<Rightarrow> Unmap b = a)"

definition ensureWarp :: "'k os_api \<Rightarrow> settings \<Rightarrow> warp_account \<Rightarrow> upstream list \<Rightarrow> tunnel list \<Rightarrow> ('k machine, unit) action" where
  "ensureWarp api cfg account ups ts =
     andThen (require (Exists account) (newError ''Cloudflare WARP is enabled but no account exists'')) (\<lambda>_.
     andThen (wrapError ''WARP private key: %w'' [] (liftResult (wg_ParseKey api (w_PrivateKey account)))) (\<lambda>privateKey.
     andThen (wrapError ''WARP peer key: %w'' [] (liftResult (wg_ParseKey api (w_PeerPublicKey account)))) (\<lambda>peerKey.
     case ParseAddr (w_IPv4Address account) of
       None \<Rightarrow> throw (newError ''WARP account has no valid IPv4 address'')
     | Some address \<Rightarrow>
       andThen (require (Is4 address) (newError ''WARP account has no valid IPv4 address'')) (\<lambda>_.
       andThen (wrapError ''resolve WARP endpoint: %w'' [] (os (net_Resolve api (w_Endpoint account)))) (\<lambda>endpoint.
       andThen (ensureLink api warpInterfaceName) (\<lambda>link.
       andThen (os (nl_LinkSetMTU api link 1280)) (\<lambda>_.
       andThen (os (nl_AddrList api link FAMILY_V4)) (\<lambda>addresses.
       andThen (each (\<lambda>existing. tryTo (os (nl_AddrDel api link existing))) (filter (\<lambda>e. \<not> sameIP e address) addresses)) (\<lambda>_.
       andThen (os (nl_AddrReplace api link (addressIPNet (PrefixFrom address 32)))) (\<lambda>_.
       andThen (os (nl_LinkSetUp api link)) (\<lambda>_.
       andThen (os (wg_New api)) (\<lambda>_.
       andThen (os (wg_ConfigureDevice api warpInterfaceName \<lparr>wc_PrivateKey = Some privateKey, wc_ListenPort = None,
          wc_ReplacePeers = True, wc_Peers = [(peerConfig peerKey)\<lparr>pc_Endpoint := Some endpoint, pc_ReplaceAllowedIPs := True,
            pc_AllowedIPs := [defaultDst FAMILY_V4], pc_Keepalive := Some 25\<rparr>]\<rparr>)) (\<lambda>_.
       andThen (dropWarpRules api) (\<lambda>_.
       andThen (each (addWarpRule api cfg ups) ts) (\<lambda>_.
       os (nl_RouteReplace api (zeroRoute\<lparr>rt_LinkIndex := ln_Index link, rt_Dst := Some (defaultDst FAMILY_V4),
          rt_Table := warpRouteTable\<rparr>)))))))))))))))))"

definition disableWarp :: "'k os_api \<Rightarrow> ('k machine, unit) action" where
  "disableWarp api =
     andThen (dropWarpRules api) (\<lambda>_.
     andThen (os (nl_RouteListTable api FAMILY_V4 warpRouteTable)) (\<lambda>routes.
     andThen (each (\<lambda>route. tryTo (os (nl_RouteDel api route))) routes) (\<lambda>_.
     andThen (attempt (os (nl_LinkByName api warpInterfaceName))) (\<lambda>r. case r of
         Inr link \<Rightarrow> os (nl_LinkDel api link)
       | Inl e \<Rightarrow> if e = LinkNotFound then return () else throw e))))"

definition firstTraceValue :: "string \<Rightarrow> string \<Rightarrow> string" where
  "firstTraceValue trace key =
     (case firstSome (\<lambda>line. CutPrefix line (key @ ''='')) (Split (CHR 0x0A) trace) of
        None \<Rightarrow> [] | Some value \<Rightarrow> TrimSpace value)"

definition checkTrace :: "int \<times> string \<Rightarrow> string result" where
  "checkTrace resp =
     (case resp of (status, body) \<Rightarrow>
      let trace = TrimSpace body; mode = firstTraceValue trace ''warp'' in
      if status \<noteq> 200 then Inl (Errorf ''WARP trace returned HTTP %d'' [Itoa status])
      else if mode \<noteq> ''on'' \<and> mode \<noteq> ''plus'' then Inl (Errorf ''Cloudflare trace reports warp=%s'' [mode])
      else if firstTraceValue trace ''ip'' = [] then Inl (newError ''Cloudflare trace did not report an outbound IP'')
      else Inr (trace @ nl))"

definition dryTrace :: string where
  "dryTrace = ''fl=test'' @ nl @ ''ip=203.0.113.8'' @ nl @ ''warp=on'' @ nl"

definition Kernel_TestWarp :: "'k os_api \<Rightarrow> bool \<Rightarrow> settings \<Rightarrow> warp_account \<Rightarrow> ('k machine, string) action" where
  "Kernel_TestWarp api dry cfg account =
     (if dry then return dryTrace
      else
        andThen (require (Exists account) (newError ''Cloudflare WARP IPv4 egress is not ready'')) (\<lambda>_.
        andThen (liftResult (parsePrefixErr (V4Pool cfg))) (\<lambda>pool.
        let testAddress = pAddr (Masked pool);
            host = PrefixFrom testAddress 32;
            rule = newRule\<lparr>ru_Family := FAMILY_V4, ru_Priority := warpRulePriority - 1, ru_Table := warpRouteTable,
                     ru_Src := Some (prefixIPNet host)\<rparr>
        in andThen (os (nl_LinkByName api ''lo'')) (\<lambda>loopback.
           andThen (os (nl_AddrReplace api loopback (addressIPNet host))) (\<lambda>_.
           deferring (os (nl_AddrDel api loopback (AsSlice testAddress)))
             (andThen (tryTo (os (nl_RuleDel api rule))) (\<lambda>_.
              andThen (os (nl_RuleAdd api rule)) (\<lambda>_.
              deferring (os (nl_RuleDel api rule))
                (andThen (wrapError ''WARP trace request: %w'' [] (os (net_Trace api testAddress))) (\<lambda>resp.
                 liftResult (checkTrace resp)))))))))))"

subsection \<open>nftables\<close>

text \<open>\<open>strings.SplitN(script, "\n", 2)\<close>: what follows the first newline, if there is one.\<close>

fun afterNewline :: "string \<Rightarrow> string option" where
  "afterNewline [] = None"
| "afterNewline (c # cs) = (if c = CHR 0x0A then Some cs else afterNewline cs)"

lemma afterNewline_shorter: "afterNewline s = Some rest \<Longrightarrow> length rest < length s"
  by (induction s) (auto split: if_splits)

function runNft :: "'k os_api \<Rightarrow> string \<Rightarrow> ('k machine, unit) action" where
  "runNft api script =
     (case afterNewline script of
        None \<Rightarrow> andThen (os (os_nft api script)) (\<lambda>(out, e). case e of
            None \<Rightarrow> return ()
          | Some err \<Rightarrow>
              if ContainsStr script ''delete table'' \<and> ContainsStr out ''No such file'' then return ()
              else throw (Wrapf ''nft: %s: %w'' [TrimSpace out] err))
      | Some rest \<Rightarrow> andThen (os (os_nft api script)) (\<lambda>(out, e). case e of
            None \<Rightarrow> return ()
          | Some err \<Rightarrow>
              if ContainsStr script ''delete table'' \<and> ContainsStr out ''No such file'' then runNft api rest
              else throw (Wrapf ''nft: %s: %w'' [TrimSpace out] err)))"
  by pat_completeness auto
termination
  by (relation "measure (length \<circ> snd)") (auto dest: afterNewline_shorter)

declare runNft.simps [simp del]

definition applyNAT :: "'k os_api \<Rightarrow> settings \<Rightarrow> upstream list \<Rightarrow> tunnel list \<Rightarrow> ('k machine, unit) action" where
  "applyNAT api cfg ups ts =
     andThen (liftResult (buildNFTScript (os_unicode api) cfg ups ts)) (\<lambda>script. runNft api script)"

subsection \<open>Neighbor Discovery proxies\<close>

text \<open>The local addresses of the egress interfaces of the on-link connections, read once each.\<close>

fun onLinkAddresses ::
  "'k os_api \<Rightarrow> (string \<rightharpoonup> addr list) \<Rightarrow> upstream list \<Rightarrow> ('k machine, string \<rightharpoonup> addr list) action" where
  "onLinkAddresses api loc [] = return loc"
| "onLinkAddresses api loc (up # ups) =
     (if upstreamMode up \<noteq> UpstreamOnLink then onLinkAddresses api loc ups
      else if up_EgressInterface up = []
      then throw (Errorf ''upstream %q uses on-link delegation but has no egress interface'' [up_Name up])
      else if loc (up_EgressInterface up) \<noteq> None then onLinkAddresses api loc ups
      else andThen (wrapError ''read addresses of %s: %w'' [up_EgressInterface up] (upstreamLocalAddresses api (up_EgressInterface up))) (\<lambda>addresses.
           onLinkAddresses api (loc(up_EgressInterface up \<mapsto> addresses)) ups))"

definition desiredNDPProxySets ::
  "'k os_api \<Rightarrow> upstream list \<Rightarrow> (int \<rightharpoonup> tunnel list) \<Rightarrow> ('k machine, string \<rightharpoonup> ndpProxySet) action" where
  "desiredNDPProxySets api ups grouped =
     andThen (onLinkAddresses api Map.empty ups) (\<lambda>loc. return (ndpProxySetsFor ups grouped loc))"

definition writeSysctl :: "'k os_api \<Rightarrow> string \<Rightarrow> string \<Rightarrow> ('k machine, unit) action" where
  "writeSysctl api path value =
     andThen (attempt (os (os_ReadFile api (''/proc/sys/'' @ path)))) (\<lambda>r.
     if (case r of Inl _ \<Rightarrow> False | Inr current \<Rightarrow> TrimSpace current = value) then return ()
     else wrapError ''set %s=%s: %w'' [path, value] (os (os_WriteFile api (''/proc/sys/'' @ path) (value @ nl))))"

text \<open>The interfaces a map of proxy sets can have: the egress interfaces of the connections.\<close>

definition setNames :: "upstream list \<Rightarrow> (string \<rightharpoonup> 'a) \<Rightarrow> string list" where
  "setNames ups sets = filter (\<lambda>n. sets n \<noteq> None) (remdups (map up_EgressInterface ups))"

definition configureProxies :: "'k os_api \<Rightarrow> string list \<Rightarrow> (string \<rightharpoonup> ndpProxySet) \<Rightarrow> ('k machine, unit) action" where
  "configureProxies api names sets m =
     (case manager_Configure (os_ndp api) (mc_ndpNames m) names sets (mc_ndp m) of (err, ndp) \<Rightarrow>
        ((case err of None \<Rightarrow> Inr () | Some e \<Rightarrow> Inl e),
         m\<lparr>mc_ndp := ndp, mc_ndpNames := filter (\<lambda>n. fst ndp n \<noteq> None) (remdups (mc_ndpNames m @ names))\<rparr>))"

definition applyNDPProxy :: "'k os_api \<Rightarrow> upstream list \<Rightarrow> (int \<rightharpoonup> tunnel list) \<Rightarrow> ('k machine, unit) action" where
  "applyNDPProxy api ups grouped =
     andThen (wrapError ''neighbor discovery proxy: %w'' [] (desiredNDPProxySets api ups grouped)) (\<lambda>sets.
     andThen (each (\<lambda>name. each (\<lambda>setting.
         wrapError ''neighbor discovery proxy: %w'' [] (writeSysctl api (''net/ipv6/conf/'' @ name @ ''/'' @ setting) ''1''))
         [''forwarding'', ''proxy_ndp'']) (setNames ups sets)) (\<lambda>_.
     configureProxies api (setNames ups sets) sets))"

subsection \<open>Reading the state back\<close>

definition drift1 :: "tunnel \<Rightarrow> string \<Rightarrow> string" where
  "drift1 t msg = ''tunnel '' @ Itoa (t_ID t) @ msg"

text \<open>The enabled tunnels by public key, with the keys in the order they first appear.\<close>

definition enabledKeys :: "tunnel list \<Rightarrow> string list" where
  "enabledKeys ts = remdups (map t_PublicKey (filter t_Enabled ts))"

definition peerDrift :: "settings \<Rightarrow> upstream \<Rightarrow> (string \<rightharpoonup> peer) \<Rightarrow> tunnel \<Rightarrow> string list" where
  "peerDrift cfg up live t =
     (case live (t_PublicKey t) of
        None \<Rightarrow> [drift1 t '' peer is missing'']
      | Some peer \<Rightarrow>
          let expected = map prefixString (tunnelAllowedIPs cfg up t);
              present = map prefixString (p_AllowedIPs peer)
          in if length present \<noteq> length (remdups expected) then [drift1 t '' AllowedIPs differ'']
             else if list_ex (\<lambda>a. a \<notin> set expected) present then [drift1 t '' AllowedIPs differ'']
             else [])"

definition routeDrift :: "settings \<Rightarrow> upstream \<Rightarrow> string list \<Rightarrow> tunnel \<Rightarrow> string list" where
  "routeDrift cfg up liveRoutes t =
     (if \<not> t_Enabled t then []
      else case ParsePrefix (t_V6CIDR t) of
        None \<Rightarrow> [drift1 t '' has an invalid allocation'']
      | Some allocation \<Rightarrow>
          (if prefixString (Masked allocation) \<notin> set liveRoutes then [drift1 t '' IPv6 route is missing''] else []) @
          (if tunnelIPv4Enabled cfg up t \<and> t_V4Address t @ ''/32'' \<notin> set liveRoutes
           then [drift1 t '' IPv4 route is missing''] else []))"

definition inspectUpstream :: "'k os_api \<Rightarrow> settings \<Rightarrow> upstream \<Rightarrow> tunnel list \<Rightarrow> ('k machine, string list) action" where
  "inspectUpstream api cfg up ts =
     andThen (attempt (os (nl_LinkByName api (up_InterfaceName up)))) (\<lambda>r. case r of
       Inl e \<Rightarrow> if e = LinkNotFound then return [''WireGuard interface is missing''] else throw e
     | Inr link \<Rightarrow>
       andThen (os (wg_Device api (up_InterfaceName up))) (\<lambda>peers.
       let desired = byPublicKey (filter t_Enabled ts) in
       if list_ex (\<lambda>p. desired (p_PublicKey p) = None) peers
       then return [''unmanaged or disabled WireGuard peer is present'']
       else
         andThen (os (nl_RouteList api (Some link) FAMILY_ALL)) (\<lambda>routes.
         return (concat (map (\<lambda>key. case desired key of None \<Rightarrow> [] | Some t \<Rightarrow> peerDrift cfg up (livePeers peers) t) (enabledKeys ts))
           @ concat (map (routeDrift cfg up (map prefixString (List.map_filter rt_Dst routes))) ts)))))"

definition warpSources :: "settings \<Rightarrow> upstream list \<Rightarrow> tunnel list \<Rightarrow> string list" where
  "warpSources cfg ups ts = remdups (map (\<lambda>t. t_V4Address t @ ''/32'')
     (filter (\<lambda>t. resolvedV4Mode cfg (upstreamsByID ups) t = V4ModeWarp \<and> t_V4Address t \<noteq> []) ts))"

definition warpDevice :: "'k os_api \<Rightarrow> warp_account \<Rightarrow> ('k machine, string list) action" where
  "warpDevice api warp =
     andThen (attempt (os (nl_LinkByName api warpInterfaceName))) (\<lambda>r. case r of
       Inl _ \<Rightarrow> return [''Cloudflare WARP interface is missing'']
     | Inr link \<Rightarrow>
       andThen (attempt (os (wg_Device api warpInterfaceName))) (\<lambda>d.
       return (if (case d of Inr [p] \<Rightarrow> p_PublicKey p = w_PeerPublicKey warp \<and> ln_Up link | _ \<Rightarrow> False)
               then [] else [''Cloudflare WARP interface differs''])))"

definition inspectWarp :: "'k os_api \<Rightarrow> settings \<Rightarrow> warp_account \<Rightarrow> upstream list \<Rightarrow> tunnel list \<Rightarrow> ('k machine, string list) action" where
  "inspectWarp api cfg warp ups ts =
     (let sources = warpSources cfg ups ts in
      if sources = [] then return []
      else
        andThen (warpDevice api warp) (\<lambda>device.
        andThen (os (nl_RuleList api FAMILY_V4)) (\<lambda>rules.
        let found = map prefixString (List.map_filter ru_Src (filter warpRule rules));
            drift = device @ map (\<lambda>s. ''Cloudflare WARP policy rule is missing for '' @ s) (filter (\<lambda>s. s \<notin> set found) sources)
        in andThen (os (nl_RouteListTable api FAMILY_V4 warpRouteTable)) (\<lambda>routes.
           return (if list_ex (\<lambda>r. case rt_Dst r of None \<Rightarrow> False | Some d \<Rightarrow> prefixString d = ''0.0.0.0/0'') routes
                   then drift else drift @ [''Cloudflare WARP policy route is missing''])))))"

definition inspectNDPProxy :: "'k os_api \<Rightarrow> upstream list \<Rightarrow> (int \<rightharpoonup> tunnel list) \<Rightarrow> ('k machine, string list) action" where
  "inspectNDPProxy api ups grouped =
     andThen (attempt (desiredNDPProxySets api ups grouped)) (\<lambda>r. case r of
       Inl e \<Rightarrow> return [''Neighbor Discovery proxy: '' @ os_text api e]
     | Inr expected \<Rightarrow>
       andThen (reads (\<lambda>m. (manager_states (mc_ndp m), mc_ndpNames m))) (\<lambda>(running, names).
       return (concat (map (\<lambda>name. case running name of
             None \<Rightarrow> [''Neighbor Discovery proxy is not running on '' @ name]
           | Some current \<Rightarrow> if ndp_equal current (the (expected name)) then []
               else [''Neighbor Discovery proxy on '' @ name @ '' does not match the delegated prefixes'']) (setNames ups expected))
         @ map (\<lambda>name. ''Neighbor Discovery proxy is running on '' @ name @ '' with no delegated prefix'')
             (filter (\<lambda>name. running name \<noteq> None \<and> expected name = None) names))))"

fun inspectAll :: "'k os_api \<Rightarrow> settings \<Rightarrow> (int \<rightharpoonup> tunnel list) \<Rightarrow> upstream list \<Rightarrow> ('k machine, string list) action" where
  "inspectAll api cfg grouped [] = return []"
| "inspectAll api cfg grouped (up # ups) =
     andThen (inspectUpstream api cfg up (slice_at grouped (up_ID up))) (\<lambda>items.
     andThen (inspectAll api cfg grouped ups) (\<lambda>rest.
     return (map (\<lambda>item. up_Name up @ '': '' @ item) items @ rest)))"

definition Kernel_Inspect ::
  "'k os_api \<Rightarrow> bool \<Rightarrow> settings \<Rightarrow> warp_account \<Rightarrow> upstream list \<Rightarrow> tunnel list \<Rightarrow> ('k machine, string list) action" where
  "Kernel_Inspect api dry cfg warp ups ts =
     (if dry then return []
      else
        andThen (os (wg_New api)) (\<lambda>_.
        let grouped = tunnelsByUpstream ups ts in
        andThen (inspectAll api cfg grouped ups) (\<lambda>drift.
        andThen (inspectWarp api cfg warp ups ts) (\<lambda>warpDrift.
        andThen (inspectNDPProxy api ups grouped) (\<lambda>ndpDrift.
        return (drift @ warpDrift @ ndpDrift))))))"

subsection \<open>The operations of the driver\<close>

text \<open>Every connection in turn: the healthy ones, their live peers, and the first failure.\<close>

fun applyAll ::
  "'k os_api \<Rightarrow> settings \<Rightarrow> (int \<rightharpoonup> tunnel list) \<Rightarrow> upstream list \<Rightarrow> upstream list \<Rightarrow> (string \<rightharpoonup> peer) \<Rightarrow> error option
     \<Rightarrow> ('k machine, upstream list \<times> (string \<rightharpoonup> peer) \<times> error option) action" where
  "applyAll api cfg grouped [] healthy live err = return (healthy, live, err)"
| "applyAll api cfg grouped (up # ups) healthy live err =
     andThen (attempt (applyUpstream api cfg up (slice_at grouped (up_ID up)))) (\<lambda>r. case r of
       Inl e \<Rightarrow> applyAll api cfg grouped ups healthy live
           (case err of None \<Rightarrow> Some (Wrapf ''upstream %q: %w'' [up_Name up] e) | Some e0 \<Rightarrow> Some e0)
     | Inr peers \<Rightarrow> applyAll api cfg grouped ups (healthy @ [up]) (live ++ peers) err)"

definition withTelemetry :: "(string \<rightharpoonup> peer) \<Rightarrow> tunnel \<Rightarrow> tunnel" where
  "withTelemetry live t = (case live (t_PublicKey t) of
       None \<Rightarrow> t
     | Some p \<Rightarrow> t\<lparr>t_LastHandshake := p_LastHandshakeTime p, t_RXBytes := p_ReceiveBytes p, t_TXBytes := p_TransmitBytes p\<rparr>)"

definition Kernel_Apply ::
  "'k os_api \<Rightarrow> bool \<Rightarrow> settings \<Rightarrow> warp_account \<Rightarrow> upstream list \<Rightarrow> tunnel list \<Rightarrow> ('k machine, tunnel list) action" where
  "Kernel_Apply api dry cfg warp ups ts =
     (if dry then return ts
      else
        let grouped = tunnelsByUpstream ups ts in
        andThen (os (wg_New api)) (\<lambda>_.
        andThen (applyAll api cfg grouped ups [] Map.empty None) (\<lambda>(healthy, live, upstreamErr).
        let ts = map (withTelemetry live) ts;
            warpEnabled = list_ex (\<lambda>t. resolvedV4Mode cfg (upstreamsByID healthy) t = V4ModeWarp) ts
        in andThen (if warpEnabled then ensureWarp api cfg warp healthy ts else disableWarp api) (\<lambda>_.
           andThen (applyPolicyRouting api cfg healthy ts) (\<lambda>_.
           andThen (applyNAT api cfg healthy ts) (\<lambda>_.
           andThen (applyNDPProxy api healthy grouped) (\<lambda>_.
           case upstreamErr of None \<Rightarrow> return ts | Some e \<Rightarrow> throw e)))))))"

definition Kernel_Remove :: "'k os_api \<Rightarrow> bool \<Rightarrow> upstream \<Rightarrow> tunnel \<Rightarrow> ('k machine, unit) action" where
  "Kernel_Remove api dry up t =
     (if dry then return ()
      else
        andThen (attempt (os (nl_LinkByName api (up_InterfaceName up)))) (\<lambda>r.
        andThen (case r of
            Inl _ \<Rightarrow> return ()
          | Inr link \<Rightarrow>
              andThen (case ParsePrefix (t_V6CIDR t) of
                  None \<Rightarrow> return ()
                | Some prefix \<Rightarrow> tryTo (os (nl_RouteDel api (zeroRoute\<lparr>rt_LinkIndex := ln_Index link,
                      rt_Dst := Some (prefixIPNet prefix), rt_Priority := tunnelRouteMetric\<rparr>)))) (\<lambda>_.
              case ParseAddr (t_V4Address t) of
                  None \<Rightarrow> return ()
                | Some a \<Rightarrow> tryTo (os (nl_RouteDel api (zeroRoute\<lparr>rt_LinkIndex := ln_Index link,
                      rt_Dst := Some (prefixIPNet (PrefixFrom a 32))\<rparr>))))) (\<lambda>_.
        andThen (os (wg_New api)) (\<lambda>_.
        andThen (liftResult (wg_ParseKey api (t_PublicKey t))) (\<lambda>pub.
        os (wg_ConfigureDevice api (up_InterfaceName up) \<lparr>wc_PrivateKey = None, wc_ListenPort = None, wc_ReplacePeers = False,
           wc_Peers = [(peerConfig pub)\<lparr>pc_Remove := True\<rparr>]\<rparr>))))))"

definition Kernel_RemoveUpstream :: "'k os_api \<Rightarrow> bool \<Rightarrow> upstream \<Rightarrow> ('k machine, unit) action" where
  "Kernel_RemoveUpstream api dry up =
     (if dry then return ()
      else
        andThen (flushRouteTable api (upstreamRouteTable up)) (\<lambda>_.
        andThen (attempt (os (nl_LinkByName api (up_InterfaceName up)))) (\<lambda>r. case r of
          Inl e \<Rightarrow> if e = LinkNotFound then return () else throw e
        | Inr link \<Rightarrow> os (nl_LinkDel api link))))"

definition Kernel_Close :: "bool \<Rightarrow> ('k machine, unit) action" where
  "Kernel_Close dry =
     (if dry then return ()
      else modify (\<lambda>m. m\<lparr>mc_ndp := manager_Close (mc_ndpNames m) (mc_ndp m), mc_ndpNames := []\<rparr>))"

end
