(* ===== verification/Service_Reach.thy ===== *)
theory Service_Reach
  imports Service_Safety
begin

section \<open>The application as a state machine\<close>

text \<open>
  Every operation of the application keeps the address invariant, and what follows for the states
  reachable from a fresh database.
\<close>

subsection \<open>Connections as the store returns them\<close>

definition tunnelCount :: "db \<Rightarrow> int \<Rightarrow> int" where
  "tunnelCount d k = int (length (filter (\<lambda>t. t_UpstreamID t = k) (db_tunnels d)))"

definition viewUpstream :: "db \<Rightarrow> upstream \<Rightarrow> upstream" where
  "viewUpstream d u = (scanUpstream u)\<lparr>up_TunnelCount := tunnelCount d (up_ID (scanUpstream u))\<rparr>"

definition viewUpstreams :: "db \<Rightarrow> upstream list" where
  "viewUpstreams d = map (viewUpstream d) (sort_key up_Name (db_upstreams d))"

lemma Upstreams_Inr: "Store_Upstreams s = (Inr us, s') \<Longrightarrow> us = viewUpstreams (st_db s)"
  by (auto simp: Store_Upstreams_def upstreamsTx_def tunnelCountsByUpstream_def andThen_Inr viewUpstreams_def
      viewUpstream_def tunnelCount_def dest!: query_Inr)

lemma Upstream_Inr:
  assumes "Store_Upstream k s = (Inr u, s')"
  shows "\<exists>row\<in>set (db_upstreams (st_db s)). up_ID row = k \<and> u = viewUpstream (st_db s) row"
proof -
  obtain row where "lookupRow up_ID k (db_upstreams (st_db s)) = Some row" "u = viewUpstream (st_db s) row"
    using assms by (auto simp: Store_Upstream_def tunnelCountsByUpstream_def andThen_Inr viewUpstream_def tunnelCount_def
        dest!: query_Inr queryRow_Inr)
  then show ?thesis using upstream_table.lookup_Some by blast
qed

text \<open>The fields of a connection that decide on conflicts and reservations.\<close>

definition same_link :: "upstream \<Rightarrow> upstream \<Rightarrow> bool" where
  "same_link a b \<longleftrightarrow> up_Name a = up_Name b \<and> up_InterfaceName a = up_InterfaceName b \<and>
     up_EgressInterface a = up_EgressInterface b \<and> up_V6CIDR a = up_V6CIDR b \<and>
     up_TransportAddress a = up_TransportAddress b \<and> up_EndpointPort a = up_EndpointPort b \<and>
     up_EndpointHost a = up_EndpointHost b \<and> upstreamMode a = upstreamMode b \<and>
     up_ServerAddress a = up_ServerAddress b \<and> up_MaxPrefix a = up_MaxPrefix b"

lemma same_link_refl [simp]: "same_link a a"
  by (simp add: same_link_def)

lemma same_link_prefixes:
  "same_link a b \<Longrightarrow> delegatedPrefix a = delegatedPrefix b" "same_link a b \<Longrightarrow> transportPrefix a = transportPrefix b"
  "same_link a b \<Longrightarrow> serverReservation a = serverReservation b"
  by (simp_all add: same_link_def delegatedPrefix_def transportPrefix_def serverReservation_def
      cong: if_cong option.case_cong)

lemma same_link_compatible: "same_link a a' \<Longrightarrow> same_link b b' \<Longrightarrow> compatible uni a b = compatible uni a' b'"
  using same_link_prefixes [of a a'] same_link_prefixes [of b b'] by (simp add: compatible_def same_link_def)

lemma same_link_holds: "same_link a b \<Longrightarrow> holds a c = holds b c"
  using same_link_prefixes [of a b] by (simp add: holds_def)

lemma same_link_view [simp]: "same_link (viewUpstream d u) u" "up_ID (viewUpstream d u) = up_ID u"
  by (simp_all add: same_link_def viewUpstream_def scanUpstream_def upstreamMode_def validUpstreamMode_def)

lemma compatible_view [simp]: "compatible uni (viewUpstream d u) c = compatible uni u c"
  by (rule same_link_compatible) simp_all

subsection \<open>Changes of the placement\<close>

lemma placement_fewer: "placement uni ups ks \<Longrightarrow> ks' \<subseteq> ks \<Longrightarrow> placement uni ups ks'"
  unfolding placement_def by blast

lemma coexist_subset: "coexist uni ups \<Longrightarrow> set ups' \<subseteq> set ups \<Longrightarrow> coexist uni ups'"
  unfolding coexist_def by blast

lemma placement_deleteUpstream:
  assumes "placement uni ups ks" "\<forall>(i, k', c)\<in>ks. k' \<noteq> k"
  shows "placement uni (deleteRow up_ID k ups) ks"
  using assms coexist_subset [of uni ups "deleteRow up_ID k ups"]
  unfolding placement_def deleteRow_def by fastforce

lemma placement_addUpstream:
  assumes "placement uni ups ks" "\<forall>v\<in>set ups. compatible uni v u"
  shows "placement uni (ups @ [u]) ks"
proof -
  have "coexist uni (ups @ [u])"
    using assms compatible_sym by (auto simp: placement_def coexist_def)
  then show ?thesis using assms(1) unfolding placement_def by fastforce
qed

lemma placement_updateUpstream:
  assumes "placement uni ups ks" "\<And>v. up_ID (f v) = up_ID v" "\<And>v. v \<in> set ups \<Longrightarrow> up_ID v = k \<Longrightarrow> same_link (f v) u"
    "\<forall>v\<in>set ups. up_ID v \<noteq> k \<longrightarrow> compatible uni v u" "\<forall>(i, k', c)\<in>ks. k' = k \<longrightarrow> holds u c"
  shows "placement uni (updateRow up_ID k f ups) ks"
proof -
  have "coexist uni (updateRow up_ID k f ups)"
    unfolding coexist_def
  proof (intro ballI impI)
    fix x y assume xy: "x \<in> set (updateRow up_ID k f ups)" "y \<in> set (updateRow up_ID k f ups)" "up_ID x \<noteq> up_ID y"
    have cases: "up_ID z = k \<and> same_link z u \<or> z \<in> set ups \<and> up_ID z \<noteq> k"
      if "z \<in> set (updateRow up_ID k f ups)" for z
      using that assms(2,3) by (auto simp: updateRow_def split: if_splits)
    have new: "compatible uni a b" if "same_link a u" "b \<in> set ups" "up_ID b \<noteq> k" for a b
      using that assms(4) compatible_sym same_link_compatible [OF that(1) same_link_refl, of uni b] by blast
    from cases [OF xy(1)] cases [OF xy(2)] xy(3)
    consider "same_link x u" "y \<in> set ups" "up_ID y \<noteq> k" | "same_link y u" "x \<in> set ups" "up_ID x \<noteq> k"
      | "x \<in> set ups" "y \<in> set ups" by auto
    then show "compatible uni x y"
    proof cases
      case 1
      then show ?thesis by (rule new)
    next
      case 2
      then show ?thesis by (rule compatible_sym [OF new])
    next
      case 3
      then show ?thesis using assms(1) xy(3) by (simp add: placement_def coexist_def)
    qed
  qed
  moreover have "\<exists>v\<in>set (updateRow up_ID k f ups). up_ID v = k' \<and> holds v c" if ik: "(i, k', c) \<in> ks" for i k' c
  proof -
    obtain v where v: "v \<in> set ups" "up_ID v = k'" "holds v c" using assms(1) ik by (fastforce simp: placement_def)
    show ?thesis
    proof (cases "k' = k")
      case True
      then have "holds u c" using assms(5) ik by blast
      then have "holds (f v) c" using assms(3) v True same_link_holds by blast
      then show ?thesis using v True assms(2) by (auto simp: updateRow_def)
    next
      case False
      then show ?thesis using v by (auto simp: updateRow_def intro!: bexI [of _ v])
    qed
  qed
  ultimately show ?thesis using assms(1) unfolding placement_def by fast
qed

lemma placement_addTunnel:
  assumes "placement uni ups ks" "u \<in> set ups" "up_ID u = k" "holds u c"
    "\<forall>(i', k', c')\<in>ks. k' = k \<longrightarrow> apart c c'"
  shows "placement uni ups (insert (i, k, c) ks)"
proof -
  have "apart c' c \<longleftrightarrow> apart c c'" for c c' unfolding apart_def using overlaps_sym by blast
  then show ?thesis using assms unfolding placement_def by fastforce
qed

subsection \<open>The store calls that change the placement\<close>

lemma sane_audit: "dbkeeps (sane uni) (auditRow admin action tunnel detail now)"
  by (rule sane_keep) (rule keeps_audit skel_exec)+

lemma audit_Inr: "auditRow admin action tunnel detail now s = (Inr x, s') \<Longrightarrow> sane uni (st_db s) \<Longrightarrow> sane uni (st_db s')"
  using keepsD [OF sane_audit] by blast

lemma sane_DeleteTunnel: "dbkeeps (sane uni) (Store_DeleteTunnel k admin)"
proof -
  have "sane uni (d\<lparr>db_tunnels := deleteRow t_ID k (db_tunnels d), db_members := filter (\<lambda>(t, g). t \<noteq> k) (db_members d)\<rparr>)"
    if "sane uni d" for d
  proof -
    have "allocations (d\<lparr>db_tunnels := deleteRow t_ID k (db_tunnels d), db_members := filter (\<lambda>(t, g). t \<noteq> k) (db_members d)\<rparr>)
        \<subseteq> allocations d" by (auto simp: allocations_def deleteRow_def)
    then show ?thesis using that wf_db_delete_tunnel placement_fewer by (auto simp: sane_def)
  qed
  then show ?thesis unfolding Store_DeleteTunnel_def by (intro keeps_rules sane_audit)
qed

lemma clean_store:
  "clean (Store_InsertUpstream u admin)" "clean (Store_UpdateUpstream u admin)" "clean (Store_DeleteUpstream k admin)"
  "clean (Store_InsertTunnel t admin)"
  unfolding Store_InsertUpstream_def Store_UpdateUpstream_def Store_DeleteUpstream_def Store_InsertTunnel_def
  by (intro clean_rules)+

lemma leads_clean:
  assumes "clean m" "\<And>d. P d \<Longrightarrow> I d" "\<And>s x s'. P (st_db s) \<Longrightarrow> m s = (Inr x, s') \<Longrightarrow> I (st_db s')"
  shows "leads P I (onStore m)"
proof (rule leads_onStore)
  fix s r s'
  assume "P (st_db s)" "m s = (r, s')"
  then show "I (st_db s')" using assms unfolding clean_def by (cases r) (metis, blast)
qed

lemma sane_wf: "sane uni d \<Longrightarrow> wf_db d"
  by (simp add: sane_def)

lemma DeleteUpstream_Inr:
  assumes "Store_DeleteUpstream k admin s = (Inr x, s')" "sane uni (st_db s)"
  shows "sane uni (st_db s')"
proof -
  obtain now s0 where s0: "Now s = (Inr now, s0)"
    and t: "tx (andThen (queryRow (\<lambda>d. map_option up_Name (lookupRow up_ID k (db_upstreams d)))) (\<lambda>name.
       andThen (query (\<lambda>d. length (filter (\<lambda>t. t_UpstreamID t = k) (db_tunnels d)))) (\<lambda>tunnels.
       if 0 < tunnels
       then throw (Errorf ''upstream %q still has %d tunnel(s); delete them first'' [name, Itoa (int tunnels)])
       else andThen (exec (db_upstreams_update (deleteRow up_ID k))) (\<lambda>_.
            auditRow admin ''upstream-delete'' None name now)))) s0 = (Inr x, s')"
    using assms(1) by (auto simp: Store_DeleteUpstream_def andThen_Inr)
  obtain s1 s2 s3 name where s: "filter (\<lambda>t. t_UpstreamID t = k) (db_tunnels (st_db s0)) = []"
    "st_db s2 = db_upstreams_update (deleteRow up_ID k) (st_db s0)"
    "auditRow admin ''upstream-delete'' None name now s2 = (Inr x, s3)" "st_db s' = st_db s3"
    by (rule tx_Inr [OF t]) (auto simp: andThen_Inr split: if_splits dest!: query_Inr queryRow_Inr exec_Inr)
  have d: "sane uni (st_db s0)" using assms(2) Now_Inr [OF s0] by simp
  have "\<forall>(i, k', c)\<in>allocations (st_db s0). k' \<noteq> k"
    using s(1) by (auto simp: allocations_def filter_empty_conv)
  then have "sane uni (st_db s2)"
    using d placement_deleteUpstream
    by (auto simp: s(2) sane_def wf_db_def wf_members_def upstream_table.wf_delete)
  then show ?thesis using audit_Inr [OF s(3)] s(4) by simp
qed

lemma sane_DeleteUpstream: "leads (sane uni) (sane uni) (onStore (Store_DeleteUpstream k admin))"
  by (rule leads_clean [OF clean_store(3)]) (auto intro: DeleteUpstream_Inr)

lemma InsertUpstream_Inr:
  assumes "Store_InsertUpstream u admin s = (Inr u', s')" "sane uni (st_db s)"
    "\<forall>v\<in>set (db_upstreams (st_db s)). compatible uni v u"
  shows "sane uni (st_db s')"
proof -
  have wf: "wf_db (st_db s')" using keepsD [OF keeps_upstream_methods(1) sane_wf [OF assms(2)] assms(1)] .
  obtain now s0 where s0: "Now s = (Inr now, s0)" and t: "tx (
       andThen (mapError translateUpstreamConflict
         (addRow upstream_uniques db_upstreams db_upstreams_update up_ID
            (\<lambda>k. u\<lparr>up_ID := k, up_TunnelCount := 0, up_CreatedAt := now, up_UpdatedAt := now\<rparr>))) (\<lambda>k.
       andThen (auditRow admin ''upstream-create'' None (up_Name u @ '' '' @ up_V6CIDR u) now) (\<lambda>_.
       return (u\<lparr>up_ID := k\<rparr>)))) s0 = (Inr u', s')"
    using assms(1) by (auto simp: Store_InsertUpstream_def andThen_Inr)
  obtain k a where d: "st_db s' = db_audit_update (\<lambda>_. a) (db_upstreams_update (\<lambda>rows. rows @
      [u\<lparr>up_ID := k, up_TunnelCount := 0, up_CreatedAt := now, up_UpdatedAt := now\<rparr>]) (st_db s0))"
    by (rule tx_Inr [OF t])
      (auto simp: andThen_Inr Inr_of_mapError auditRow_def dest!: addRow_Inr exec_Inr)
  have "same_link (u\<lparr>up_ID := k, up_TunnelCount := 0, up_CreatedAt := now, up_UpdatedAt := now\<rparr>) u"
    by (simp add: same_link_def upstreamMode_def)
  then have "\<forall>v\<in>set (db_upstreams (st_db s0)).
      compatible uni v (u\<lparr>up_ID := k, up_TunnelCount := 0, up_CreatedAt := now, up_UpdatedAt := now\<rparr>)"
    using assms(3) Now_Inr [OF s0] same_link_compatible same_link_refl by metis
  then show ?thesis
    using assms(2) wf placement_addUpstream Now_Inr [OF s0] by (simp add: d sane_def allocations_def)
qed

lemma setRow_upstream_Inr:
  assumes "setRow upstream_uniques db_upstreams db_upstreams_update up_ID k f s = (Inr x, s')"
  shows "st_db s' = db_upstreams_update (updateRow up_ID k f) (st_db s)"
proof (cases "lookupRow up_ID k (db_upstreams (st_db s))")
  case None
  then have "updateRow up_ID k f (db_upstreams (st_db s)) = db_upstreams (st_db s)"
    by (auto simp: updateRow_def upstream_table.lookup_None intro!: map_idI)
  then show ?thesis using assms None by (cases "st_db s") (auto simp: setRow_def sql_def Let_def split: if_splits)
next
  case (Some r)
  then show ?thesis using assms by (auto simp: setRow_def sql_def Let_def split: if_splits)
qed

lemma UpdateUpstream_Inr:
  assumes "Store_UpdateUpstream u admin s = (Inr x, s')" "sane uni (st_db s)"
    "\<forall>v\<in>set (db_upstreams (st_db s)). up_ID v \<noteq> up_ID u \<longrightarrow> compatible uni v u"
    "\<forall>(i, k, c)\<in>allocations (st_db s). k = up_ID u \<longrightarrow> holds u c"
  shows "sane uni (st_db s')"
proof -
  have wf: "wf_db (st_db s')" using keepsD [OF keeps_upstream_methods(2) sane_wf [OF assms(2)] assms(1)] .
  obtain now s0 where s0: "Now s = (Inr now, s0)" and t: "tx (
       andThen (mapError translateUpstreamConflict
         (setRow upstream_uniques db_upstreams db_upstreams_update up_ID (up_ID u)
            (\<lambda>old. u\<lparr>up_ID := up_ID old, up_TunnelCount := 0, up_CreatedAt := up_CreatedAt old, up_UpdatedAt := now\<rparr>))) (\<lambda>_.
       andThen (exec (db_tunnels_update (map (\<lambda>t. if t_UpstreamID t = up_ID u
            then t\<lparr>t_Status := ''pending'', t_UpdatedAt := now\<rparr> else t)))) (\<lambda>_.
       auditRow admin ''upstream-update'' None (up_Name u @ '' '' @ up_V6CIDR u) now))) s0 = (Inr x, s')"
    using assms(1) by (auto simp: Store_UpdateUpstream_def andThen_Inr)
  let ?f = "\<lambda>old. u\<lparr>up_ID := up_ID old, up_TunnelCount := 0, up_CreatedAt := up_CreatedAt old, up_UpdatedAt := now\<rparr>"
  let ?g = "\<lambda>t. if t_UpstreamID t = up_ID u then t\<lparr>t_Status := ''pending'', t_UpdatedAt := now\<rparr> else t"
  obtain a where d: "st_db s' = db_audit_update (\<lambda>_. a) (db_tunnels_update (map ?g)
      (db_upstreams_update (updateRow up_ID (up_ID u) ?f) (st_db s0)))"
    by (rule tx_Inr [OF t])
      (auto simp: andThen_Inr Inr_of_mapError auditRow_def dest!: setRow_upstream_Inr exec_Inr)
  have "steady ?g" by (simp add: steady_def)
  then have "allocations (st_db s') = allocations (st_db s)"
    using Now_Inr [OF s0] by (simp add: d allocations_map)
  moreover have "placement uni (updateRow up_ID (up_ID u) ?f (db_upstreams (st_db s))) (allocations (st_db s))"
    by (rule placement_updateUpstream [where u = u])
      (use assms in \<open>auto simp: sane_def same_link_def upstreamMode_def\<close>)
  ultimately show ?thesis using wf Now_Inr [OF s0] by (simp add: d sane_def)
qed

lemma InsertTunnel_sane:
  assumes "Store_InsertTunnel t admin s = (Inr t', s')" "sane uni (st_db s)"
    "u \<in> set (db_upstreams (st_db s))" "up_ID u = t_UpstreamID t" "holds u (t_V6CIDR t)"
    "\<forall>(i, k, c)\<in>allocations (st_db s). k = t_UpstreamID t \<longrightarrow> apart (t_V6CIDR t) c"
  shows "sane uni (st_db s')"
proof -
  have wf: "wf_db (st_db s')" using keepsD [OF keeps_tunnel_methods(1) sane_wf [OF assms(2)] assms(1)] .
  obtain now a where d: "st_db s' = (st_db s)\<lparr>db_tunnels := db_tunnels (st_db s) @ [newTunnelRow t now (t_ID t')],
       db_members := filter (\<lambda>(t, g). t \<noteq> t_ID t') (db_members (st_db s)) @
         map (\<lambda>n. (t_ID t', groupID (st_db s) n)) (t_RoutingGroups t), db_audit := a\<rparr>"
    by (rule InsertTunnel_Inr [OF assms(1)])
  have "allocations (st_db s') = insert (t_ID t', t_UpstreamID t, t_V6CIDR t) (allocations (st_db s))"
    by (simp add: d allocations_def newTunnelRow_def)
  then show ?thesis
    using wf placement_addTunnel [OF _ assms(3,4,5,6)] assms(2) by (simp add: sane_def d)
qed

subsection \<open>Facts the methods read\<close>

lemma normalize_ID: "normalizeUpstream v others = Inr v' \<Longrightarrow> up_ID v' = up_ID v"
proof -
  assume ok: "normalizeUpstream v others = Inr v'"
  show ?thesis
  proof (cases "\<exists>p. ParsePrefix (up_V6CIDR v) = Some p \<and> Is6 (pAddr p)")
    case True
    then obtain p where p: "ParsePrefix (up_V6CIDR v) = Some p" "Is6 (pAddr p)" by blast
    obtain ta where "v' = normal_form v p ta" using normalize_form [OF ok p] by blast
    then show ?thesis by simp
  next
    case False
    then have "v' = fillDefaults v"
      using ok by (auto simp: normalizeUpstream_def Let_def split: if_splits option.splits)
    then show ?thesis by simp
  qed
qed

lemma key_update [simp]:
  "same_link (u\<lparr>up_ServerPrivateKey := x\<rparr>) u" "validateUpstream (u\<lparr>up_ServerPrivateKey := x\<rparr>) = validateUpstream u"
  by (simp_all add: same_link_def upstreamMode_def validateUpstream_def limitsOK_def validateAddressing_def validateLink_def
      cong: if_cong option.case_cong)

lemma prepareUpstream_Inr:
  assumes "prepareUpstream E up a = (Inr u, a')"
  shows "up_ID u = up_ID up \<and> validateUpstream u = None \<and>
    (\<forall>v\<in>set (db_upstreams (adb a)). up_ID v \<noteq> up_ID u \<longrightarrow> compatible (e_unicode E) v u)"
proof -
  obtain others w where o: "others = viewUpstreams (adb a)" and n: "normalizeUpstream up others = Inr w"
    and v: "validateUpstream w = None" "validateUpstreamUniqueness (e_unicode E) w others = None"
    and u: "u = w \<or> (\<exists>key. u = w\<lparr>up_ServerPrivateKey := key\<rparr>)"
    using assms unfolding prepareUpstream_def
    by (auto simp: andThen_Inr draw_def elim!: onStore_Inr dest!: Upstreams_Inr split: if_splits option.splits)
  have link: "same_link u w" "up_ID u = up_ID w" "validateUpstream u = None" using u v(1) by auto
  have "compatible (e_unicode E) x u" if "x \<in> set (db_upstreams (adb a))" "up_ID x \<noteq> up_ID u" for x
  proof -
    have "compatible (e_unicode E) (viewUpstream (adb a) x) w"
      using v(2) that link(2) by (auto simp: uniqueness_None o viewUpstreams_def)
    then show ?thesis using same_link_compatible [OF same_link_refl link(1)] by simp
  qed
  then show ?thesis using normalize_ID [OF n] link by auto
qed

lemma readonly_prepare [simp]: "readonly (prepareUpstream E up)"
  unfolding prepareUpstream_def by (intro readonly_andThen readonly_if) simp_all

lemma cidrs_of_tunnels:
  assumes "queryTunnels f s = (Inr ts, s')"
  shows "map t_V6CIDR ts = map t_V6CIDR (f (st_db s)) \<and> map t_ID ts = map t_ID (f (st_db s))"
  using assms
  by (auto simp: queryTunnels_def loadRoutingMemberships_def scanTunnel_def andThen_Inr split: if_splits dest!: query_Inr)

lemma TunnelsFor_Inr:
  assumes "Store_TunnelsForUpstream k s = (Inr ts, s')"
  shows "t_V6CIDR ` set ts = {c. \<exists>i. (i, k, c) \<in> allocations (st_db s)}"
proof -
  have "t_V6CIDR ` set ts = t_V6CIDR ` set (filter (\<lambda>t. t_UpstreamID t = k) (db_tunnels (st_db s)))"
    using cidrs_of_tunnels [OF assms [unfolded Store_TunnelsForUpstream_def]] by (metis list.set_map set_sort)
  then show ?thesis by (auto simp: allocations_def image_iff)
qed

lemma holds_of_check:
  assumes "validateUpstreamAgainstTunnels u ts = None" "t \<in> set ts" "holds v (t_V6CIDR t)"
  shows "holds u (t_V6CIDR t)"
proof -
  obtain p where p: "ParsePrefix (t_V6CIDR t) = Some p" "wf6 p" "Masked p = p" using assms(3) by (auto simp: holds_def)
  obtain D where D: "delegatedPrefix u = Some D" "checkAllocations D (serverReservation u) ts = None"
    using assms(1) by (auto simp: validateUpstreamAgainstTunnels_def split: option.splits)
  then show ?thesis using p assms(2) unfolding holds_def checkAllocations_None by (metis (no_types, lifting))
qed

lemma UsedPrefixes_Inr:
  assumes "Store_UsedPrefixes k s = (Inr used, s')"
  shows "\<forall>i c. (i, k, c) \<in> allocations (st_db s) \<longrightarrow> (\<exists>p\<in>set used. ParsePrefix c = Some p)"
proof -
  obtain ts s1 where ts: "Store_TunnelsForUpstream k s = (Inr ts, s1)" "parseAll (map t_V6CIDR ts) = Inr used"
    using assms by (auto simp: Store_UsedPrefixes_def andThen_Inr)
  have "\<forall>c\<in>set cs. \<exists>p\<in>set ps. ParsePrefix c = Some p" if "parseAll cs = Inr ps" for cs ps
    using that by (induction cs arbitrary: ps) (auto split: option.splits sum.splits)
  from this [OF ts(2)] show ?thesis using TunnelsFor_Inr [OF ts(1)] by force
qed

lemma resolveUpstream_Inr:
  assumes "resolveUpstream k a = (Inr u, a')"
  shows "\<exists>row\<in>set (db_upstreams (adb a)). u = viewUpstream (adb a) row"
proof (cases "0 < k")
  case True
  then show ?thesis
    using assms by (auto simp: resolveUpstream_def Inr_of_mapError elim!: onStore_Inr dest!: Upstream_Inr)
next
  case False
  then obtain us a1 where us: "onStore Store_Upstreams a = (Inr us, a1)"
    "(case us of [] \<Rightarrow> throw (newError ''configure an upstream before creating tunnels'') | [up] \<Rightarrow> return up
      | _ \<Rightarrow> throw (newError ''select which upstream this tunnel is allocated from'')) a1 = (Inr u, a')"
    using assms by (auto simp: resolveUpstream_def andThen_Inr)
  then have "us = [u]" by (cases us; cases "tl us") auto
  then have "[u] = viewUpstreams (adb a)" using us(1) by (auto elim!: onStore_Inr dest!: Upstreams_Inr)
  then have "u \<in> set (viewUpstreams (adb a))" by (metis list.set_intros(1))
  then show ?thesis by (auto simp: viewUpstreams_def)
qed

lemma readonly_resolve [simp]: "readonly (resolveUpstream k)"
  unfolding resolveUpstream_def
  by (auto intro!: readonly_andThen readonly_mapError split: list.split)

subsection \<open>A new allocation fits\<close>

text \<open>The prefix can be recorded for the connection without disturbing the others.\<close>

definition fits :: "db \<Rightarrow> upstream \<Rightarrow> string \<Rightarrow> bool" where
  "fits d u c \<longleftrightarrow> holds u c \<and> (\<forall>(i, k, c')\<in>allocations d. k = up_ID u \<longrightarrow> apart c c')"

lemma allocateTunnel_Inr:
  assumes "allocateTunnel E u bits a = (Inr q, a')" "sane uni (adb a)" "row \<in> set (db_upstreams (adb a))"
    "u = viewUpstream (adb a) row" "validateUpstream u = None"
  shows "fits (adb a) u (prefixString q)"
proof -
  obtain pool used b n where pool: "delegatedPrefix u = Some pool"
    and used: "\<forall>i c. (i, up_ID u, c) \<in> allocations (adb a) \<longrightarrow> (\<exists>p\<in>set used. ParsePrefix c = Some p)"
    and res: "\<forall>r. serverReservation u = Some r \<longrightarrow> r \<in> set used"
    and q: "Allocate (e_rand E n) pool used b = Inr q"
  proof -
    obtain used0 a1 pool where u0: "onStore (Store_UsedPrefixes (up_ID u)) a = (Inr used0, a1)"
      and p: "delegatedPrefix u = Some pool"
      and al: "Allocate (e_rand E (app_draws a1)) pool (case serverReservation u of None \<Rightarrow> used0 | Some r \<Rightarrow> used0 @ [r])
         (if bits = 0 then up_DefaultPrefix u else bits) = Inr q"
      using assms(1) by (auto simp: allocateTunnel_def Let_def andThen_Inr draw_def split: option.splits if_splits)
    have "\<forall>i c. (i, up_ID u, c) \<in> allocations (adb a) \<longrightarrow> (\<exists>p\<in>set used0. ParsePrefix c = Some p)"
      by (rule onStore_Inr [OF u0]) (rule UsedPrefixes_Inr)
    then show thesis
      using that [OF p _ _ al] by (auto split: option.splits)
  qed
  have "q \<in> available_prefixes pool used b"
    using q unfolding Allocate_def by (rule allocated_is_free)
  moreover have m: "Masked pool = pool" "wf6 pool" using wf6_delegated [OF pool] by auto
  ultimately have q': "wf6 q" "Masked q = q" "pBits q = b" "Contains pool (pAddr q)" "\<forall>x\<in>set used. \<not> overlaps q (Masked x)"
    by (auto simp: free_prefixes_def)
  have b: "pBits pool \<le> b"
    using q m by (auto simp: Allocate_def allocateWithChooser_def Let_def split: if_splits)
  have parse: "ParsePrefix (prefixString q) = Some q"
    using prefix_text.parse_print [OF wf6_valid [OF q'(1)]] .
  have "\<not> overlaps r q" if r: "serverReservation u = Some r" for r
  proof -
    have "Masked r = r" using serverReservation_inside [OF assms(5) r] by blast
    then show ?thesis using res r q'(5) overlaps_sym by metis
  qed
  then have "holds u (prefixString q)"
    using parse q' pool b unfolding holds_def by auto
  moreover have "apart (prefixString q) c" if c: "(i, up_ID u, c) \<in> allocations (adb a)" for i c
  proof -
    obtain p where p: "p \<in> set used" "ParsePrefix c = Some p" using used c by blast
    have "\<exists>v. holds v c" using assms(2) c unfolding sane_def placement_def by fastforce
    then have "Masked p = p" using p(2) by (auto simp: holds_def)
    then show ?thesis using p parse q'(5) by (auto simp: apart_def)
  qed
  ultimately show ?thesis unfolding fits_def by blast
qed

lemma readonly_allocate [simp]: "readonly (allocateTunnel E u bits)"
  unfolding allocateTunnel_def Let_def by (intro readonly_andThen) (auto split: option.split)

lemma tunnelKeys_Inr:
  "tunnelKeys E g t a = (Inr t', a') \<Longrightarrow> t_V6CIDR t' = t_V6CIDR t \<and> t_UpstreamID t' = t_UpstreamID t"
  by (auto simp: tunnelKeys_def andThen_Inr draw_def split: if_splits)

lemma tunnelAddress_Inr:
  "tunnelAddress cfg t a = (Inr t', a') \<Longrightarrow> t_V6CIDR t' = t_V6CIDR t \<and> t_UpstreamID t' = t_UpstreamID t"
  by (auto simp: tunnelAddress_def andThen_Inr split: if_splits option.splits)

lemma readonly_tunnel [simp]: "readonly (tunnelKeys E g t)" "readonly (tunnelAddress cfg t)"
  unfolding tunnelKeys_def tunnelAddress_def by (auto intro!: readonly_andThen split: option.split)

subsection \<open>Every operation keeps the invariant\<close>

lemma leads_simple [simp]: "readonly m \<Longrightarrow> leads I I m"
  by (rule leads_readonly)

lemma leads_seq: "leads I I m \<Longrightarrow> (\<And>x. leads I I (k x)) \<Longrightarrow> leads I I (andThen m k)"
  by (rule leads_step)

lemma leads_cases:
  "(\<And>e. leads P I (f e)) \<Longrightarrow> (\<And>x. leads P I (g x)) \<Longrightarrow> leads P I (case r of Inl e \<Rightarrow> f e | Inr x \<Rightarrow> g x)"
  by (cases r) auto

lemma leads_if: "leads P I m \<Longrightarrow> leads P I m' \<Longrightarrow> leads P I (if b then m else m')"
  by simp

lemma leads_orHealth: "leads I I m \<Longrightarrow> leads I I (orHealth E m)"
  unfolding orHealth_def by (intro leads_seq leads_attempt leads_cases) simp_all

lemma readonly_modify_health [simp]: "readonly (modify (\<lambda>s. s\<lparr>app_health := f s\<rparr>))"
  by (simp add: readonly_def)

lemma readonly_noteDrift [simp]: "readonly (noteDrift E r)"
  unfolding noteDrift_def by (auto simp: readonly_def split: sum.split)

lemmas leads_rules = leads_seq leads_cases leads_if leads_orHealth leads_attempt leads_each leads_mapError

text \<open>
  A property of the database that the store methods called by a reconciliation keep is kept by the
  reconciliation as a whole, whatever the kernel does.
\<close>

locale reconcile_invariant =
  fixes I :: "db \<Rightarrow> bool"
  assumes keeps_ResetMonthlyQuotas: "dbkeeps I (Store_ResetMonthlyQuotas now)"
    and keeps_EnsureIPv4Allocations: "dbkeeps I (Store_EnsureIPv4Allocations cfg)"
    and keeps_SetStatus: "dbkeeps I (Store_SetStatus k status msg)"
    and keeps_UpdateTelemetry: "dbkeeps I (Store_UpdateTelemetry t now)"
begin

lemmas method_rules = leads_keeps [OF keeps_ResetMonthlyQuotas] leads_keeps [OF keeps_EnsureIPv4Allocations]
  leads_keeps [OF keeps_SetStatus] leads_keeps [OF keeps_UpdateTelemetry]

lemma updateAll: "leads I I (updateAll E now hit ts)"
  by (induction ts arbitrary: hit) (auto intro!: leads_rules method_rules)

lemma setStatuses: "leads I I (setStatuses ts status msg)"
  unfolding setStatuses_def by (intro leads_rules method_rules) simp_all

lemma applyTunnels: "leads I I (applyTunnels E cfg now ups ts)"
  unfolding applyTunnels_def by (intro leads_rules updateAll setStatuses) simp_all

lemma reconcile: "leads I I (reconcileLocked E)"
  unfolding reconcileLocked_def Let_def by (intro leads_rules method_rules applyTunnels) simp_all

end

interpretation sane: reconcile_invariant "sane uni" for uni
  by unfold_locales (rule sane_methods)+

interpretation skel: reconcile_invariant "same_skel sk" for sk
  by unfold_locales (rule skel_settings skel_tunnels)+

lemmas sane_reconcile = sane.reconcile

lemmas sane_rules = sane_methods [THEN leads_keeps] sane_DeleteTunnel [THEN leads_keeps] sane_DeleteUpstream

lemma sane_simple_ops:
  "leads (sane uni) (sane uni) (App_BootstrapAdmin E user password)"
  "leads (sane uni) (sane uni) (App_SaveSettings v)"
  "leads (sane uni) (sane uni) (App_ResetGeneralSettings E admin)"
  "leads (sane uni) (sane uni) (App_DeleteUpstream E k admin)"
  "leads (sane uni) (sane uni) (App_SetTunnelV4Mode E k mode admin)"
  "leads (sane uni) (sane uni) (App_SetTunnelQuota E k q admin)"
  "leads (sane uni) (sane uni) (App_SetTunnelRoutingGroups E k names admin)"
  "leads (sane uni) (sane uni) (App_DeleteTunnel E k admin)"
  "leads (sane uni) (sane uni) (App_SetEnabled E k on admin)"
  "leads (sane uni) (sane uni) (App_CreateRoutingGroup name admin)"
  "leads (sane uni) (sane uni) (App_RenameRoutingGroup E k name admin)"
  "leads (sane uni) (sane uni) (App_DeleteRoutingGroup E k admin)"
  unfolding App_BootstrapAdmin_def App_SaveSettings_def App_ResetGeneralSettings_def App_DeleteUpstream_def
    App_SetTunnelV4Mode_def App_SetTunnelQuota_def App_SetTunnelRoutingGroups_def App_DeleteTunnel_def App_SetEnabled_def
    App_CreateRoutingGroup_def App_RenameRoutingGroup_def App_DeleteRoutingGroup_def groupName_def wrapError_def Let_def
  by (intro leads_rules sane_rules sane_reconcile; simp)+

lemma sane_CreateUpstream: "leads (sane (e_unicode E)) (sane (e_unicode E)) (App_CreateUpstream E inp admin)"
proof -
  let ?z = "apply_input inp (zeroUpstream\<lparr>up_MTU := 1420, up_Keepalive := 25, up_MinPrefix := 48, up_MaxPrefix := 64,
     up_DefaultPrefix := 56, up_EndpointPort := 51820\<rparr>)"
  let ?F = "\<lambda>u d. wf_db d \<longrightarrow> (\<forall>v\<in>set (db_upstreams d). compatible (e_unicode E) v u)"
  have id: "up_ID ?z = 0" by (simp add: apply_input_def zeroUpstream_def)
  have prep: "?F u (adb a)" if "prepareUpstream E ?z a = (Inr u, a')" for a u a'
    using prepareUpstream_Inr [OF that] id by (auto simp: wf_db_def wf_table_def)
  have insert: "leads (\<lambda>d. sane (e_unicode E) d \<and> ?F u d) (sane (e_unicode E)) (onStore (Store_InsertUpstream u admin))" for u
    by (rule leads_clean [OF clean_store(1)]) (auto intro: InsertUpstream_Inr sane_wf)
  have rest: "leads (sane (e_unicode E)) (sane (e_unicode E)) (andThen (mapError f (reconcileLocked E))
      (\<lambda>_. onStore (Store_Upstream k)))" for f k
    by (intro leads_rules sane_reconcile) simp
  show ?thesis
    unfolding App_CreateUpstream_def wrapError_def
    by (rule leads_fact [where F = ?F]) (simp_all add: prep leads_step [OF insert _ rest])
qed

text \<open>The facts an update relies on when it writes the row.\<close>

definition replaceable :: "unicode \<Rightarrow> upstream \<Rightarrow> db \<Rightarrow> bool" where
  "replaceable uni u d \<longleftrightarrow> (\<forall>v\<in>set (db_upstreams d). up_ID v \<noteq> up_ID u \<longrightarrow> compatible uni v u)"

lemma checked_allocations:
  assumes "sane uni d" "t_V6CIDR ` set ts = {c. \<exists>i. (i, up_ID u, c) \<in> allocations d}"
    "validateUpstreamAgainstTunnels u ts = None"
  shows "\<forall>(i, k, c)\<in>allocations d. k = up_ID u \<longrightarrow> holds u c"
proof -
  have "holds u c" if c: "(i, up_ID u, c) \<in> allocations d" for i c
  proof -
    obtain t where "t \<in> set ts" "c = t_V6CIDR t" using c assms(2) by (auto simp: set_eq_iff image_iff)
    moreover obtain v where "holds v c" using c assms(1) unfolding sane_def placement_def by fastforce
    ultimately show ?thesis using holds_of_check assms(3) by blast
  qed
  then show ?thesis by auto
qed

lemma sane_saveUpdated:
  fixes E :: "'k env"
  defines "uni \<equiv> e_unicode E"
  shows "leads (\<lambda>d. sane uni d \<and> replaceable uni u d) (sane uni) (saveUpdated E existing admin u)"
proof -
  let ?F = "\<lambda>ts d. t_V6CIDR ` set ts = {c. \<exists>i. (i, up_ID u, c) \<in> allocations d}"
  have rest: "leads (sane uni) (sane uni) (andThen (if b then wrapError msg args (onKernel (e_RemoveUpstream E x)) else return ())
      (\<lambda>_. andThen (wrapError msg' args' (reconcileLocked E)) (\<lambda>_. onStore (Store_Upstream k))))" for b msg args x msg' args' k
    unfolding wrapError_def by (intro leads_rules sane_reconcile) simp_all
  have store: "leads (\<lambda>d. ((sane uni d \<and> replaceable uni u d) \<and> ?F ts d) \<and> validateUpstreamAgainstTunnels u ts = None)
      (sane uni) (onStore (Store_UpdateUpstream u admin) :: ('k app, unit) action)" for ts
  proof (rule leads_clean [OF clean_store(2)])
    fix s x s'
    assume P: "((sane uni (st_db s) \<and> replaceable uni u (st_db s)) \<and> ?F ts (st_db s)) \<and> validateUpstreamAgainstTunnels u ts = None"
      and run: "Store_UpdateUpstream u admin s = (Inr x, s')"
    then have "\<forall>(i, k, c)\<in>allocations (st_db s). k = up_ID u \<longrightarrow> holds u c"
      by (intro checked_allocations [of uni _ ts]) simp_all
    then show "sane uni (st_db s')"
      using UpdateUpstream_Inr [OF run] P by (simp add: replaceable_def)
  qed simp
  have "leads (\<lambda>d. (sane uni d \<and> replaceable uni u d) \<and> ?F ts d) (sane uni)
      (andThen (check (validateUpstreamAgainstTunnels u ts)) (\<lambda>_. andThen (onStore (Store_UpdateUpstream u admin)) K))"
    if "\<And>x. leads (sane uni) (sane uni) (K x)" for ts and K :: "unit \<Rightarrow> ('k app, upstream) action"
    by (rule leads_fact [where F = "\<lambda>_ _. validateUpstreamAgainstTunnels u ts = None"],
        simp, simp, force split: option.splits, rule leads_step [OF store _ that])
  note mid = this
  have read: "?F ts (adb a)" if "onStore (Store_TunnelsForUpstream (up_ID u)) a = (Inr ts, a')" for ts a and a' :: "'k app"
    using that by (rule onStore_Inr) (rule TunnelsFor_Inr)
  show ?thesis
    unfolding saveUpdated_def by (rule leads_fact [where F = ?F], simp, simp, erule read, rule mid, rule rest)
qed

lemma sane_UpdateUpstream: "leads (sane (e_unicode E)) (sane (e_unicode E)) (App_UpdateUpstream E inp admin)"
  unfolding App_UpdateUpstream_def
proof (rule leads_read)
  fix existing
  show "leads (sane (e_unicode E)) (sane (e_unicode E))
      (andThen (prepareUpstream E (apply_input inp existing)) (saveUpdated E existing admin))"
    by (rule leads_fact [where F = "replaceable (e_unicode E)"])
      (auto simp: replaceable_def intro!: sane_saveUpdated [unfolded replaceable_def] dest!: prepareUpstream_Inr)
qed auto

lemma sane_saveTunnel:
  fixes E :: "'k env"
  shows "leads (\<lambda>d. sane uni d \<and> (\<exists>u\<in>set (db_upstreams d). up_ID u = t_UpstreamID t \<and> fits d u (t_V6CIDR t))) (sane uni)
    (saveTunnel E cfg g admin t)"
proof -
  let ?P = "\<lambda>d. sane uni d \<and> (\<exists>u\<in>set (db_upstreams d). up_ID u = t_UpstreamID t \<and> fits d u (t_V6CIDR t))"
  let ?F = "\<lambda>t' (d :: db). t_V6CIDR t' = t_V6CIDR t \<and> t_UpstreamID t' = t_UpstreamID t"
  have rest: "leads (sane uni) (sane uni) (andThen (wrapError msg args (reconcileLocked E)) (\<lambda>_. onStore (Store_Tunnel k)))" for msg args k
    unfolding wrapError_def by (intro leads_rules sane_reconcile) simp_all
  have store: "leads (\<lambda>d. (?P d \<and> ?F t1 d) \<and> t_V6CIDR t2 = t_V6CIDR t1 \<and> t_UpstreamID t2 = t_UpstreamID t1) (sane uni)
      (onStore (Store_InsertTunnel t2 admin) :: ('k app, tunnel) action)" for t1 t2
  proof (rule leads_clean [OF clean_store(4)])
    fix s x s'
    assume P: "(?P (st_db s) \<and> ?F t1 (st_db s)) \<and> t_V6CIDR t2 = t_V6CIDR t1 \<and> t_UpstreamID t2 = t_UpstreamID t1"
      and run: "Store_InsertTunnel t2 admin s = (Inr x, s')"
    then obtain u where u: "u \<in> set (db_upstreams (st_db s))" "up_ID u = t_UpstreamID t2" "fits (st_db s) u (t_V6CIDR t2)"
      by auto
    show "sane uni (st_db s')"
      by (rule InsertTunnel_sane [OF run _ u(1,2)]) (use P u in \<open>simp_all add: fits_def\<close>)
  qed simp
  have "leads (\<lambda>d. ?P d \<and> ?F t1 d) (sane uni) (andThen (tunnelAddress cfg t1) (\<lambda>t2.
      andThen (onStore (Store_InsertTunnel t2 admin)) (\<lambda>t. andThen (wrapError msg args (reconcileLocked E))
      (\<lambda>_. onStore (Store_Tunnel (t_ID t))))))" for t1 msg args
    by (rule leads_fact [where F = "\<lambda>t2 d. t_V6CIDR t2 = t_V6CIDR t1 \<and> t_UpstreamID t2 = t_UpstreamID t1"],
        simp, simp, erule tunnelAddress_Inr, rule leads_step [OF store _ rest])
  note mid = this
  show ?thesis
    unfolding saveTunnel_def by (rule leads_fact [where F = ?F], simp, simp, erule tunnelKeys_Inr, rule mid)
qed

lemma sane_CreateTunnel: "leads (sane uni) (sane uni) (App_CreateTunnel E inp admin)"
proof -
  let ?F1 = "\<lambda>u d. \<exists>row\<in>set (db_upstreams d). u = viewUpstream d row"
  let ?F2 = "\<lambda>u q d. sane uni d \<longrightarrow> ?F1 u d \<longrightarrow> validateUpstream u = None \<longrightarrow> fits d u (prefixString q)"
  have alloc: "?F2 u q (adb a)" if "allocateTunnel E u bits a = (Inr q, a')" for u q a a' bits
    using allocateTunnel_Inr [OF that] by blast
  have save: "leads (\<lambda>d. ((sane uni d \<and> ?F1 u d) \<and> validateUpstream u = None) \<and> ?F2 u q d) (sane uni) (saveTunnel E cfg g admin t)"
    if t: "t_UpstreamID t = up_ID u" "t_V6CIDR t = prefixString q" for u q cfg g t
  proof (rule leads_pre [OF sane_saveTunnel])
    fix d
    assume P: "((sane uni d \<and> ?F1 u d) \<and> validateUpstream u = None) \<and> ?F2 u q d"
    then obtain row where row: "row \<in> set (db_upstreams d)" "u = viewUpstream d row" by blast
    then have "fits d row (prefixString q)" using P same_link_holds [OF same_link_view(1)] by (auto simp: fits_def)
    then show "sane uni d \<and> (\<exists>u\<in>set (db_upstreams d). up_ID u = t_UpstreamID t \<and> fits d u (t_V6CIDR t))"
      using P row t by auto
  qed
  have body: "leads (\<lambda>d. (sane uni d \<and> ?F1 u d) \<and> validateUpstream u = None) (sane uni)
      (andThen (allocateTunnel E u bits) (\<lambda>q. saveTunnel E cfg g admin (T q)))"
    if "\<And>q. t_UpstreamID (T q) = up_ID u" "\<And>q. t_V6CIDR (T q) = prefixString q" for u bits cfg g T
    by (rule leads_fact [where F = "?F2 u"], simp, simp, erule alloc, rule save) (simp_all add: that)
  show ?thesis
    unfolding App_CreateTunnel_def Let_def
    apply (rule leads_read, simp, assumption)
    apply (rule leads_fact [where F = ?F1], simp, assumption, erule resolveUpstream_Inr)
    subgoal for cfg u
      apply (rule leads_fact [where F = "\<lambda>_ _. validateUpstream u = None"], simp, simp, force split: option.splits)
      apply (rule leads_read, simp, simp, rule leads_read, simp, simp, rule leads_read, simp, simp)
      apply (rule leads_read, simp, simp, rule leads_read, simp, simp, rule leads_read, simp, simp)
      apply (rule body)
       apply simp_all
      done
    done
qed

subsection \<open>Reachable states\<close>

datatype app_op =
    AppBootstrapAdmin string string
  | AppSaveSettings settings
  | AppResetGeneralSettings string
  | AppCreateUpstream UpstreamInput string
  | AppUpdateUpstream UpstreamInput string
  | AppDeleteUpstream int string
  | AppCreateTunnel CreateTunnelInput string
  | AppSetTunnelV4Mode int string string
  | AppSetTunnelQuota int int string
  | AppSetTunnelRoutingGroups int "string list" string
  | AppDeleteTunnel int string
  | AppSetEnabled int bool string
  | AppCreateRoutingGroup string string
  | AppRenameRoutingGroup int string string
  | AppDeleteRoutingGroup int string
  | AppReconcile
  | AppAddAudit string string string
  | AppSaveWarpAccount warp_account
  | AppSaveWarpTest string time

text \<open>The last three are the store calls the WARP, upgrade and web components make themselves.\<close>

fun run_app :: "'k env \<Rightarrow> app_op \<Rightarrow> ('k app, unit) action" where
  "run_app E (AppBootstrapAdmin user password) = App_BootstrapAdmin E user password"
| "run_app E (AppSaveSettings v) = App_SaveSettings v"
| "run_app E (AppResetGeneralSettings admin) = App_ResetGeneralSettings E admin"
| "run_app E (AppCreateUpstream inp admin) = ignore (App_CreateUpstream E inp admin)"
| "run_app E (AppUpdateUpstream inp admin) = ignore (App_UpdateUpstream E inp admin)"
| "run_app E (AppDeleteUpstream k admin) = App_DeleteUpstream E k admin"
| "run_app E (AppCreateTunnel inp admin) = ignore (App_CreateTunnel E inp admin)"
| "run_app E (AppSetTunnelV4Mode k mode admin) = App_SetTunnelV4Mode E k mode admin"
| "run_app E (AppSetTunnelQuota k q admin) = App_SetTunnelQuota E k q admin"
| "run_app E (AppSetTunnelRoutingGroups k names admin) = App_SetTunnelRoutingGroups E k names admin"
| "run_app E (AppDeleteTunnel k admin) = App_DeleteTunnel E k admin"
| "run_app E (AppSetEnabled k on admin) = App_SetEnabled E k on admin"
| "run_app E (AppCreateRoutingGroup name admin) = App_CreateRoutingGroup name admin"
| "run_app E (AppRenameRoutingGroup k name admin) = App_RenameRoutingGroup E k name admin"
| "run_app E (AppDeleteRoutingGroup k admin) = App_DeleteRoutingGroup E k admin"
| "run_app E AppReconcile = reconcileLocked E"
| "run_app E (AppAddAudit admin action detail) = onStore (Store_AddAudit admin action detail)"
| "run_app E (AppSaveWarpAccount account) = onStore (Store_SaveWarpAccount account)"
| "run_app E (AppSaveWarpTest trace tested) = onStore (Store_SaveWarpTest trace tested)"

text \<open>
  A step runs one operation to its end, successful or not. Between two steps the outside world may
  change: the kernel, the failures of the driver to come, the clock.
\<close>

inductive reachable_app :: "'k env \<Rightarrow> 'k app \<Rightarrow> bool" for E :: "'k env" where
  app_fresh: "adb a = freshDB \<Longrightarrow> reachable_app E a"
| app_step: "reachable_app E a \<Longrightarrow> run_app E p a = (r, a') \<Longrightarrow> reachable_app E a'"
| app_world: "reachable_app E a \<Longrightarrow> adb a' = adb a \<Longrightarrow> reachable_app E a'"

lemma sane_run_app: "leads (sane (e_unicode E)) (sane (e_unicode E)) (run_app E p)"
  by (cases p) (auto simp: ignore_def intro!: leads_seq sane_simple_ops sane_CreateUpstream sane_UpdateUpstream
      sane_CreateTunnel sane_reconcile sane_rules)

lemma sane_freshDB: "sane uni freshDB"
  using wf_freshDB by (simp add: sane_def placement_def coexist_def allocations_def freshDB_def)

lemma reachable_sane: "reachable_app E a \<Longrightarrow> sane (e_unicode E) (adb a)"
proof (induction rule: reachable_app.induct)
  case (app_fresh a)
  then show ?case by (simp add: sane_freshDB)
next
  case (app_step a p r a')
  then show ?case using sane_run_app [of E p] by (metis leads_def snd_conv)
qed simp

end
