(* ===== verification/Warp.thy ===== *)
theory Warp
  imports Network Service_Reach
begin

section \<open>Cloudflare WARP accounts (internal/broker/warp.go)\<close>

text \<open>
  Registering an account with the provider and testing the path through it. The HTTP client, the JSON
  decoder and the parsing and formatting of times are the record \<open>warp_api\<close>; the structs of the request
  and the response are flat records. \<open>firstTraceValue\<close>, which the kernel driver uses too, is in
  theory \<open>Network\<close>.
\<close>

record warpRegisterRequest =
  wq_Key :: string
  wq_InstallID :: string
  wq_WarpEnabled :: bool
  wq_TOS :: string
  wq_Type :: string
  wq_Locale :: string

record warp_peer =
  wp_PublicKey :: string
  wp_Host :: string                      \<comment> \<open>endpoint.host\<close>

record warpRegisterResponse =
  wr_ID :: string
  wr_Created :: string
  wr_AccountID :: string
  wr_AccountType :: string
  wr_WarpPlus :: bool
  wr_V4 :: string                        \<comment> \<open>config.interface.addresses.v4\<close>
  wr_Peers :: "warp_peer list"

record 'k warp_api =
  wa_NewRequest :: "unit result"         \<comment> \<open>fails when the URL is not one\<close>
  wa_Do :: "warpRegisterRequest \<Rightarrow> ('k, int \<times> string result) action"   \<comment> \<open>status, and the body as far as it can be read\<close>
  wa_Unmarshal :: "string \<Rightarrow> warpRegisterResponse result"
  wa_ParseTime :: "string \<Rightarrow> time"      \<comment> \<open>the zero time when it fails\<close>
  wa_FormatTime :: "time \<Rightarrow> string"

definition registerRequest :: "'k env \<Rightarrow> 'k warp_api \<Rightarrow> string \<Rightarrow> time \<Rightarrow> warpRegisterRequest" where
  "registerRequest E W privateKey now = \<lparr>wq_Key = e_publicKey E privateKey, wq_InstallID = [], wq_WarpEnabled = True,
     wq_TOS = wa_FormatTime W now, wq_Type = ''Linux'', wq_Locale = ''en_US''\<rparr>"

definition checkStatus :: "int \<Rightarrow> string \<Rightarrow> unit result" where
  "checkStatus status body =
     (if status < 200 \<or> 300 \<le> status
      then Inl (Errorf ''WARP registration returned HTTP %d: %s'' [Itoa status, TrimSpace body]) else Inr ())"

text \<open>The account's address: the address of a prefix, or an address.\<close>

definition registeredAddress :: "string \<Rightarrow> addr result" where
  "registeredAddress given =
     (let ipv4 = TrimSpace given;
          ipv4 = (case ParsePrefix ipv4 of None \<Rightarrow> ipv4 | Some prefix \<Rightarrow> addrString (pAddr prefix))
      in case ParseAddr ipv4 of
           None \<Rightarrow> Inl (newError ''WARP registration response has no valid IPv4 address'')
         | Some address \<Rightarrow> if Is4 address then Inr address
             else Inl (newError ''WARP registration response has no valid IPv4 address''))"

definition accountType :: "warpRegisterResponse \<Rightarrow> string" where
  "accountType registered =
     TrimSpace (if wr_WarpPlus registered then ''WARP+ '' @ wr_AccountType registered else wr_AccountType registered)"

text \<open>What is read from the response; the creation time is the current time when it has none.\<close>

definition registeredAccount ::
  "'k env \<Rightarrow> 'k warp_api \<Rightarrow> string \<Rightarrow> warpRegisterResponse \<Rightarrow> ('k app, warp_account) action" where
  "registeredAccount E W privateKey registered =
     (case wr_Peers registered of
        [] \<Rightarrow> throw (newError ''WARP registration response has no peer'')
      | peer # _ \<Rightarrow>
          andThen (require (e_validKey E (wp_PublicKey peer)) (Wrapf ''WARP peer key: %w'' [] (LibErr ''wgtypes.ParseKey''))) (\<lambda>_.
          andThen (liftResult (registeredAddress (wr_V4 registered))) (\<lambda>address.
          andThen (require (TrimSpace (wp_Host peer) \<noteq> []) (newError ''WARP registration response has no endpoint'')) (\<lambda>_.
          andThen (if wa_ParseTime W (wr_Created registered) = 0 then onStore Now
                   else return (wa_ParseTime W (wr_Created registered))) (\<lambda>created.
          return \<lparr>w_PrivateKey = privateKey, w_PeerPublicKey = wp_PublicKey peer, w_IPv4Address = addrString address,
             w_Endpoint = wp_Host peer, w_DeviceID = wr_ID registered, w_AccountID = wr_AccountID registered,
             w_AccountType = accountType registered, w_CreatedAt = created, w_LastTrace = [], w_LastTestAt = 0\<rparr>)))))"

definition warpConfigured :: "settings \<Rightarrow> ('k app, bool) action" where
  "warpConfigured cfg =
     (if V4Warp cfg then return True
      else
        andThen (onStore Store_Upstreams) (\<lambda>upstreams.
        if list_ex (\<lambda>upstream. upstreamV4Mode cfg upstream = V4ModeWarp) upstreams then return True
        else
          andThen (onStore Store_Tunnels) (\<lambda>tunnels.
          return (list_ex (\<lambda>tunnel. resolvedV4Mode cfg (upstreamsByID upstreams) tunnel = V4ModeWarp) tunnels))))"

text \<open>The exchange with the provider, up to the account that will be stored.\<close>

definition registerExchange :: "'k env \<Rightarrow> 'k warp_api \<Rightarrow> ('k app, warp_account) action" where
  "registerExchange E W =
     andThen (draw (e_key E)) (\<lambda>privateKey.
     andThen (onStore Now) (\<lambda>now.
     andThen (liftResult (wa_NewRequest W)) (\<lambda>_.
     andThen (wrapError ''WARP registration: %w'' [] (onKernel (wa_Do W (registerRequest E W privateKey now)))) (\<lambda>(status, read).
     andThen (liftResult read) (\<lambda>body.
     andThen (liftResult (checkStatus status body)) (\<lambda>_.
     andThen (wrapError ''WARP registration response: %w'' [] (liftResult (wa_Unmarshal W body))) (\<lambda>registered.
     registeredAccount E W privateKey registered)))))))"

definition App_RegisterWarp :: "'k env \<Rightarrow> 'k warp_api \<Rightarrow> string \<Rightarrow> ('k app, warp_account) action" where
  "App_RegisterWarp E W admin =
     andThen (registerExchange E W) (\<lambda>account.
     andThen (onStore (Store_SaveWarpAccount account)) (\<lambda>_.
     andThen (attempt (onStore (Store_AddAudit admin ''warp-register'' (''device '' @ w_DeviceID account)))) (\<lambda>_.
     andThen (onStore Store_Settings) (\<lambda>cfg.
     andThen (warpConfigured cfg) (\<lambda>configured.
     andThen (if configured then wrapError ''WARP account saved but apply failed: %w'' [] (reconcileLocked E) else return ()) (\<lambda>_.
     return account))))))"

definition App_TestWarp :: "'k env \<Rightarrow> string \<Rightarrow> ('k app, string) action" where
  "App_TestWarp E admin =
     andThen (onStore Store_Settings) (\<lambda>cfg.
     andThen (warpConfigured cfg) (\<lambda>configured.
     andThen (require configured (newError ''Cloudflare WARP IPv4 egress is not enabled'')) (\<lambda>_.
     andThen (onStore Store_WarpAccount) (\<lambda>account.
     andThen (require (Exists account) (newError ''no Cloudflare WARP account exists'')) (\<lambda>_.
     andThen (onKernel (e_TestWarp E cfg account)) (\<lambda>trace.
     andThen (onStore Now) (\<lambda>now.
     andThen (onStore (Store_SaveWarpTest trace now)) (\<lambda>_.
     andThen (attempt (onStore (Store_AddAudit admin ''warp-test'' (firstTraceValue trace ''ip'')))) (\<lambda>_.
     return trace)))))))))"

end
