(* ===== verification/Upgrade.thy ===== *)
theory Upgrade
  imports Service_Reach
begin

section \<open>Upgrades (internal/broker/upgrade.go)\<close>

text \<open>
  Reporting the state of the checkout the daemon was built from, and asking systemd to upgrade it.
  The file system, git and systemctl are the record \<open>upgrade_os\<close>: reading a file and running git look at
  the system, starting a unit changes it. \<open>url.Parse\<close> is the field \<open>uo_Parse\<close>: whether the text is a
  URL with user information, and the URL with the user replaced.
\<close>

record UpgradeStatus =
  us_Available :: bool
  us_Repository :: string
  us_Remote :: string
  us_Branch :: string
  us_Revision :: string
  us_State :: string
  us_Detail :: string

record SystemUpgrader =
  su_repository :: string
  su_service :: string
  su_statusPath :: string

record 'k upgrade_os =
  uo_Getenv :: "string \<Rightarrow> string"
  uo_Getwd :: "string result"
  uo_ReadFile :: "string \<Rightarrow> 'k \<Rightarrow> string result"
  uo_git :: "string list \<Rightarrow> 'k \<Rightarrow> string \<times> error option"    \<comment> \<open>combined output and error\<close>
  uo_systemctl :: "string list \<Rightarrow> ('k, string \<times> error option) action"
  uo_Parse :: "string \<Rightarrow> (string \<Rightarrow> string) option"   \<comment> \<open>of a URL with a user: its text for another user\<close>
  uo_text :: "error \<Rightarrow> string"

definition orDefault :: "string \<Rightarrow> string \<Rightarrow> string" where
  "orDefault fallback value = (if TrimSpace value = [] then fallback else TrimSpace value)"

definition NewSystemUpgrader :: "'k upgrade_os \<Rightarrow> SystemUpgrader" where
  "NewSystemUpgrader U = \<lparr>
     su_repository = orDefault (case uo_Getwd U of Inr cwd \<Rightarrow> cwd | Inl _ \<Rightarrow> []) (uo_Getenv U ''OTB_UPGRADE_REPO''),
     su_service = orDefault ''open-tunnelbroker-upgrade.service'' (uo_Getenv U ''OTB_UPGRADE_SERVICE''),
     su_statusPath = orDefault ''/var/lib/open-tunnelbroker/upgrade-status'' (uo_Getenv U ''OTB_UPGRADE_STATUS'')\<rparr>"

definition gitOutput :: "'k upgrade_os \<Rightarrow> string \<Rightarrow> string list \<Rightarrow> 'k \<Rightarrow> string result" where
  "gitOutput U repository args k =
     (case uo_git U ([''-C'', repository] @ args) k of (output, err) \<Rightarrow>
        case err of
          None \<Rightarrow> Inr (TrimSpace output)
        | Some e \<Rightarrow> Inl (newError (if TrimSpace output = [] then uo_text U e else TrimSpace output)))"

definition redactRemote :: "'k upgrade_os \<Rightarrow> string \<Rightarrow> string" where
  "redactRemote U remote = (case uo_Parse U remote of None \<Rightarrow> remote | Some withUser \<Rightarrow> withUser ''redacted'')"

text \<open>\<open>strings.SplitN(s, "\n", 2)\<close>: the first line, and the rest when there is one.\<close>

fun splitLine :: "string \<Rightarrow> string \<times> string option" where
  "splitLine [] = ([], None)"
| "splitLine (c # cs) = (if c = CHR 0x0A then ([], Some cs) else (case splitLine cs of (l, r) \<Rightarrow> (c # l, r)))"

definition recordedStatus :: "'k upgrade_os \<Rightarrow> SystemUpgrader \<Rightarrow> 'k \<Rightarrow> UpgradeStatus" where
  "recordedStatus U u k =
     (let status = \<lparr>us_Available = False, us_Repository = su_repository u, us_Remote = [], us_Branch = [], us_Revision = [],
            us_State = ''never run'', us_Detail = []\<rparr>
      in case uo_ReadFile U (su_statusPath u) k of
           Inl _ \<Rightarrow> status
         | Inr output \<Rightarrow> (case splitLine (TrimSpace output) of (first, rest) \<Rightarrow>
             let status = (if first \<noteq> [] then status\<lparr>us_State := first\<rparr> else status)
             in (case rest of None \<Rightarrow> status | Some detail \<Rightarrow> status\<lparr>us_Detail := detail\<rparr>)))"

definition orEmpty :: "string result \<Rightarrow> string" where
  "orEmpty r = (case r of Inl _ \<Rightarrow> [] | Inr s \<Rightarrow> s)"

definition Upgrader_Status :: "'k upgrade_os \<Rightarrow> SystemUpgrader \<Rightarrow> 'k \<Rightarrow> UpgradeStatus" where
  "Upgrader_Status U u k =
     (let status = recordedStatus U u k in
      if su_repository u = [] \<or> \<not> HasPrefix (su_repository u) ''/''
      then status\<lparr>us_Detail := ''configure OTB_UPGRADE_REPO with an absolute Git checkout path''\<rparr>
      else case gitOutput U (su_repository u) [''remote'', ''get-url'', ''origin''] k of
             Inl e \<Rightarrow> status\<lparr>us_Detail := ''upgrade repository is unavailable: '' @ uo_text U e\<rparr>
           | Inr remote \<Rightarrow>
               let branch = orEmpty (gitOutput U (su_repository u) [''branch'', ''--show-current''] k);
                   revision = orEmpty (gitOutput U (su_repository u) [''rev-parse'', ''--short=12'', ''HEAD''] k)
               in status\<lparr>us_Remote := redactRemote U remote, us_Branch := branch, us_Revision := revision,
                    us_Available := branch \<noteq> [] \<and> revision \<noteq> []\<rparr>)"

definition Upgrader_Start :: "'k upgrade_os \<Rightarrow> SystemUpgrader \<Rightarrow> ('k, unit) action" where
  "Upgrader_Start U u =
     andThen (reads (Upgrader_Status U u)) (\<lambda>status.
     andThen (require (us_Available status) (newError ''upgrade repository is not configured or is unavailable'')) (\<lambda>_.
     andThen (uo_systemctl U [''start'', ''--no-block'', su_service u]) (\<lambda>(output, err).
     case err of
       None \<Rightarrow> return ()
     | Some e \<Rightarrow> throw (newError (if TrimSpace output = [] then uo_text U e else TrimSpace output)))))"

text \<open>The application may have no upgrader.\<close>

definition App_StartUpgrade :: "'k upgrade_os \<Rightarrow> SystemUpgrader option \<Rightarrow> string \<Rightarrow> ('k app, unit) action" where
  "App_StartUpgrade U upgrader admin =
     (case upgrader of
        None \<Rightarrow> throw (newError ''upgrade service is unavailable'')
      | Some u \<Rightarrow>
          andThen (onKernel (Upgrader_Start U u)) (\<lambda>_.
          andThen (attempt (onStore (Store_AddAudit admin ''upgrade'' ''system upgrade requested''))) (\<lambda>_.
          return ())))"

end
