(* ===== verification/Go_Http.thy ===== *)
theory Go_Http
  imports Netip_Text
begin

section \<open>The parts of Go's library the web server uses\<close>

text \<open>
  \<open>strconv.ParseInt\<close> with its saturated result on overflow, \<open>url.QueryEscape\<close>, \<open>strings.Trim\<close>,
  \<open>net.SplitHostPort\<close> and \<open>net.IP.IsLoopback\<close>, the clean form of a path, and HTTP requests: the form holds the parsed body
  and query in order, the query the URL's alone; an absent header, form value or query value is
  the empty string.
\<close>

subsection \<open>Numbers\<close>

datatype scanned = Value nat | Syntax | Range

fun scanUint :: "nat \<Rightarrow> string \<Rightarrow> scanned" where
  "scanUint n [] = Value n"
| "scanUint n (c # cs) =
     (if \<not> is_digit c then Syntax
      else if 1844674407370955162 \<le> n then Range
      else let n1 = n * 10 + (byte c - 0x30) in if 18446744073709551615 < n1 then Range else scanUint n1 cs)"

text \<open>The value, and whether the error is nil.\<close>

definition ParseInt :: "string \<Rightarrow> int \<times> bool" where
  "ParseInt s =
     (let neg = (s \<noteq> [] \<and> hd s = CHR ''-'');
          rest = (if s \<noteq> [] \<and> (hd s = CHR ''-'' \<or> hd s = CHR ''+'') then tl s else s)
      in if rest = [] then (0, False)
         else case scanUint 0 rest of
           Syntax \<Rightarrow> (0, False)
         | Range \<Rightarrow> (if neg then - (2 ^ 63) else 2 ^ 63 - 1, False)
         | Value n \<Rightarrow>
             if \<not> neg \<and> 2 ^ 63 \<le> n then (2 ^ 63 - 1, False)
             else if neg \<and> 2 ^ 63 < n then (- (2 ^ 63), False)
             else (if neg then - int n else int n, True))"

subsection \<open>Text\<close>

definition Trim :: "char \<Rightarrow> string \<Rightarrow> string" where
  "Trim c s = rev (dropWhile (\<lambda>x. x = c) (rev (dropWhile (\<lambda>x. x = c) s)))"

definition TrimPrefix :: "string \<Rightarrow> string \<Rightarrow> string" where
  "TrimPrefix s p = (case CutPrefix s p of None \<Rightarrow> s | Some rest \<Rightarrow> rest)"

definition upperHex :: "nat \<Rightarrow> char" where
  "upperHex d = (if d < 10 then char_of (0x30 + d) else char_of (0x37 + d))"

definition unreserved :: "char \<Rightarrow> bool" where
  "unreserved c \<longleftrightarrow> is_digit c \<or> in_range 0x41 0x5A (byte c) \<or> in_range 0x61 0x7A (byte c) \<or> c \<in> {CHR ''-'', CHR ''_'', CHR ''.'', CHR ''~''}"

definition QueryEscape :: "string \<Rightarrow> string" where
  "QueryEscape s = concat (map (\<lambda>c.
     if unreserved c then [c] else if c = CHR '' '' then ''+''
     else [CHR ''%'', upperHex (byte c div 16), upperHex (byte c mod 16)]) s)"

subsection \<open>Hosts\<close>

definition firstIndex :: "char \<Rightarrow> string \<Rightarrow> nat option" where
  "firstIndex c s = find (\<lambda>i. s ! i = c) [0..<length s]"

definition lastIndex :: "char \<Rightarrow> string \<Rightarrow> nat option" where
  "lastIndex c s = find (\<lambda>i. s ! i = c) (rev [0..<length s])"

text \<open>The host, when the text is a host with a port.\<close>

definition SplitHostPort :: "string \<Rightarrow> string option" where
  "SplitHostPort hostport =
     (case lastIndex (CHR '':'') hostport of
        None \<Rightarrow> None
      | Some i \<Rightarrow>
          if hd hostport = CHR ''[''
          then (case firstIndex (CHR '']'') hostport of
                  None \<Rightarrow> None
                | Some e \<Rightarrow>
                    if e + 1 \<noteq> i \<or> CHR ''['' \<in> set (drop 1 hostport) \<or> CHR '']'' \<in> set (drop (e + 1) hostport) then None
                    else Some (drop 1 (take e hostport)))
          else if CHR '':'' \<in> set (take i hostport) \<or> CHR ''['' \<in> set hostport \<or> CHR '']'' \<in> set hostport then None
          else Some (take i hostport))"

definition IsLoopback :: "addr \<Rightarrow> bool" where
  "IsLoopback a = (case Unmap a of
       Addr4 w \<Rightarrow> drop_bit 24 w = 127
     | Addr6 w z \<Rightarrow> w = 1
     | NoAddr \<Rightarrow> False)"

text \<open>\<open>net.ParseIP\<close> accepts no zone.\<close>

definition parsesAsLoopback :: "string \<Rightarrow> bool" where
  "parsesAsLoopback host = (case ParseAddr host of
       None \<Rightarrow> False
     | Some a \<Rightarrow> \<not> hasZone a \<and> IsLoopback a)"

subsection \<open>Clean paths\<close>

text \<open>\<open>path.Clean\<close> of a rooted path, on its segments: empty and dot segments go, a double dot takes the segment before it.\<close>

fun cleanSegments :: "string list \<Rightarrow> string list \<Rightarrow> string list" where
  "cleanSegments out [] = rev out"
| "cleanSegments out (s # ss) =
     (if s = [] \<or> s = ''.'' then cleanSegments out ss
      else if s = ''..'' then cleanSegments (drop 1 out) ss
      else cleanSegments (s # out) ss)"

text \<open>What the mux compares a path with: rooted and clean, a trailing slash kept.\<close>

definition cleanPath :: "string \<Rightarrow> string" where
  "cleanPath p =
     (let q = (if p = [] \<or> hd p \<noteq> CHR ''/'' then CHR ''/'' # p else p);
          np = CHR ''/'' # Join (cleanSegments [] (Split (CHR ''/'') q)) ''/''
      in if last q = CHR ''/'' \<and> np \<noteq> ''/'' then np @ ''/'' else np)"

lemma cleanPath_small:
  "cleanPath [] = ''/''" "cleanPath ''/'' = ''/''" "cleanPath ''/a//b/'' = ''/a/b/''" "cleanPath ''/a/./b'' = ''/a/b''"
  "cleanPath ''/../a/../b'' = ''/b''" "cleanPath ''//login'' = ''/login''" "cleanPath ''/a/..'' = ''/''"
  by code_simp+

subsection \<open>Requests\<close>

record request =
  rq_Method :: string
  rq_Path :: string
  rq_RawQuery :: string
  rq_Query :: "string \<Rightarrow> string"
  rq_Host :: string
  rq_TLS :: bool
  rq_Header :: "string \<Rightarrow> string"
  rq_Form :: "(string \<times> string) list"
  rq_Session :: "string option"          \<comment> \<open>the value of the cookie otb_session\<close>

definition FormValue :: "request \<Rightarrow> string \<Rightarrow> string" where
  "FormValue r key = (case map_of (rq_Form r) key of None \<Rightarrow> [] | Some v \<Rightarrow> v)"

lemma ParseInt_Itoa_small: "ParseInt ''7'' = (7, True)" "ParseInt ''-7'' = (-7, True)" "ParseInt [] = (0, False)"
  "ParseInt ''99999999999999999999'' = (9223372036854775807, False)" "ParseInt ''12x'' = (0, False)"
  by code_simp+

end
