(* ===== verification/Web.thy ===== *)
theory Web
  imports Warp Upgrade Go_Http
begin

section \<open>The web server (internal/broker/web.go)\<close>

text \<open>
  One definition per handler, from a request to an action of the application that ends with a reply.
  The templates are not modelled: a page is its name and the view the handler hands to the template.
  The parts of the program a handler calls are the record \<open>site\<close>, with the application's environment,
  the WARP and upgrade interfaces, the session tokens (by use of randomness) and the QR encoder.
  A value read with its error ignored is the zero value when the read fails. The server's mutex is
  held by the operations, not by the handlers; the model runs a handler without interruption.
\<close>

subsection \<open>Views and replies\<close>

record upstreamView =
  uv_Upstream :: upstream
  uv_Allocated :: "64 word"
  uv_Largest :: int
  uv_EffectiveV4Mode :: string

record tunnelDraft =
  td_Label :: string
  td_PublicKey :: string
  td_DNS :: string
  td_V4Mode :: string
  td_Groups :: "string list"
  td_Prefix :: int
  td_QuotaGiB :: int
  td_Generate :: bool

record view =
  v_Title :: string
  v_User :: string
  v_CSRF :: string
  v_Error :: string
  v_Notice :: string
  v_Config :: string
  v_EffectiveV4Mode :: string
  v_Settings :: settings
  v_Warp :: warp_account
  v_Tunnels :: "tunnel list"
  v_Tunnel :: tunnel
  v_Upstream :: upstream
  v_Upstreams :: "upstreamView list"
  v_UpstreamNames :: "int \<rightharpoonup> string"
  v_Health :: health
  v_Upgrade :: UpgradeStatus
  v_Prefixes :: "int list"
  v_RoutingGroups :: "routing_group list"
  v_Draft :: tunnelDraft
  v_Editing :: bool

definition zeroSettings :: settings where
  "zeroSettings = \<lparr>V4NAT = False, V4Warp = False, V4Pool = [], DefaultDNS = [], InterTunnelPolicy = []\<rparr>"

definition zeroDraft :: tunnelDraft where
  "zeroDraft = \<lparr>td_Label = [], td_PublicKey = [], td_DNS = [], td_V4Mode = [], td_Groups = [], td_Prefix = 0,
     td_QuotaGiB = 0, td_Generate = False\<rparr>"

definition zeroView :: view where
  "zeroView = \<lparr>v_Title = [], v_User = [], v_CSRF = [], v_Error = [], v_Notice = [], v_Config = [], v_EffectiveV4Mode = [],
     v_Settings = zeroSettings, v_Warp = zeroWarpAccount, v_Tunnels = [], v_Tunnel = zeroTunnel, v_Upstream = zeroUpstream,
     v_Upstreams = [], v_UpstreamNames = Map.empty, v_Health = \<lparr>h_Drift = [], h_LastReconcile = 0, h_Error = []\<rparr>,
     v_Upgrade = \<lparr>us_Available = False, us_Repository = [], us_Remote = [], us_Branch = [], us_Revision = [],
       us_State = [], us_Detail = []\<rparr>,
     v_Prefixes = [], v_RoutingGroups = [], v_Draft = zeroDraft, v_Editing = False\<rparr>"

record cookie =
  ck_Value :: string
  ck_HttpOnly :: bool
  ck_Strict :: bool                      \<comment> \<open>SameSite=Strict\<close>
  ck_Secure :: bool
  ck_MaxAge :: int

datatype reply =
    Redirect int string "cookie option"  \<comment> \<open>status, location, the cookie otb_session for path /\<close>
  | HttpError int string
  | Page string view
  | Image "(string \<times> string) list" string

record response =
  rs_Headers :: "(string \<times> string) list"
  rs_Reply :: reply

record 'k site =
  si_env :: "'k env"
  si_warp :: "'k warp_api"
  si_os :: "'k upgrade_os"
  si_upgrader :: "SystemUpgrader option"
  si_token :: "nat \<Rightarrow> string"
  si_qrcode :: "string \<Rightarrow> string result"

type_synonym 'k handler = "request \<Rightarrow> ('k app, reply) action"

abbreviation POST :: string where "POST \<equiv> ''POST''"

definition NotFound :: reply where
  "NotFound = HttpError 404 ''404 page not found''"

definition seeOther :: "string \<Rightarrow> reply" where
  "seeOther location = Redirect 303 location None"

definition errText :: "'k site \<Rightarrow> error \<Rightarrow> string" where
  "errText S e = e_text (si_env S) e"

text \<open>The error of a call as a value; a panic ends the handler.\<close>

definition catching :: "('s, 'a) action \<Rightarrow> ('s, 'a result) action" where
  "catching m = andThen (attempt m) (\<lambda>r. case r of
       Inl e \<Rightarrow> if e = Panic then throw Panic else return (Inl e)
     | Inr x \<Rightarrow> return (Inr x))"

definition readOr :: "'a \<Rightarrow> ('s, 'a) action \<Rightarrow> ('s, 'a) action" where
  "readOr z m = andThen (catching m) (\<lambda>r. return (case r of Inl _ \<Rightarrow> z | Inr x \<Rightarrow> x))"

definition errorOf :: "('s, 'a) action \<Rightarrow> ('s, error option) action" where
  "errorOf m = andThen (catching m) (\<lambda>r. return (case r of Inl e \<Rightarrow> Some e | Inr _ \<Rightarrow> None))"

subsection \<open>Fields of a form\<close>

definition field :: "request \<Rightarrow> string \<Rightarrow> string" where
  "field r k = TrimSpace (FormValue r k)"

definition int64Field :: "request \<Rightarrow> string \<Rightarrow> int" where
  "int64Field r k = fst (ParseInt (field r k))"

text \<open>\<open>strconv.Atoi\<close> on a 64-bit machine.\<close>

definition intField :: "request \<Rightarrow> string \<Rightarrow> int" where
  "intField r k = fst (ParseInt (field r k))"

definition fields :: "request \<Rightarrow> string \<Rightarrow> string list" where
  "fields r key = filter (\<lambda>v. v \<noteq> []) (map (\<lambda>(k, v). TrimSpace v) (filter (\<lambda>(k, v). k = key) (rq_Form r)))"

definition upstreamInputFrom :: "request \<Rightarrow> int \<Rightarrow> UpstreamInput" where
  "upstreamInputFrom r k = \<lparr>in_ID = k, in_Name = field r ''name'', in_V6CIDR = field r ''v6_cidr'', in_Mode = field r ''mode'',
     in_PublicV4 = field r ''public_v4'', in_EgressInterface = field r ''egress_interface'',
     in_InterfaceName = field r ''interface_name'', in_EndpointHost = field r ''endpoint_host'',
     in_EndpointPort = intField r ''endpoint_port'', in_ServerAddress = field r ''server_address'',
     in_TransportAddress = field r ''transport_address'', in_MTU = intField r ''mtu'', in_Keepalive = intField r ''keepalive'',
     in_MinPrefix = intField r ''min_prefix'', in_MaxPrefix = intField r ''max_prefix'',
     in_DefaultPrefix = intField r ''default_prefix'', in_V4Mode = field r ''v4_mode''\<rparr>"

definition HasGroup :: "tunnelDraft \<Rightarrow> string \<Rightarrow> bool" where
  "HasGroup d name = list_ex (\<lambda>group. group = name) (td_Groups d)"

definition draftFrom :: "request \<Rightarrow> upstream \<Rightarrow> tunnelDraft" where
  "draftFrom r up =
     (let prefix = intField r ''prefix''; quota = int64Field r ''quota_gib'' in
      \<lparr>td_Label = field r ''label'', td_PublicKey = field r ''public_key'', td_DNS = field r ''dns'', td_V4Mode = field r ''v4_mode'',
       td_Groups = fields r ''routing_groups'',
       td_Prefix = (if prefix < up_MinPrefix up \<or> up_MaxPrefix up < prefix then up_DefaultPrefix up else prefix),
       td_QuotaGiB = (if quota \<le> 0 then 100 else quota), td_Generate = FormValue r ''generate'' \<noteq> []\<rparr>)"

subsection \<open>Sessions\<close>

definition isHTTPS :: "unicode \<Rightarrow> request \<Rightarrow> bool" where
  "isHTTPS u r \<longleftrightarrow> rq_TLS r \<or> EqualFold u (rq_Header r ''X-Forwarded-Proto'') ''https''"

definition loginAllowed :: "unicode \<Rightarrow> request \<Rightarrow> bool" where
  "loginAllowed u r =
     (if isHTTPS u r then True
      else let host = (case SplitHostPort (rq_Host r) of None \<Rightarrow> rq_Host r | Some h \<Rightarrow> h)
           in host = ''localhost'' \<or> parsesAsLoopback host)"

definition auth :: "'k handler \<Rightarrow> 'k handler" where
  "auth handler r =
     (case rq_Session r of
        None \<Rightarrow> return (seeOther ''/login'')
      | Some c \<Rightarrow>
          andThen (reads (\<lambda>a. app_sessions a c)) (\<lambda>found.
          case found of
            None \<Rightarrow> return (seeOther ''/login'')
          | Some s \<Rightarrow>
              andThen (onStore Now) (\<lambda>now.
              if s_Expires s < now then return (seeOther ''/login'')
              else handler (r\<lparr>rq_Header := (rq_Header r)(''X-OTB-User'' := s_Username s, ''X-OTB-CSRF'' := s_CSRF s)\<rparr>))))"

definition checkCSRF :: "request \<Rightarrow> bool" where
  "checkCSRF r \<longleftrightarrow> rq_Method r \<noteq> POST \<or> FormValue r ''csrf'' = rq_Header r ''X-OTB-CSRF''"

definition sessionLifetime :: time where
  "sessionLifetime = 43200 * 1000000000"

definition setSession :: "string \<Rightarrow> session \<Rightarrow> ('k app, unit) action" where
  "setSession k s = modify (\<lambda>a. a\<lparr>app_sessions := (app_sessions a)(k \<mapsto> s)\<rparr>)"

definition loginPage :: "request \<Rightarrow> reply" where
  "loginPage r = Page ''login'' (zeroView\<lparr>v_Title := ''Login'',
     v_Error := (if rq_Method r = POST then ''Invalid username or password'' else [])\<rparr>)"

definition web_login :: "'k site \<Rightarrow> 'k handler" where
  "web_login S r =
     (if rq_Method r \<noteq> POST then return (loginPage r)
      else if \<not> loginAllowed (e_unicode (si_env S)) r
      then return (HttpError 403 ''login must use HTTPS or originate on loopback'')
      else
        andThen (App_Authenticate (si_env S) (FormValue r ''username'') (FormValue r ''password'')) (\<lambda>ok.
        if \<not> ok then return (loginPage r)
        else
          andThen (draw (\<lambda>n. Inr (si_token S n))) (\<lambda>k.
          andThen (draw (\<lambda>n. Inr (si_token S n))) (\<lambda>csrf.
          andThen (onStore Now) (\<lambda>now.
          andThen (setSession k \<lparr>s_Username = FormValue r ''username'', s_CSRF = csrf, s_Expires = now + sessionLifetime\<rparr>) (\<lambda>_.
          return (Redirect 303 ''/'' (Some \<lparr>ck_Value = k, ck_HttpOnly = True, ck_Strict = True,
             ck_Secure = isHTTPS (e_unicode (si_env S)) r, ck_MaxAge = 43200\<rparr>))))))))"

definition web_logout :: "'k handler" where
  "web_logout r =
     (if rq_Method r \<noteq> POST \<or> \<not> checkCSRF r then return (HttpError 400 ''bad request'')
      else
        andThen (case rq_Session r of
            None \<Rightarrow> return ()
          | Some c \<Rightarrow> modify (\<lambda>a. a\<lparr>app_sessions := (app_sessions a)(c := None)\<rparr>)) (\<lambda>_.
        return (Redirect 303 ''/login'' (Some \<lparr>ck_Value = [], ck_HttpOnly = False, ck_Strict = False, ck_Secure = False, ck_MaxAge = -1\<rparr>))))"

definition base :: "request \<Rightarrow> view" where
  "base r = zeroView\<lparr>v_User := rq_Header r ''X-OTB-User'', v_CSRF := rq_Header r ''X-OTB-CSRF''\<rparr>"

definition noticed :: "request \<Rightarrow> view \<Rightarrow> view" where
  "noticed r v = v\<lparr>v_Notice := rq_Query r ''notice'', v_Error := rq_Query r ''error''\<rparr>"

subsection \<open>Statistics per connection\<close>

fun viewsOf :: "settings \<Rightarrow> upstream list \<Rightarrow> ('k app, upstreamView list) action" where
  "viewsOf cfg [] = return []"
| "viewsOf cfg (up # ups) =
     (let item = \<lparr>uv_Upstream = up, uv_Allocated = 0, uv_Largest = -1, uv_EffectiveV4Mode = upstreamV4Mode cfg up\<rparr> in
      andThen (case delegatedPrefix up of
          None \<Rightarrow> return item
        | Some pool \<Rightarrow>
            andThen (onStore (Store_UsedPrefixes (up_ID up))) (\<lambda>used.
            let used = (case serverReservation up of None \<Rightarrow> used | Some reserved \<Rightarrow> used @ [reserved])
            in case PoolStats pool used (up_MaxPrefix up) of
                 None \<Rightarrow> throw Panic
               | Some (allocated, largest) \<Rightarrow> return (item\<lparr>uv_Allocated := allocated, uv_Largest := largest\<rparr>))) (\<lambda>item.
      andThen (viewsOf cfg ups) (\<lambda>items. return (item # items))))"

definition upstreamViews :: "settings \<Rightarrow> ('k app, upstreamView list) action" where
  "upstreamViews cfg = andThen (onStore Store_Upstreams) (viewsOf cfg)"

definition upstreamNames :: "upstreamView list \<Rightarrow> (int \<rightharpoonup> string)" where
  "upstreamNames ups = foldl (\<lambda>names u. names(up_ID (uv_Upstream u) \<mapsto> up_Name (uv_Upstream u))) Map.empty ups"

definition suggestInterfaceName :: "('k app, string) action" where
  "suggestInterfaceName =
     andThen (catching (onStore Store_Upstreams)) (\<lambda>r.
     return (case r of
         Inl _ \<Rightarrow> ''wg0''
       | Inr existing \<Rightarrow>
           (case find (\<lambda>name. name \<notin> set (map up_InterfaceName existing)) (map (\<lambda>i. ''wg'' @ dec i) [0..<256]) of
              None \<Rightarrow> [] | Some name \<Rightarrow> name)))"

definition chooseUpstream :: "upstreamView list \<Rightarrow> int \<Rightarrow> upstream" where
  "chooseUpstream ups selected =
     (case find (\<lambda>u. up_ID (uv_Upstream u) = selected) ups of
        Some u \<Rightarrow> uv_Upstream u
      | None \<Rightarrow> if selected = 0 \<and> ups \<noteq> [] then uv_Upstream (hd ups) else zeroUpstream)"

subsection \<open>Pages\<close>

text \<open>Connections with their statistics; an error becomes the view's error.\<close>

definition withUpstreams :: "'k site \<Rightarrow> view \<Rightarrow> ('k app, view) action" where
  "withUpstreams S v =
     andThen (catching (upstreamViews (v_Settings v))) (\<lambda>r. return (case r of
       Inl e \<Rightarrow> v\<lparr>v_Error := errText S e, v_Upstreams := []\<rparr>
     | Inr ups \<Rightarrow> v\<lparr>v_Upstreams := ups\<rparr>))"

definition named :: "view \<Rightarrow> view" where
  "named v = v\<lparr>v_UpstreamNames := upstreamNames (v_Upstreams v)\<rparr>"

definition web_dashboard :: "'k site \<Rightarrow> 'k handler" where
  "web_dashboard S r =
     (if rq_Path r \<noteq> ''/'' then return NotFound
      else
        andThen (readOr [] (onStore Store_Tunnels)) (\<lambda>tunnels.
        andThen (readOr zeroSettings (onStore Store_Settings)) (\<lambda>cfg.
        andThen (reads app_health) (\<lambda>health.
        andThen (withUpstreams S ((noticed r (base r))\<lparr>v_Title := ''Dashboard'', v_Tunnels := tunnels, v_Settings := cfg,
            v_Health := health\<rparr>)) (\<lambda>v.
        return (Page ''dashboard'' (named v)))))))"

definition web_upstreams :: "'k site \<Rightarrow> 'k handler" where
  "web_upstreams S r =
     andThen (readOr zeroSettings (onStore Store_Settings)) (\<lambda>cfg.
     andThen (withUpstreams S ((noticed r (base r))\<lparr>v_Title := ''Upstreams'', v_Settings := cfg\<rparr>)) (\<lambda>v.
     return (Page ''upstreams'' v)))"

text \<open>Saving settings and applying them: what both the settings and the routing page do.\<close>

definition saveAndApply :: "'k site \<Rightarrow> view \<Rightarrow> (view \<Rightarrow> ('k app, view) action) \<Rightarrow> ('k app, view) action" where
  "saveAndApply S v applied =
     andThen (errorOf (App_SaveSettings (v_Settings v))) (\<lambda>err. case err of
       Some e \<Rightarrow> return (v\<lparr>v_Error := errText S e\<rparr>)
     | None \<Rightarrow> andThen (errorOf (reconcileLocked (si_env S))) (\<lambda>err. case err of
         Some e \<Rightarrow> return (v\<lparr>v_Error := ''Saved, but reconcile failed: '' @ errText S e\<rparr>)
       | None \<Rightarrow> applied v))"

definition postedSettings :: "request \<Rightarrow> settings \<Rightarrow> settings" where
  "postedSettings r old =
     (let v4Mode = field r ''v4_mode'' in
      \<lparr>V4NAT = (v4Mode = V4ModeNative), V4Warp = (v4Mode = V4ModeWarp), V4Pool = field r ''v4_pool'',
       DefaultDNS = field r ''default_dns'', InterTunnelPolicy = InterTunnelPolicy old\<rparr>)"

definition settingsPage :: "view \<Rightarrow> ('k app, reply) action" where
  "settingsPage v = andThen (readOr [] (upstreamViews (v_Settings v))) (\<lambda>ups. return (Page ''settings'' (v\<lparr>v_Upstreams := ups\<rparr>)))"

definition web_settings :: "'k site \<Rightarrow> 'k handler" where
  "web_settings S r =
     andThen (readOr zeroSettings (onStore Store_Settings)) (\<lambda>cfg.
     andThen (readOr zeroWarpAccount (onStore Store_WarpAccount)) (\<lambda>warp.
     let v = (noticed r (base r))\<lparr>v_Title := ''Settings'', v_Settings := cfg, v_Warp := warp\<rparr> in
     if rq_Method r \<noteq> POST then settingsPage v
     else if \<not> checkCSRF r then return (HttpError 403 ''invalid CSRF token'')
     else andThen (saveAndApply S (v\<lparr>v_Settings := postedSettings r cfg\<rparr>) (\<lambda>v.
         andThen (readOr zeroSettings (onStore Store_Settings)) (\<lambda>cfg.
         andThen (readOr zeroWarpAccount (onStore Store_WarpAccount)) (\<lambda>warp.
         return (v\<lparr>v_Notice := ''Settings saved and applied'', v_Settings := cfg, v_Warp := warp\<rparr>))))) settingsPage))"

definition routingPage :: "view \<Rightarrow> ('k app, reply) action" where
  "routingPage v = andThen (readOr [] (upstreamViews (v_Settings v))) (\<lambda>ups. return (Page ''routing'' (v\<lparr>v_UpstreamNames := upstreamNames ups\<rparr>)))"

definition web_routing :: "'k site \<Rightarrow> 'k handler" where
  "web_routing S r =
     andThen (readOr zeroSettings (onStore Store_Settings)) (\<lambda>cfg.
     andThen (readOr [] (onStore Store_Tunnels)) (\<lambda>tunnels.
     let v = (noticed r (base r))\<lparr>v_Title := ''Inter-tunnel routing'', v_Settings := cfg, v_Tunnels := tunnels\<rparr> in
     if rq_Method r \<noteq> POST then routingPage v
     else if \<not> checkCSRF r then return (HttpError 403 ''invalid CSRF token'')
     else andThen (saveAndApply S (v\<lparr>v_Settings := cfg\<lparr>InterTunnelPolicy := field r ''inter_tunnel_policy''\<rparr>\<rparr>) (\<lambda>v.
         andThen (catching (onStore (Store_AddAudit (v_User v) ''routing-policy'' (InterTunnelPolicy (v_Settings v))))) (\<lambda>_.
         andThen (readOr zeroSettings (onStore Store_Settings)) (\<lambda>cfg.
         return (v\<lparr>v_Notice := ''Inter-tunnel routing policy saved and applied'', v_Settings := cfg\<rparr>))))) routingPage))"

definition groupAction :: "'k site \<Rightarrow> request \<Rightarrow> ('k app, unit) action" where
  "groupAction S r =
     (let user = rq_Header r ''X-OTB-User''; action = field r ''action'' in
      if action = ''create'' then App_CreateRoutingGroup (field r ''name'') user
      else if action = ''rename'' then App_RenameRoutingGroup (si_env S) (int64Field r ''group_id'') (field r ''name'') user
      else if action = ''delete'' then App_DeleteRoutingGroup (si_env S) (int64Field r ''group_id'') user
      else throw (newError ''unknown group action''))"

definition groupsPage :: "view \<Rightarrow> ('k app, reply) action" where
  "groupsPage v = andThen (readOr [] (onStore Store_RoutingGroups)) (\<lambda>gs. return (Page ''groups'' (v\<lparr>v_RoutingGroups := gs\<rparr>)))"

definition web_groups :: "'k site \<Rightarrow> 'k handler" where
  "web_groups S r =
     (let v = (noticed r (base r))\<lparr>v_Title := ''Routing groups''\<rparr> in
      if rq_Method r \<noteq> POST then groupsPage v
      else if \<not> checkCSRF r then return (HttpError 403 ''invalid CSRF token'')
      else andThen (errorOf (groupAction S r)) (\<lambda>err. case err of
          Some e \<Rightarrow> groupsPage (v\<lparr>v_Error := errText S e\<rparr>)
        | None \<Rightarrow> return (seeOther (''/groups?notice='' @ QueryEscape ''Routing groups updated''))))"

subsection \<open>Connections\<close>

definition formDefaults :: "string \<Rightarrow> upstream" where
  "formDefaults name = zeroUpstream\<lparr>up_Mode := UpstreamRouted, up_EndpointPort := 51820, up_MTU := 1420, up_Keepalive := 25,
     up_MinPrefix := 48, up_MaxPrefix := 64, up_DefaultPrefix := 56, up_InterfaceName := name\<rparr>"

definition web_newUpstream :: "'k site \<Rightarrow> 'k handler" where
  "web_newUpstream S r =
     andThen (readOr zeroSettings (onStore Store_Settings)) (\<lambda>cfg.
     andThen suggestInterfaceName (\<lambda>name.
     let v = (base r)\<lparr>v_Title := ''New upstream'', v_Settings := cfg, v_Upstream := formDefaults name\<rparr>;
         inp = upstreamInputFrom r 0
     in if rq_Method r \<noteq> POST then return (Page ''upstream-form'' v)
        else if \<not> checkCSRF r then return (HttpError 403 ''invalid CSRF token'')
        else andThen (catching (App_CreateUpstream (si_env S) inp (v_User v))) (\<lambda>created. return (case created of
            Inl e \<Rightarrow> Page ''upstream-form'' (v\<lparr>v_Upstream := apply_input inp (v_Upstream v), v_Error := errText S e\<rparr>)
          | Inr up \<Rightarrow> seeOther (''/upstreams/'' @ Itoa (up_ID up) @ ''?notice='' @ QueryEscape ''Upstream created and applied'')))))"

definition upstreamPage :: "int \<Rightarrow> view \<Rightarrow> ('k app, reply) action" where
  "upstreamPage k v =
     andThen (readOr [] (onStore (Store_TunnelsForUpstream k))) (\<lambda>tunnels.
     return (Page ''upstream-form'' (v\<lparr>v_Title := up_Name (v_Upstream v), v_Tunnels := tunnels\<rparr>)))"

definition postUpstream :: "'k site \<Rightarrow> request \<Rightarrow> int \<Rightarrow> upstream \<Rightarrow> view \<Rightarrow> ('k app, reply) action" where
  "postUpstream S r k stored v =
     (if \<not> checkCSRF r then return (HttpError 403 ''invalid CSRF token'')
      else if field r ''action'' = ''delete''
      then andThen (errorOf (App_DeleteUpstream (si_env S) k (v_User v))) (\<lambda>err. case err of
          Some e \<Rightarrow> upstreamPage k (v\<lparr>v_Error := errText S e\<rparr>)
        | None \<Rightarrow> return (seeOther (''/upstreams?notice='' @ QueryEscape ''Upstream deleted'')))
      else
        let inp = upstreamInputFrom r k in
        andThen (errorOf (App_UpdateUpstream (si_env S) inp (v_User v))) (\<lambda>err. case err of
          Some e \<Rightarrow> upstreamPage k (v\<lparr>v_Upstream := apply_input inp stored, v_Error := errText S e\<rparr>)
        | None \<Rightarrow> return (seeOther (rq_Path r @ ''?notice='' @ QueryEscape ''Upstream saved and applied''))))"

definition web_upstream :: "'k site \<Rightarrow> 'k handler" where
  "web_upstream S r =
     (case ParseInt (Trim (CHR ''/'') (TrimPrefix (rq_Path r) ''/upstreams/'')) of (k, ok) \<Rightarrow>
      if \<not> ok then return NotFound
      else
        andThen (catching (onStore (Store_Upstream k))) (\<lambda>found. case found of
          Inl e \<Rightarrow> return (if e = ErrNoRows then NotFound else HttpError 500 (errText S e))
        | Inr stored \<Rightarrow>
            andThen (readOr zeroSettings (onStore Store_Settings)) (\<lambda>cfg.
            let v = (base r)\<lparr>v_Editing := True, v_Upstream := stored, v_Settings := cfg, v_Notice := rq_Query r ''notice''\<rparr>
            in if rq_Method r = POST then postUpstream S r k stored v else upstreamPage k v)))"

subsection \<open>Tunnels\<close>

text \<open>Reads that keep what was scanned before the error: a tunnel without its groups, a connection without its count.\<close>

definition readTunnel :: "int \<Rightarrow> ('k app, tunnel) action" where
  "readTunnel k =
     andThen (catching (onStore (queryRow (\<lambda>d. map_option scanTunnel (lookupRow t_ID k (db_tunnels d)))))) (\<lambda>r. case r of
       Inl _ \<Rightarrow> return zeroTunnel
     | Inr t \<Rightarrow> andThen (readOr [t] (onStore (loadRoutingMemberships [t]))) (\<lambda>ts. return (hd ts)))"

definition readUpstream :: "int \<Rightarrow> ('k app, upstream) action" where
  "readUpstream k =
     andThen (catching (onStore (queryRow (\<lambda>d. map_option scanUpstream (lookupRow up_ID k (db_upstreams d)))))) (\<lambda>r. case r of
       Inl _ \<Rightarrow> return zeroUpstream
     | Inr u \<Rightarrow> andThen (catching (onStore tunnelCountsByUpstream)) (\<lambda>counts. return (case counts of
           Inl _ \<Rightarrow> u | Inr counts \<Rightarrow> u\<lparr>up_TunnelCount := counts (up_ID u)\<rparr>)))"

definition clientConfig :: "'k site \<Rightarrow> tunnel \<Rightarrow> upstream \<Rightarrow> settings \<Rightarrow> string" where
  "clientConfig S t up cfg =
     ClientConfig (\<lambda>k. if e_validKey (si_env S) k then Some (e_publicKey (si_env S) k) else None) t up cfg"

definition createInput :: "int \<Rightarrow> tunnelDraft \<Rightarrow> CreateTunnelInput" where
  "createInput selected d = \<lparr>ct_UpstreamID = selected, ct_Label = td_Label d, ct_PublicKey = td_PublicKey d, ct_DNS = td_DNS d,
     ct_V4Mode = td_V4Mode d, ct_RoutingGroups = td_Groups d, ct_Prefix = td_Prefix d, ct_QuotaGiB = td_QuotaGiB d,
     ct_GenerateKeys = td_Generate d\<rparr>"

definition postTunnel :: "'k site \<Rightarrow> request \<Rightarrow> int \<Rightarrow> view \<Rightarrow> ('k app, reply) action" where
  "postTunnel S r selected v =
     (if \<not> checkCSRF r then return (HttpError 403 ''invalid CSRF token'')
      else
        let v = v\<lparr>v_Draft := draftFrom r (v_Upstream v)\<rparr> in
        if field r ''action'' = ''select'' then return (Page ''new'' v)
        else andThen (catching (App_CreateTunnel (si_env S) (createInput selected (v_Draft v)) (v_User v))) (\<lambda>created. return (case created of
            Inl e \<Rightarrow> Page ''new'' (v\<lparr>v_Error := errText S e\<rparr>)
          | Inr t \<Rightarrow> seeOther (''/tunnels/'' @ Itoa (t_ID t) @ ''?created=1''))))"

definition web_newTunnel :: "'k site \<Rightarrow> 'k handler" where
  "web_newTunnel S r =
     andThen (readOr zeroSettings (onStore Store_Settings)) (\<lambda>cfg.
     andThen (readOr [] (onStore Store_RoutingGroups)) (\<lambda>gs.
     andThen (withUpstreams S ((base r)\<lparr>v_Title := ''New tunnel'', v_Settings := cfg, v_RoutingGroups := gs\<rparr>)) (\<lambda>v.
     let selected = int64Field r ''upstream_id'';
         up = chooseUpstream (v_Upstreams v) selected;
         v = v\<lparr>v_Upstream := up, v_Prefixes := (if up_ID up \<noteq> 0 then [up_MinPrefix up..up_MaxPrefix up] else []),
               v_Draft := zeroDraft\<lparr>td_Prefix := up_DefaultPrefix up, td_QuotaGiB := 100, td_Generate := True\<rparr>\<rparr>
     in if rq_Method r = POST then postTunnel S r selected v else return (Page ''new'' v))))"

definition web_tunnelQRCode :: "'k site \<Rightarrow> tunnel \<Rightarrow> ('k app, reply) action" where
  "web_tunnelQRCode S t =
     (if t_PrivateKey t = [] then return (HttpError 409 ''QR code unavailable for a client-managed private key'')
      else
        andThen (catching (onStore Store_Settings)) (\<lambda>r. case r of
          Inl e \<Rightarrow> return (HttpError 500 (errText S e))
        | Inr cfg \<Rightarrow>
            andThen (catching (onStore (Store_Upstream (t_UpstreamID t)))) (\<lambda>r.
            let encode = (\<lambda>up. case si_qrcode S (clientConfig S t up cfg) of
                  Inl _ \<Rightarrow> HttpError 500 ''could not generate QR code''
                | Inr png \<Rightarrow> Image [(''Content-Type'', ''image/png''), (''Cache-Control'', ''no-store, private''),
                      (''Content-Disposition'', ''inline; filename='' @ [dquote] @ ''tunnel-'' @ Itoa (t_ID t) @ ''.png'' @ [dquote])] png)
            in return (case r of
                 Inr up \<Rightarrow> encode up
               | Inl e \<Rightarrow> if e = ErrNoRows then encode zeroUpstream else HttpError 500 (errText S e)))))"

text \<open>The actions of a tunnel's page: the operation, and where its success leads.\<close>

definition tunnelAction :: "'k site \<Rightarrow> request \<Rightarrow> int \<Rightarrow> tunnel \<Rightarrow> ('k app, string) action" where
  "tunnelAction S r k t =
     (let user = rq_Header r ''X-OTB-User''; action = field r ''action'';
          noticing = (\<lambda>m text. andThen m (\<lambda>_. return (rq_Path r @ ''?notice='' @ QueryEscape text)))
      in if action = ''delete'' then andThen (App_DeleteTunnel (si_env S) k user) (\<lambda>_. return ''/'')
         else if action = ''toggle'' then andThen (App_SetEnabled (si_env S) k (\<not> t_Enabled t) user) (\<lambda>_. return (rq_Path r))
         else if action = ''v4-mode'' then noticing (App_SetTunnelV4Mode (si_env S) k (field r ''v4_mode'') user) ''IPv4 egress mode updated''
         else if action = ''quota'' then noticing (App_SetTunnelQuota (si_env S) k (int64Field r ''quota_gib'') user) ''Monthly quota updated''
         else if action = ''routing-groups''
         then noticing (App_SetTunnelRoutingGroups (si_env S) k (fields r ''routing_groups'') user) ''Routing group updated''
         else throw (newError ''unknown action''))"

definition tunnelPage :: "'k site \<Rightarrow> request \<Rightarrow> int \<Rightarrow> tunnel \<Rightarrow> view \<Rightarrow> ('k app, reply) action" where
  "tunnelPage S r k t v =
     andThen (readTunnel k) (\<lambda>current.
     andThen (readOr zeroSettings (onStore Store_Settings)) (\<lambda>cfg.
     andThen (readUpstream (t_UpstreamID current)) (\<lambda>up.
     andThen (readOr [] (onStore Store_RoutingGroups)) (\<lambda>gs.
     return (Page ''detail'' (v\<lparr>v_Title := t_Label t, v_Tunnel := current, v_Settings := cfg, v_Upstream := up,
       v_EffectiveV4Mode := tunnelV4Mode cfg up current, v_RoutingGroups := gs, v_Config := clientConfig S current up cfg,
       v_Notice := (if rq_Query r ''created'' \<noteq> [] then ''Tunnel created and applied'' else rq_Query r ''notice'')\<rparr>))))))"

definition web_tunnel :: "'k site \<Rightarrow> 'k handler" where
  "web_tunnel S r =
     (let parts = Split (CHR ''/'') (Trim (CHR ''/'') (TrimPrefix (rq_Path r) ''/tunnels/'')) in
      case ParseInt (hd parts) of (k, ok) \<Rightarrow>
      if \<not> ok then return NotFound
      else
        andThen (catching (onStore (Store_Tunnel k))) (\<lambda>found. case found of
          Inl e \<Rightarrow> return (if e = ErrNoRows then NotFound else HttpError 500 (errText S e))
        | Inr t \<Rightarrow>
            if 1 < length parts
            then if length parts \<noteq> 2 \<or> parts ! 1 \<noteq> ''qr.png'' \<or> rq_Method r \<noteq> ''GET'' then return NotFound
                 else web_tunnelQRCode S t
            else if rq_Method r \<noteq> POST then tunnelPage S r k t (base r)
            else if \<not> checkCSRF r then return (HttpError 403 ''invalid CSRF token'')
            else andThen (catching (tunnelAction S r k t)) (\<lambda>done. case done of
                Inr location \<Rightarrow> return (seeOther location)
              | Inl e \<Rightarrow> tunnelPage S r k t ((base r)\<lparr>v_Error := errText S e\<rparr>))))"

subsection \<open>Actions without a page\<close>

definition outcome :: "'k site \<Rightarrow> string \<Rightarrow> string \<Rightarrow> ('k app, 'a) action \<Rightarrow> ('k app, reply) action" where
  "outcome S page notice m =
     andThen (errorOf m) (\<lambda>err. return (seeOther (case err of
         None \<Rightarrow> page @ ''?notice='' @ QueryEscape notice
       | Some e \<Rightarrow> page @ ''?error='' @ QueryEscape (errText S e))))"

definition web_upgradeAction :: "'k site \<Rightarrow> 'k handler" where
  "web_upgradeAction S r =
     (if rq_Method r = ''GET''
      then let v = (noticed r (base r))\<lparr>v_Title := ''Upgrade''\<rparr> in
           (case si_upgrader S of
              None \<Rightarrow> return (Page ''upgrade'' v)
            | Some u \<Rightarrow> andThen (reads (\<lambda>a. Upgrader_Status (si_os S) u (app_kernel a))) (\<lambda>status.
                return (Page ''upgrade'' (v\<lparr>v_Upgrade := status\<rparr>))))
      else if rq_Method r \<noteq> POST \<or> \<not> checkCSRF r then return (HttpError 400 ''bad request'')
      else outcome S ''/upgrade'' ''Upgrade started; refresh this page to see status''
             (App_StartUpgrade (si_os S) (si_upgrader S) (rq_Header r ''X-OTB-User'')))"

definition web_warpAction :: "'k site \<Rightarrow> 'k handler" where
  "web_warpAction S r =
     (if rq_Method r \<noteq> POST \<or> \<not> checkCSRF r then return (HttpError 400 ''bad request'')
      else let user = rq_Header r ''X-OTB-User''; action = field r ''action'' in
        outcome S ''/settings'' ''Cloudflare WARP action completed''
          (if action = ''register'' then andThen (App_RegisterWarp (si_env S) (si_warp S) user) (\<lambda>_. return ())
           else if action = ''test'' then andThen (App_TestWarp (si_env S) user) (\<lambda>_. return ())
           else throw (newError ''unknown WARP action'')))"

definition web_resetSettings :: "'k site \<Rightarrow> 'k handler" where
  "web_resetSettings S r =
     (if rq_Method r \<noteq> POST \<or> \<not> checkCSRF r then return (HttpError 400 ''bad request'')
      else outcome S ''/settings'' ''General settings reset to defaults''
             (App_ResetGeneralSettings (si_env S) (rq_Header r ''X-OTB-User'')))"

definition web_resync :: "'k site \<Rightarrow> 'k handler" where
  "web_resync S r =
     (if rq_Method r \<noteq> POST \<or> \<not> checkCSRF r then return (HttpError 400 ''bad request'')
      else outcome S ''/'' ''Kernel resynchronized'' (reconcileLocked (si_env S)))"

subsection \<open>The server\<close>

text \<open>
  The patterns of the mux: a pattern that ends in a slash takes every path below it, the longest
  pattern wins, a path that only lacks the slash is redirected, and a path that is not clean is
  redirected to the clean one before any handler runs, except for the method CONNECT. Paths are
  taken in the form in which no character is escaped.
\<close>

definition protected :: "'k site \<Rightarrow> string \<Rightarrow> 'k handler option" where
  "protected S path =
     (if path = ''/logout'' then Some web_logout
      else if path = ''/settings'' then Some (web_settings S)
      else if path = ''/settings/reset'' then Some (web_resetSettings S)
      else if path = ''/upstreams'' then Some (web_upstreams S)
      else if path = ''/upstreams/new'' then Some (web_newUpstream S)
      else if HasPrefix path ''/upstreams/'' then Some (web_upstream S)
      else if path = ''/routing'' then Some (web_routing S)
      else if path = ''/groups'' then Some (web_groups S)
      else if path = ''/tunnels/new'' then Some (web_newTunnel S)
      else if HasPrefix path ''/tunnels/'' then Some (web_tunnel S)
      else if path = ''/tunnels'' then None
      else if path = ''/resync'' then Some (web_resync S)
      else if path = ''/warp'' then Some (web_warpAction S)
      else if path = ''/upgrade'' then Some (web_upgradeAction S)
      else Some (web_dashboard S))"

definition muxHandler :: "'k site \<Rightarrow> string \<Rightarrow> 'k handler option" where
  "muxHandler S path = (if path = ''/login'' then Some (web_login S) else map_option auth (protected S path))"

definition movedTo :: "request \<Rightarrow> string \<Rightarrow> reply" where
  "movedTo r path = Redirect 301 (path @ (if rq_RawQuery r = [] then [] else ''?'' @ rq_RawQuery r)) None"

definition serveMux :: "'k site \<Rightarrow> 'k handler" where
  "serveMux S r =
     (let path = (if rq_Method r = ''CONNECT'' then rq_Path r else cleanPath (rq_Path r)) in
      case muxHandler S path of
        None \<Rightarrow> return (movedTo r (cleanPath (rq_Path r) @ ''/''))
      | Some h \<Rightarrow> if path \<noteq> rq_Path r then return (movedTo r path) else h r)"

definition quotedSource :: "string \<Rightarrow> string" where
  "quotedSource s = [CHR 0x27] @ s @ [CHR 0x27]"

definition securityHeaders :: "(string \<times> string) list" where
  "securityHeaders = [(''X-Content-Type-Options'', ''nosniff''), (''X-Frame-Options'', ''DENY''), (''Referrer-Policy'', ''no-referrer''),
     (''Content-Security-Policy'', ''default-src '' @ quotedSource ''self'' @ ''; style-src '' @ quotedSource ''self'' @ '' '' @
        quotedSource ''unsafe-inline'' @ ''; form-action '' @ quotedSource ''self'' @ ''; frame-ancestors '' @ quotedSource ''none'')]"

definition Handler :: "'k site \<Rightarrow> request \<Rightarrow> ('k app, response) action" where
  "Handler S r = andThen (serveMux S r) (\<lambda>rep. return \<lparr>rs_Headers = securityHeaders, rs_Reply = rep\<rparr>)"

end
