(* ===== verification/Migrations.thy ===== *)
theory Migrations
  imports Store_Properties
begin

section \<open>Databases of earlier releases (the data migrations of internal/broker/store.go)\<close>

text \<open>
  \<open>Store.migrate\<close> first brings the schema up to date and then converts two kinds of rows: the single
  provider connection that used to live in the settings row, and the routing group that used to be a
  column of the tunnel. The schema statements are not modelled: the record \<open>db\<close> has the current columns
  and, where the file still has them, the old ones.
\<close>

subsection \<open>Columns and SQL functions\<close>

text \<open>Of the column names only those of earlier releases are listed; the code asks for no other.\<close>

definition oldColumns :: "db \<Rightarrow> string \<Rightarrow> string list" where
  "oldColumns d table =
     (if table = ''settings''
      then (case db_legacy d of None \<Rightarrow> []
            | Some g \<Rightarrow> [''upstream_v6'', ''upstream_v4'', ''endpoint_host'', ''endpoint_port'', ''interface_name'',
                ''server_address'', ''server_private_key'', ''mtu'', ''keepalive'', ''min_prefix'', ''max_prefix'',
                ''default_prefix'', ''upstream_interface'']
                @ (if lg_Mode g = None then [] else [''upstream_mode''])
                @ (if lg_Transport g = None then [] else [''transport_address'']))
      else if table = ''tunnels'' \<and> db_legacyGroups d \<noteq> None then [''routing_group''] else [])"

definition tableColumns :: "string \<Rightarrow> (store, string list) action" where
  "tableColumns table = query (\<lambda>d. oldColumns d table)"

text \<open>\<open>TRIM\<close> of SQL removes spaces only.\<close>

definition TrimSQL :: "string \<Rightarrow> string" where
  "TrimSQL s = rev (dropWhile (\<lambda>c. c = CHR '' '') (rev (dropWhile (\<lambda>c. c = CHR '' '') s)))"

definition coalesce :: "'a option \<Rightarrow> 'a \<Rightarrow> 'a" where
  "coalesce v fallback = (case v of None \<Rightarrow> fallback | Some x \<Rightarrow> x)"

text \<open>The rows of \<open>SELECT DISTINCT\<close>, in the order in which they are first seen.\<close>

definition distinctRows :: "'a list \<Rightarrow> 'a list" where
  "distinctRows xs = rev (remdups (rev xs))"

subsection \<open>The single connection of the settings row\<close>

text \<open>
  What the query scans into \<open>legacy\<close>: the thirteen columns, and the two later ones where they exist; a
  column that does not keeps the initial value of the struct.
\<close>

definition legacyRow :: "legacy_settings \<Rightarrow> upstream" where
  "legacyRow g = zeroUpstream
     \<lparr>up_Name := ''primary'', up_V6CIDR := lg_V6 g, up_PublicV4 := lg_V4 g, up_EndpointHost := lg_EndpointHost g,
      up_EndpointPort := lg_EndpointPort g, up_InterfaceName := lg_InterfaceName g,
      up_ServerAddress := lg_ServerAddress g, up_ServerPrivateKey := lg_ServerPrivateKey g, up_MTU := lg_MTU g,
      up_Keepalive := lg_Keepalive g, up_MinPrefix := lg_MinPrefix g, up_MaxPrefix := lg_MaxPrefix g,
      up_DefaultPrefix := lg_DefaultPrefix g, up_EgressInterface := lg_UpstreamInterface g,
      up_Mode := (case lg_Mode g of None \<Rightarrow> UpstreamRouted | Some v \<Rightarrow> coalesce v ''routed''),
      up_TransportAddress := (case lg_Transport g of None \<Rightarrow> [] | Some v \<Rightarrow> coalesce v [])\<rparr>"

definition completeLegacy :: "upstream \<Rightarrow> upstream" where
  "completeLegacy u =
     (let u = (if up_InterfaceName u = [] then u\<lparr>up_InterfaceName := ''wg0''\<rparr> else u)
      in if \<not> validUpstreamMode (up_Mode u) then u\<lparr>up_Mode := UpstreamRouted\<rparr> else u)"

definition insertLegacy :: "upstream \<Rightarrow> time \<Rightarrow> (store, unit) action" where
  "insertLegacy legacy now = tx (
     andThen (addRow upstream_uniques db_upstreams db_upstreams_update up_ID
       (\<lambda>k. legacy\<lparr>up_ID := k, up_V4Mode := [], up_TunnelCount := 0, up_CreatedAt := now, up_UpdatedAt := now\<rparr>)) (\<lambda>k.
     andThen (exec (db_tunnels_update (map (\<lambda>t. if t_UpstreamID t = 0 then t\<lparr>t_UpstreamID := k\<rparr> else t)))) (\<lambda>_.
     auditRow ''system'' ''upstream-migrate'' None
       (''converted single upstream '' @ up_V6CIDR legacy @ '' to upstream '' @ [CHR 0x22] @ up_Name legacy @ [CHR 0x22])
       now)))"

definition migrateLegacyUpstream :: "(store, unit) action" where
  "migrateLegacyUpstream =
     andThen (tableColumns ''settings'') (\<lambda>columns.
     if ''upstream_v6'' \<notin> set columns then return ()
     else
     andThen (query (\<lambda>d. length (db_upstreams d))) (\<lambda>existing.
     if 0 < existing then return ()
     else
     andThen (attempt (queryRow (\<lambda>d. map_option legacyRow (db_legacy d)))) (\<lambda>r.
     case r of
       Inl e \<Rightarrow> if e = ErrNoRows then return () else throw e
     | Inr legacy \<Rightarrow>
         if TrimSpace (up_V6CIDR legacy) = [] then return ()
         else andThen Now (insertLegacy (completeLegacy legacy)))))"

subsection \<open>The routing group column of tunnels\<close>

definition oldGroup :: "db \<Rightarrow> int \<Rightarrow> string" where
  "oldGroup d k = (case db_legacyGroups d of None \<Rightarrow> []
     | Some rows \<Rightarrow> coalesce (map_of rows k) [])"

definition orIgnoreGroup :: "time \<Rightarrow> db \<Rightarrow> string \<Rightarrow> db" where
  "orIgnoreGroup now d name =
     (if list_ex (\<lambda>g. g_Name g = name) (db_groups d) then d
      else d\<lparr>db_groups := db_groups d @
        [\<lparr>g_ID = nextRowid g_ID (db_groups d), g_Name = name, g_TunnelCount = 0, g_CreatedAt = now\<rparr>]\<rparr>)"

definition insertOldGroups :: "time \<Rightarrow> db \<Rightarrow> db" where
  "insertOldGroups now d = foldl (orIgnoreGroup now) d
     (distinctRows (filter (\<lambda>n. n \<noteq> []) (map (\<lambda>t. TrimSQL (oldGroup d (t_ID t))) (db_tunnels d))))"

definition orIgnoreMember :: "db \<Rightarrow> int \<times> int \<Rightarrow> db" where
  "orIgnoreMember d m = (if m \<in> set (db_members d) then d else d\<lparr>db_members := db_members d @ [m]\<rparr>)"

definition insertOldMembers :: "db \<Rightarrow> db" where
  "insertOldMembers d = foldl orIgnoreMember d
     [(t_ID t, g_ID g). t \<leftarrow> db_tunnels d, g \<leftarrow> db_groups d,
        g_Name g = TrimSQL (oldGroup d (t_ID t)) \<and> TrimSQL (oldGroup d (t_ID t)) \<noteq> []]"

definition clearOldGroups :: "db \<Rightarrow> db" where
  "clearOldGroups d = d\<lparr>db_legacyGroups := map_option (map (\<lambda>(k, _). (k, []))) (db_legacyGroups d)\<rparr>"

definition migrateLegacyRoutingGroups :: "(store, unit) action" where
  "migrateLegacyRoutingGroups =
     andThen (tableColumns ''tunnels'') (\<lambda>columns.
     if ''routing_group'' \<notin> set columns then return ()
     else
     andThen Now (\<lambda>now. tx (
       andThen (exec (insertOldGroups now)) (\<lambda>_.
       andThen (exec insertOldMembers) (\<lambda>_.
       exec clearOldGroups)))))"

text \<open>The end of \<open>migrate\<close>, after the schema statements.\<close>

definition migrateRows :: "(store, unit) action" where
  "migrateRows = andThen migrateLegacyRoutingGroups (\<lambda>_. migrateLegacyUpstream)"

subsection \<open>What the conversion of the connection does\<close>

text \<open>The connection has every value the settings row had.\<close>

definition carries :: "legacy_settings \<Rightarrow> upstream \<Rightarrow> bool" where
  "carries g u \<longleftrightarrow>
     up_Name u = ''primary'' \<and> up_V6CIDR u = lg_V6 g \<and> up_PublicV4 u = lg_V4 g \<and>
     up_EndpointHost u = lg_EndpointHost g \<and> up_EndpointPort u = lg_EndpointPort g \<and>
     up_InterfaceName u = (if lg_InterfaceName g = [] then ''wg0'' else lg_InterfaceName g) \<and>
     up_ServerAddress u = lg_ServerAddress g \<and> up_ServerPrivateKey u = lg_ServerPrivateKey g \<and>
     up_MTU u = lg_MTU g \<and> up_Keepalive u = lg_Keepalive g \<and> up_MinPrefix u = lg_MinPrefix g \<and>
     up_MaxPrefix u = lg_MaxPrefix g \<and> up_DefaultPrefix u = lg_DefaultPrefix g \<and>
     up_EgressInterface u = lg_UpstreamInterface g \<and> up_V4Mode u = [] \<and>
     up_Mode u = (if lg_Mode g = Some (Some UpstreamOnLink) then UpstreamOnLink else UpstreamRouted) \<and>
     up_TransportAddress u = (case lg_Transport g of Some (Some a) \<Rightarrow> a | _ \<Rightarrow> [])"

text \<open>The databases the conversion applies to.\<close>

definition pending :: "db \<Rightarrow> legacy_settings \<Rightarrow> bool" where
  "pending d g \<longleftrightarrow> db_legacy d = Some g \<and> TrimSpace (lg_V6 g) \<noteq> [] \<and> db_upstreams d = []"

text \<open>The new rows: only connections, owners of tunnels and the audit log differ.\<close>

definition converted :: "legacy_settings \<Rightarrow> db \<Rightarrow> db \<Rightarrow> bool" where
  "converted g d d' \<longleftrightarrow> (\<exists>u a. carries g u \<and>
     d' = d\<lparr>db_upstreams := [u], db_audit := db_audit d @ [a],
       db_tunnels := map (\<lambda>t. if t_UpstreamID t = 0 then t\<lparr>t_UpstreamID := up_ID u\<rparr> else t) (db_tunnels d)\<rparr>)"

lemma carries_legacyRow:
  "carries g ((completeLegacy (legacyRow g))\<lparr>up_ID := k, up_V4Mode := [], up_TunnelCount := 0, up_CreatedAt := now, up_UpdatedAt := now\<rparr>)"
  by (auto simp: carries_def completeLegacy_def legacyRow_def Let_def coalesce_def validUpstreamMode_def UpstreamRouted_def
      UpstreamOnLink_def split: option.split)

lemma clean_after_read:
  assumes "\<And>s. st_db (snd (m s)) = st_db s" "\<And>x. clean (k x)"
  shows "clean (andThen m k)"
  unfolding clean_def
proof (intro allI impI)
  fix s e s'
  assume "andThen m k s = (Inl e, s')"
  then show "st_db s' = st_db s" using assms by (auto simp: andThen_Inl clean_def) (metis snd_conv)+
qed

lemma reads_only: "st_db (snd (query f s)) = st_db s" "st_db (snd (attempt (queryRow h) s)) = st_db s"
  "st_db (snd (tableColumns table s)) = st_db s"
  by (auto simp: query_def attempt_def queryRow_def sql_def Let_def tableColumns_def split: option.split)

lemma clean_ends: "clean (return x)" "clean (throw e)"
  by (simp_all add: clean_def)

lemma clean_migrateLegacyUpstream: "clean migrateLegacyUpstream"
  unfolding migrateLegacyUpstream_def insertLegacy_def
  by (intro clean_after_read reads_only) (auto intro!: clean_after_read clean_ends clean_Now clean_tx simp: reads_only split: sum.split)

lemma insertLegacy_Inr:
  assumes "insertLegacy (completeLegacy (legacyRow g)) now s = (Inr x, s')" "db_upstreams (st_db s) = []"
  shows "converted g (st_db s) (st_db s')"
proof -
  let ?row = "\<lambda>k. (completeLegacy (legacyRow g))\<lparr>up_ID := k, up_V4Mode := [], up_TunnelCount := 0, up_CreatedAt := now, up_UpdatedAt := now\<rparr>"
  let ?own = "\<lambda>k. map (\<lambda>t. if t_UpstreamID t = 0 then t\<lparr>t_UpstreamID := k\<rparr> else t)"
  from assms(1) obtain s1 k s2 s3 s4 detail where run:
      "st_db s1 = st_db s" "addRow upstream_uniques db_upstreams db_upstreams_update up_ID ?row s1 = (Inr k, s2)"
      "exec (db_tunnels_update (?own k)) s2 = (Inr (), s3)"
      "auditRow ''system'' ''upstream-migrate'' None detail now s3 = (Inr (), s4)" "st_db s' = st_db s4"
    unfolding insertLegacy_def by (elim tx_Inr) (auto simp: andThen_Inr)
  have "st_db s2 = db_upstreams_update (\<lambda>rows. rows @ [?row k]) (st_db s)"
    using addRow_Inr [OF run(2)] run(1) by simp
  then have "st_db s2 = (st_db s)\<lparr>db_upstreams := [?row k]\<rparr>" using assms(2) by (cases "st_db s") simp
  moreover have "st_db s3 = db_tunnels_update (?own k) (st_db s2)" using exec_Inr [OF run(3)] .
  moreover obtain a where "st_db s' = (st_db s3)\<lparr>db_audit := db_audit (st_db s3) @ [a]\<rparr>"
    using exec_Inr [OF run(4) [unfolded auditRow_def]] run(5) by simp
  ultimately have "st_db s' = (st_db s)\<lparr>db_upstreams := [?row k], db_audit := db_audit (st_db s) @ [a],
       db_tunnels := ?own (up_ID (?row k)) (db_tunnels (st_db s))\<rparr>"
    by (cases "st_db s") simp
  then show ?thesis unfolding converted_def using carries_legacyRow by blast
qed

lemma V6CIDR_legacyRow [simp]: "up_V6CIDR (legacyRow g) = lg_V6 g"
  by (simp add: legacyRow_def)

lemma migrateLegacyUpstream_Inr:
  assumes "migrateLegacyUpstream s = (Inr x, s')"
  shows "if pending (st_db s) (the (db_legacy (st_db s))) then converted (the (db_legacy (st_db s))) (st_db s) (st_db s')
    else st_db s' = st_db s"
proof (cases "db_legacy (st_db s) = None \<or> db_upstreams (st_db s) \<noteq> []")
  case True
  then show ?thesis
    using assms by (auto simp: migrateLegacyUpstream_def tableColumns_def andThen_Inr oldColumns_def pending_def
        dest!: query_Inr split: if_splits)
next
  case False
  then obtain g where g: "db_legacy (st_db s) = Some g" "db_upstreams (st_db s) = []" by auto
  with assms obtain s1 s2 r where s1: "st_db s1 = st_db s"
      "attempt (queryRow (\<lambda>d. map_option legacyRow (db_legacy d))) s1 = (Inr r, s2)"
      "(case r of Inl e \<Rightarrow> if e = ErrNoRows then return () else throw e
       | Inr legacy \<Rightarrow> if TrimSpace (up_V6CIDR legacy) = [] then return ()
           else andThen Now (insertLegacy (completeLegacy legacy))) s2 = (Inr x, s')"
    by (auto simp: migrateLegacyUpstream_def tableColumns_def andThen_Inr oldColumns_def dest!: query_Inr)
  then have r: "r = Inl (LibErr ''sqlite'') \<or> r = Inr (legacyRow g)" "st_db s2 = st_db s"
    using g(1) by (auto simp: attempt_def queryRow_def sql_def Let_def split: if_splits)
  moreover have "LibErr ''sqlite'' \<noteq> ErrNoRows" by (simp add: ErrNoRows_def)
  ultimately have "r = Inr (legacyRow g)" using s1(3) by auto
  then show ?thesis
    using s1(3) r(2) g by (auto simp: pending_def andThen_Inr dest!: Now_Inr split: if_splits) (metis insertLegacy_Inr)
qed

lemma wf_db_own: "wf_db d \<Longrightarrow> wf_db (db_tunnels_update (map (\<lambda>t. if t_UpstreamID t = 0 then t\<lparr>t_UpstreamID := k\<rparr> else t)) d)"
proof -
  let ?f = "\<lambda>t. if t_UpstreamID t = 0 then t\<lparr>t_UpstreamID := k\<rparr> else t"
  assume d: "wf_db d"
  have "wf_table t_ID tunnel_uniques (map ?f (db_tunnels d))"
    by (rule tunnel_table.wf_map) (use d in \<open>auto simp: wf_db_def tunnel_uniques_def\<close>)
  moreover have "t_ID (?f t) = t_ID t" for t by simp
  then have "t_ID ` set (map ?f (db_tunnels d)) = t_ID ` set (db_tunnels d)" by (rule ids_map)
  ultimately show ?thesis using d by (simp add: wf_db_def wf_members_def)
qed

lemma keeps_migrateLegacyUpstream: "dbkeeps wf_db migrateLegacyUpstream"
  unfolding migrateLegacyUpstream_def insertLegacy_def tableColumns_def
  by (intro keeps_rules store_keeps wf_db_own; simp)

lemma deleteUpstream_rows:
  assumes "Store_DeleteUpstream k admin s = (Inr x, s')"
  shows "db_upstreams (st_db s') = deleteRow up_ID k (db_upstreams (st_db s)) \<and> db_legacy (st_db s') = db_legacy (st_db s)
    \<and> lookupRow up_ID k (db_upstreams (st_db s)) \<noteq> None"
  using assms unfolding Store_DeleteUpstream_def
  by (auto simp: andThen_Inr auditRow_def dest!: Now_Inr query_Inr queryRow_Inr exec_Inr elim!: tx_Inr split: if_splits)

text \<open>The outcome as the caller sees it, for every result.\<close>

lemma migrateLegacyUpstream_cases:
  assumes "migrateLegacyUpstream s = (r, s')"
  obtains (unchanged) "st_db s' = st_db s" "is_ok r \<Longrightarrow> \<nexists>g. pending (st_db s) g"
    | (moved) g where "is_ok r" "pending (st_db s) g" "converted g (st_db s) (st_db s')"
proof (cases r)
  case (Inl e)
  then have "st_db s' = st_db s" using assms clean_migrateLegacyUpstream by (simp add: clean_def)
  then show thesis using unchanged Inl by simp
next
  case (Inr x)
  have "g = the (db_legacy (st_db s))" if "pending (st_db s) g" for g using that by (simp add: pending_def)
  then show thesis
    using migrateLegacyUpstream_Inr [OF assms [unfolded Inr]] unchanged moved Inr by (metis is_ok_simps(1))
qed

lemma pending_unique: "pending d g \<Longrightarrow> pending d h \<Longrightarrow> g = h"
  by (simp add: pending_def)

lemma converted_settled: "converted g d d' \<Longrightarrow> \<not> pending d' h"
  by (auto simp: converted_def pending_def)

lemma migrateLegacyUpstream_settled:
  "migrateLegacyUpstream s = (r, s') \<Longrightarrow> (\<nexists>g. pending (st_db s) g) \<Longrightarrow> st_db s' = st_db s"
  by (erule migrateLegacyUpstream_cases) auto

subsection \<open>What the conversion of the routing groups does\<close>

lemma orIgnoreGroup_wf: "wf_db d \<Longrightarrow> wf_db (orIgnoreGroup now d name)"
  by (auto simp: orIgnoreGroup_def wf_db_def wf_members_def group_uniques_def clashes_def list_ex_iff
      intro!: group_table.wf_insert)

lemma orIgnoreGroups_wf: "wf_db d \<Longrightarrow> wf_db (foldl (orIgnoreGroup now) d names)"
  by (induction names arbitrary: d) (auto simp: orIgnoreGroup_wf)

lemma orIgnoreGroups:
  fixes d names now
  defines "d' \<equiv> foldl (orIgnoreGroup now) d names"
  shows "db_tunnels d' = db_tunnels d" "db_members d' = db_members d" "db_legacyGroups d' = db_legacyGroups d"
    "g_Name ` set (db_groups d') = g_Name ` set (db_groups d) \<union> set names" "set (db_groups d) \<subseteq> set (db_groups d')"
proof -
  have step: "db_tunnels (orIgnoreGroup now d n) = db_tunnels d" "db_members (orIgnoreGroup now d n) = db_members d"
      "db_legacyGroups (orIgnoreGroup now d n) = db_legacyGroups d" "set (db_groups d) \<subseteq> set (db_groups (orIgnoreGroup now d n))"
      "g_Name ` set (db_groups (orIgnoreGroup now d n)) = insert n (g_Name ` set (db_groups d))" for d n
    by (auto simp: orIgnoreGroup_def list_ex_iff)
  show "db_tunnels d' = db_tunnels d" "db_members d' = db_members d" "db_legacyGroups d' = db_legacyGroups d"
    "g_Name ` set (db_groups d') = g_Name ` set (db_groups d) \<union> set names"
    unfolding d'_def by (induction names arbitrary: d) (use step in auto)
  show "set (db_groups d) \<subseteq> set (db_groups d')"
    unfolding d'_def
  proof (induction names arbitrary: d)
    case (Cons n ns)
    show ?case using order_trans [OF step(4) Cons.IH] by simp
  qed simp
qed

lemma orIgnoreMembers:
  fixes d ms
  defines "d' \<equiv> foldl orIgnoreMember d ms"
  shows "db_tunnels d' = db_tunnels d" "db_groups d' = db_groups d" "db_legacyGroups d' = db_legacyGroups d"
    "set (db_members d') = set (db_members d) \<union> set ms"
proof -
  have step: "db_tunnels (orIgnoreMember d m) = db_tunnels d" "db_groups (orIgnoreMember d m) = db_groups d"
      "db_legacyGroups (orIgnoreMember d m) = db_legacyGroups d"
      "set (db_members (orIgnoreMember d m)) = insert m (set (db_members d))" for d m
    by (auto simp: orIgnoreMember_def)
  show "db_tunnels d' = db_tunnels d" "db_groups d' = db_groups d" "db_legacyGroups d' = db_legacyGroups d"
    "set (db_members d') = set (db_members d) \<union> set ms"
    unfolding d'_def by (induction ms arbitrary: d) (use step in auto)
qed

lemma orIgnoreMembers_wf:
  assumes "wf_db d" "\<And>t g. (t, g) \<in> set ms \<Longrightarrow> t \<in> t_ID ` set (db_tunnels d) \<and> g \<in> g_ID ` set (db_groups d)"
  shows "wf_db (foldl orIgnoreMember d ms)"
  using assms
proof (induction ms arbitrary: d)
  case (Cons m ms)
  have "wf_db (orIgnoreMember d m)" "db_tunnels (orIgnoreMember d m) = db_tunnels d" "db_groups (orIgnoreMember d m) = db_groups d"
    using Cons.prems by (auto simp: orIgnoreMember_def wf_db_def wf_members_def)
  then show ?case using Cons.IH [of "orIgnoreMember d m"] Cons.prems(2) by auto
qed simp

lemma set_distinctRows [simp]: "set (distinctRows xs) = set xs"
  by (simp add: distinctRows_def)

lemma wf_clearOldGroups: "wf_db (clearOldGroups d) = wf_db d"
  by (simp add: clearOldGroups_def wf_db_def wf_members_def)

text \<open>Membership by name.\<close>

lemma set_map_filter: "set (List.map_filter f xs) = {y. \<exists>x\<in>set xs. f x = Some y}"
  by (force simp: List.map_filter_def)

lemma in_groupNames:
  assumes "wf_db d"
  shows "n \<in> set (groupNames d k) \<longleftrightarrow> (\<exists>g\<in>set (db_groups d). g_Name g = n \<and> (k, g_ID g) \<in> set (db_members d))"
proof -
  have look: "lookupRow g_ID i (db_groups d) = Some g \<longleftrightarrow> g \<in> set (db_groups d) \<and> g_ID g = i" for i g
    using group_table.lookup_distinct assms by (auto simp: wf_db_def wf_table_def)
  have "n \<in> set (groupNames d k) \<longleftrightarrow>
      (\<exists>g i. g_Name g = n \<and> (k, i) \<in> set (db_members d) \<and> lookupRow g_ID i (db_groups d) = Some g)"
    unfolding groupNames_def set_map set_sort set_map_filter image_iff Bex_def mem_Collect_eq
    by (auto split: if_splits)
  then show ?thesis by (auto simp: look)
qed

definition groupsMoved :: "time \<Rightarrow> db \<Rightarrow> db" where
  "groupsMoved now d = clearOldGroups (insertOldMembers (insertOldGroups now d))"

definition movedMembers :: "db \<Rightarrow> (int \<times> int) set" where
  "movedMembers d = {(t_ID t, g_ID g) |t g. t \<in> set (db_tunnels d) \<and> g \<in> set (db_groups d) \<and>
     g_Name g = TrimSQL (oldGroup d (t_ID t)) \<and> TrimSQL (oldGroup d (t_ID t)) \<noteq> []}"

lemma insertOldMembers:
  "db_tunnels (insertOldMembers d) = db_tunnels d" "db_groups (insertOldMembers d) = db_groups d"
  "db_legacyGroups (insertOldMembers d) = db_legacyGroups d"
  "set (db_members (insertOldMembers d)) = set (db_members d) \<union> movedMembers d"
  "wf_db d \<Longrightarrow> wf_db (insertOldMembers d)"
  unfolding insertOldMembers_def
  by (simp_all add: orIgnoreMembers) (auto simp: movedMembers_def intro!: orIgnoreMembers_wf)

lemma insertOldGroups:
  "db_tunnels (insertOldGroups now d) = db_tunnels d" "db_members (insertOldGroups now d) = db_members d"
  "oldGroup (insertOldGroups now d) = oldGroup d" "wf_db d \<Longrightarrow> wf_db (insertOldGroups now d)"
  "set (db_groups d) \<subseteq> set (db_groups (insertOldGroups now d))"
  "t \<in> set (db_tunnels d) \<Longrightarrow> TrimSQL (oldGroup d (t_ID t)) \<noteq> [] \<Longrightarrow>
     TrimSQL (oldGroup d (t_ID t)) \<in> g_Name ` set (db_groups (insertOldGroups now d))"
  unfolding insertOldGroups_def
  by (simp_all add: orIgnoreGroups orIgnoreGroups_wf oldGroup_def fun_eq_iff)

lemma groupsMoved:
  assumes "wf_db d"
  shows "wf_db (groupsMoved now d)" "db_tunnels (groupsMoved now d) = db_tunnels d"
    "t \<in> set (db_tunnels d) \<Longrightarrow> set (groupNames (groupsMoved now d) (t_ID t)) =
       set (groupNames d (t_ID t)) \<union> ({TrimSQL (oldGroup d (t_ID t))} - {[]})"
proof -
  let ?d1 = "insertOldGroups now d"
  note d1 = insertOldGroups [where now = now and d = d]
  have wf1: "wf_db ?d1" using d1(4) assms .
  show wf: "wf_db (groupsMoved now d)"
    unfolding groupsMoved_def wf_clearOldGroups by (rule insertOldMembers(5) [OF wf1])
  show "db_tunnels (groupsMoved now d) = db_tunnels d"
    by (simp add: groupsMoved_def clearOldGroups_def insertOldMembers d1)
  assume t: "t \<in> set (db_tunnels d)"
  have inj: "inj_on g_ID (set (db_groups ?d1))"
    using wf1 by (auto simp: wf_db_def wf_table_def distinct_map)
  have old: "g \<in> set (db_groups d)" if "g \<in> set (db_groups ?d1)" "(k, g_ID g) \<in> set (db_members d)" for g k
  proof -
    have "g_ID g \<in> g_ID ` set (db_groups d)" using that(2) assms by (auto simp: wf_db_def wf_members_def)
    then obtain h where "h \<in> set (db_groups d)" "g_ID h = g_ID g" by auto
    then show ?thesis using inj_onD [OF inj, of h g] that(1) d1(5) by auto
  qed
  have moved: "(t_ID t, g_ID g) \<in> movedMembers ?d1 \<longleftrightarrow> g_Name g = TrimSQL (oldGroup d (t_ID t)) \<and> g_Name g \<noteq> []"
    if g: "g \<in> set (db_groups ?d1)" for g
  proof
    assume "(t_ID t, g_ID g) \<in> movedMembers ?d1"
    then obtain t' :: tunnel and g' where "t_ID t' = t_ID t" "g_ID g' = g_ID g" "g' \<in> set (db_groups ?d1)"
        "g_Name g' = TrimSQL (oldGroup d (t_ID t'))" "g_Name g' \<noteq> []"
      unfolding movedMembers_def d1(3) mem_Collect_eq prod.inject by metis
    then show "g_Name g = TrimSQL (oldGroup d (t_ID t)) \<and> g_Name g \<noteq> []"
      using g inj_onD [OF inj, of g' g] by auto
  next
    assume "g_Name g = TrimSQL (oldGroup d (t_ID t)) \<and> g_Name g \<noteq> []"
    then show "(t_ID t, g_ID g) \<in> movedMembers ?d1"
      unfolding movedMembers_def d1(1,3) mem_Collect_eq using g t by (intro exI [of _ t] exI [of _ g]) auto
  qed
  have "n \<in> set (groupNames (groupsMoved now d) (t_ID t)) \<longleftrightarrow>
      (\<exists>g\<in>set (db_groups ?d1). g_Name g = n \<and> ((t_ID t, g_ID g) \<in> set (db_members d) \<or> n = TrimSQL (oldGroup d (t_ID t)) \<and> n \<noteq> []))" for n
    unfolding in_groupNames [OF wf]
    by (auto simp: groupsMoved_def clearOldGroups_def insertOldMembers d1(2) moved)
  moreover have "(\<exists>g\<in>set (db_groups ?d1). g_Name g = n \<and> ((t_ID t, g_ID g) \<in> set (db_members d) \<or> n = TrimSQL (oldGroup d (t_ID t)) \<and> n \<noteq> [])) \<longleftrightarrow> n \<in> set (groupNames d (t_ID t)) \<or> n = TrimSQL (oldGroup d (t_ID t)) \<and> n \<noteq> []" for n
  proof (cases "n = TrimSQL (oldGroup d (t_ID t)) \<and> n \<noteq> []")
    case True
    then have "n \<in> g_Name ` set (db_groups ?d1)" using d1(6) [OF t] by auto
    with True show ?thesis by auto
  next
    case False
    then show ?thesis unfolding in_groupNames [OF assms] using old subsetD [OF d1(5)] by metis
  qed
  ultimately show "set (groupNames (groupsMoved now d) (t_ID t)) = set (groupNames d (t_ID t)) \<union> ({TrimSQL (oldGroup d (t_ID t))} - {[]})"
    by blast
qed

lemma migrateLegacyRoutingGroups_Inr:
  assumes "migrateLegacyRoutingGroups s = (Inr x, s')"
  shows "if db_legacyGroups (st_db s) = None then st_db s' = st_db s else \<exists>now. st_db s' = groupsMoved now (st_db s)"
  using assms unfolding migrateLegacyRoutingGroups_def tableColumns_def
  by (auto simp: andThen_Inr oldColumns_def groupsMoved_def dest!: Now_Inr query_Inr exec_Inr elim!: tx_Inr split: if_splits) metis+

text \<open>
  An upgrade from a release in which a tunnel had one routing group in a column: a success keeps the integrity of
  the tables and the tunnels, and every tunnel is in the groups it was in and in the one its column named.
\<close>

lemma legacy_groups_migrated:
  assumes "migrateLegacyRoutingGroups s = (Inr x, s')" "wf_db (st_db s)"
  shows "wf_db (st_db s')" "db_tunnels (st_db s') = db_tunnels (st_db s)"
    "t \<in> set (db_tunnels (st_db s)) \<Longrightarrow> set (groupNames (st_db s') (t_ID t)) =
       set (groupNames (st_db s) (t_ID t)) \<union> ({TrimSQL (oldGroup (st_db s) (t_ID t))} - {[]})"
proof -
  have trim: "TrimSQL [] = []" by (simp add: TrimSQL_def)
  have "st_db s' = st_db s \<and> db_legacyGroups (st_db s) = None \<or> (\<exists>now. st_db s' = groupsMoved now (st_db s))"
    using migrateLegacyRoutingGroups_Inr [OF assms(1)] by presburger
  then show "wf_db (st_db s')" "db_tunnels (st_db s') = db_tunnels (st_db s)"
    "t \<in> set (db_tunnels (st_db s)) \<Longrightarrow> set (groupNames (st_db s') (t_ID t)) =
       set (groupNames (st_db s) (t_ID t)) \<union> ({TrimSQL (oldGroup (st_db s) (t_ID t))} - {[]})"
    using groupsMoved [OF assms(2)] assms(2) by (auto simp: oldGroup_def trim)
qed

subsection \<open>Properties\<close>

text \<open>
  C33. An upgrade from a release with a single connection: when the conversion succeeds on a database that has
  the old settings, a prefix there and no connection yet, there is exactly one connection, with every value of
  the old row, all tunnels without a connection belong to it, and nothing else but the audit log differs. On
  every other database, and whenever it fails, it changes nothing; it keeps the integrity of the tables, and
  after a success running it again changes nothing.
\<close>

theorem legacy_upstream_migrated:
  assumes "migrateLegacyUpstream s = (r, s')"
  shows "(is_ok r \<longrightarrow> pending (st_db s) g \<longrightarrow> converted g (st_db s) (st_db s'))
    \<and> (\<not> is_ok r \<or> (\<nexists>g. pending (st_db s) g) \<longrightarrow> st_db s' = st_db s)
    \<and> (wf_db (st_db s) \<longrightarrow> wf_db (st_db s'))
    \<and> (is_ok r \<longrightarrow> st_db (snd (migrateLegacyUpstream s')) = st_db s')"
proof -
  have "st_db (snd (migrateLegacyUpstream s')) = st_db s'" if "is_ok r"
    using assms that migrateLegacyUpstream_settled [of s'] converted_settled
    by (metis migrateLegacyUpstream_cases prod.collapse)
  moreover have "wf_db (st_db s) \<longrightarrow> wf_db (st_db s')"
    using keepsD [OF keeps_migrateLegacyUpstream _ assms] by blast
  ultimately show ?thesis
    using assms by (elim migrateLegacyUpstream_cases) (auto dest: pending_unique)
qed

text \<open>
  The conversion leaves the old columns in place and decides by the number of connections alone: when the
  converted connection is later deleted and the daemon starts again, the connection is back, with the prefix,
  the keys and the interface of the old settings.
\<close>

theorem deleted_upstream_returns:
  assumes "pending (st_db s) g" "migrateLegacyUpstream s = (Inr x, s1)"
    "Store_DeleteUpstream k admin s1 = (Inr y, s2)" "migrateLegacyUpstream s2 = (Inr z, s3)"
  shows "db_upstreams (st_db s2) = [] \<and> (\<exists>u. db_upstreams (st_db s3) = [u] \<and> carries g u)"
proof -
  obtain u where u: "db_upstreams (st_db s1) = [u]" "db_legacy (st_db s1) = Some g"
    using assms(1,2) by (elim migrateLegacyUpstream_cases) (auto simp: converted_def pending_def)
  then have s2: "db_upstreams (st_db s2) = []" "db_legacy (st_db s2) = Some g"
    using deleteUpstream_rows [OF assms(3)] by (auto simp: lookupRow_def deleteRow_def split: if_splits)
  then have "pending (st_db s2) g" using assms(1) by (simp add: pending_def)
  with assms(4) have "converted g (st_db s2) (st_db s3)"
    by (elim migrateLegacyUpstream_cases) (auto dest: pending_unique)
  with s2 show ?thesis by (auto simp: converted_def)
qed

subsection \<open>Witnesses\<close>

definition old_settings :: legacy_settings where
  "old_settings = \<lparr>lg_V6 = ''2001:db8::/48'', lg_V4 = [], lg_EndpointHost = ''h'', lg_EndpointPort = 51820,
     lg_InterfaceName = [], lg_ServerAddress = ''2001:db8::1/64'', lg_ServerPrivateKey = ''k'', lg_MTU = 1420,
     lg_Keepalive = 25, lg_MinPrefix = 48, lg_MaxPrefix = 64, lg_DefaultPrefix = 56, lg_UpstreamInterface = ''eth0'',
     lg_Mode = None, lg_Transport = None\<rparr>"

definition old_store :: store where
  "old_store = quiet_store\<lparr>st_db := freshDB\<lparr>db_legacy := Some old_settings,
     db_tunnels := [zeroTunnel\<lparr>t_ID := 1, t_PublicKey := ''k'', t_V6CIDR := ''2001:db8:0:1::/64''\<rparr>]\<rparr>\<rparr>"

definition emptied_store :: store where
  "emptied_store = old_store\<lparr>st_db := (st_db old_store)\<lparr>db_tunnels := []\<rparr>\<rparr>"

lemma old_pending: "pending (st_db old_store) old_settings" "pending (st_db emptied_store) old_settings"
proof -
  have "TrimSpace (lg_V6 old_settings) \<noteq> []" by code_simp
  then show "pending (st_db old_store) old_settings" "pending (st_db emptied_store) old_settings"
    by (simp_all add: pending_def old_store_def emptied_store_def freshDB_def)
qed

theorem legacy_upstream_migrated_witness:
  "pending (st_db old_store) old_settings \<and> converted old_settings (st_db old_store) (st_db (snd (migrateLegacyUpstream old_store)))"
proof -
  have "is_ok (fst (migrateLegacyUpstream old_store))" by code_simp
  then show ?thesis using legacy_upstream_migrated [OF prod.collapse [symmetric], of old_store] old_pending by blast
qed

lemma ok_run: "is_ok (fst r) \<Longrightarrow> r = (Inr (), snd r)"
  by (cases r) (auto simp: is_ok_iff)

theorem deleted_upstream_returns_witness:
  "\<exists>s1 s2 s3 u. migrateLegacyUpstream emptied_store = (Inr (), s1) \<and> Store_DeleteUpstream 1 ''a'' s1 = (Inr (), s2) \<and>
     migrateLegacyUpstream s2 = (Inr (), s3) \<and> db_upstreams (st_db s2) = [] \<and> db_upstreams (st_db s3) = [u] \<and>
     carries old_settings u"
proof -
  let ?s1 = "snd (migrateLegacyUpstream emptied_store)"
  let ?s2 = "snd (Store_DeleteUpstream 1 ''a'' ?s1)"
  have "is_ok (fst (migrateLegacyUpstream emptied_store))" "is_ok (fst (Store_DeleteUpstream 1 ''a'' ?s1))"
      "is_ok (fst (migrateLegacyUpstream ?s2))"
    by code_simp+
  note r = this [THEN ok_run]
  from deleted_upstream_returns [OF old_pending(2) r] r show ?thesis by blast
qed

end
