(* ===== verification/Schema.thy ===== *)
theory Schema
  imports Migrations
begin

section \<open>Opening the database (the schema statements of internal/broker/store.go)\<close>

text \<open>
  \<open>Store.migrate\<close> runs on whatever database an earlier release left. The schema of a file is the columns of
  each table, the names of the indexes and whether the row of settings exists; \<open>datafile\<close> joins it to the rows. The statements are the code's,
  in its order: the batch that creates what does not exist yet, then the columns earlier releases lack, then
  the conversion of rows. Types, defaults and constraints of columns are in \<open>Database\<close> and \<open>Store\<close>.
\<close>

subsection \<open>Schema statements\<close>

record schema =
  sc_tables :: "string \<Rightarrow> string list option"
  sc_indexes :: "string list"
  sc_settings :: bool                              \<comment> \<open>whether the table settings has its row\<close>

datatype statement =
    CreateTable string "string list"               \<comment> \<open>CREATE TABLE IF NOT EXISTS\<close>
  | InsertSettings                                 \<comment> \<open>INSERT OR IGNORE INTO settings(id) VALUES(1)\<close>
  | CreateIndex string string "string list"        \<comment> \<open>CREATE INDEX IF NOT EXISTS ... ON\<close>
  | AddColumn string string                        \<comment> \<open>ALTER TABLE ... ADD COLUMN\<close>

fun runStatement :: "statement \<Rightarrow> (schema, unit) action" where
  "runStatement (CreateTable t cols) sc =
     (Inr (), if sc_tables sc t = None then sc\<lparr>sc_tables := (sc_tables sc)(t := Some cols)\<rparr> else sc)"
| "runStatement InsertSettings sc =
     (case sc_tables sc ''settings'' of
        None \<Rightarrow> (Inl (LibErr ''no such table: settings''), sc)
      | Some _ \<Rightarrow> (Inr (), sc\<lparr>sc_settings := True\<rparr>))"
| "runStatement (CreateIndex i t cols) sc =
     (if i \<in> set (sc_indexes sc) then (Inr (), sc)
      else case sc_tables sc t of
        None \<Rightarrow> (Inl (LibErr (''no such table: main.'' @ t)), sc)
      | Some have \<Rightarrow>
          (case filter (\<lambda>c. c \<notin> set have) cols of
             [] \<Rightarrow> (Inr (), sc\<lparr>sc_indexes := i # sc_indexes sc\<rparr>)
           | c # _ \<Rightarrow> (Inl (LibErr (''no such column: '' @ c)), sc)))"
| "runStatement (AddColumn t c) sc =
     (case sc_tables sc t of
        None \<Rightarrow> (Inl (LibErr (''no such table: '' @ t)), sc)
      | Some have \<Rightarrow>
          if c \<in> set have then (Inl (LibErr (''duplicate column name: '' @ c)), sc)
          else (Inr (), sc\<lparr>sc_tables := (sc_tables sc)(t := Some (have @ [c]))\<rparr>))"

definition schemaStatements :: "statement list" where
  "schemaStatements =
     [CreateTable ''settings''
        [''id'', ''v4_nat'', ''v4_warp'', ''v4_pool'', ''default_dns'', ''inter_tunnel_policy''],
      InsertSettings,
      CreateTable ''upstreams''
        [''id'', ''name'', ''v6_cidr'', ''mode'', ''public_v4'', ''egress_interface'',
         ''interface_name'', ''endpoint_host'', ''endpoint_port'', ''server_address'',
         ''server_private_key'', ''transport_address'', ''mtu'', ''keepalive'', ''min_prefix'',
         ''max_prefix'', ''default_prefix'', ''v4_mode'', ''created_at'', ''updated_at''],
      CreateTable ''warp_account''
        [''id'', ''private_key'', ''peer_public_key'', ''ipv4_address'', ''endpoint'', ''device_id'',
         ''account_id'', ''account_type'', ''created_at'', ''last_trace'', ''last_test_at''],
      CreateTable ''admin_users''
        [''id'', ''username'', ''password_hash'', ''created_at''],
      CreateTable ''tunnels''
        [''id'', ''upstream_id'', ''label'', ''public_key'', ''preshared_key'', ''private_key'',
         ''allocated_v6_cidr'', ''allocated_v4_internal'', ''v4_enabled'', ''v4_mode'', ''quota_gib'',
         ''quota_used_bytes'', ''quota_period'', ''quota_disabled'', ''dns_override'', ''enabled'',
         ''mtu_override'', ''status'', ''last_error'', ''last_handshake'', ''rx_bytes'', ''tx_bytes'',
         ''created_at'', ''updated_at''],
      CreateIndex ''tunnels_upstream'' ''tunnels'' [''upstream_id''],
      CreateTable ''routing_groups''
        [''id'', ''name'', ''created_at''],
      CreateTable ''tunnel_routing_groups''
        [''tunnel_id'', ''group_id''],
      CreateTable ''audit_log''
        [''id'', ''admin'', ''action'', ''tunnel_id'', ''detail'', ''created_at''],
      CreateIndex ''audit_created'' ''audit_log'' [''created_at'']]"

definition alterStatements :: "statement list" where
  "alterStatements =
     [AddColumn ''settings'' ''v4_warp'',
      AddColumn ''settings'' ''inter_tunnel_policy'',
      AddColumn ''tunnels'' ''last_handshake'',
      AddColumn ''tunnels'' ''rx_bytes'',
      AddColumn ''tunnels'' ''tx_bytes'',
      AddColumn ''tunnels'' ''v4_mode'',
      AddColumn ''tunnels'' ''quota_gib'',
      AddColumn ''tunnels'' ''quota_used_bytes'',
      AddColumn ''tunnels'' ''quota_period'',
      AddColumn ''tunnels'' ''quota_disabled'',
      AddColumn ''tunnels'' ''upstream_id'']"

subsection \<open>Opening a file\<close>

record datafile =
  df_schema :: schema
  df_store :: store

abbreviation onColumns :: "(schema, 'a) action \<Rightarrow> (datafile, 'a) action" where
  "onColumns m \<equiv> zoom df_schema df_schema_update m"

abbreviation onRows :: "(store, 'a) action \<Rightarrow> (datafile, 'a) action" where
  "onRows m \<equiv> zoom df_store df_store_update m"

text \<open>A statement, which the driver may refuse for reasons of its own.\<close>

definition execStatement :: "statement \<Rightarrow> (datafile, unit) action" where
  "execStatement st = andThen (onRows (query (\<lambda>_. ()))) (\<lambda>_. onColumns (runStatement st))"

definition alterColumn :: "statement \<Rightarrow> (datafile, unit) action" where
  "alterColumn st =
     andThen (attempt (execStatement st)) (\<lambda>r.
     case r of
       Inl e \<Rightarrow> if \<not> ContainsStr (driverText e) ''duplicate column'' then throw e else return ()
     | Inr _ \<Rightarrow> return ())"

definition Store_migrate :: "(datafile, unit) action" where
  "Store_migrate =
     andThen (each execStatement schemaStatements) (\<lambda>_.
     andThen (each alterColumn alterStatements) (\<lambda>_.
     onRows migrateRows))"

text \<open>
  The directory and the connection are the file system's and the driver's: their errors, if any, are parameters.
  The result is the opened store.
\<close>

definition OpenStore :: "error option \<Rightarrow> error option \<Rightarrow> (datafile, store) action" where
  "OpenStore mkdirErr openErr =
     andThen (check mkdirErr) (\<lambda>_.
     andThen (check openErr) (\<lambda>_.
     andThen Store_migrate (\<lambda>_.
     reads df_store)))"

subsection \<open>Files of releases with a single connection\<close>

text \<open>The tunnels of such a file have no column \<open>upstream_id\<close>.\<close>

definition single_upstream :: "schema \<Rightarrow> bool" where
  "single_upstream sc \<longleftrightarrow> ''tunnels_upstream'' \<notin> set (sc_indexes sc) \<and>
     (case sc_tables sc ''tunnels'' of None \<Rightarrow> False | Some have \<Rightarrow> ''upstream_id'' \<notin> set have)"

lemma single_upstream_kept:
  assumes "single_upstream sc" "runStatement st sc = (r, sc')" "st \<in> set schemaStatements"
  shows "single_upstream sc'"
  using assms by (auto simp: schemaStatements_def single_upstream_def split: if_splits option.splits list.splits)

lemma index_refused:
  "single_upstream sc \<Longrightarrow> \<not> is_ok (fst (runStatement (CreateIndex ''tunnels_upstream'' ''tunnels'' [''upstream_id'']) sc))"
  by (auto simp: single_upstream_def split: option.splits)

lemma execStatement_cases:
  assumes "execStatement st f = (r, f')"
  obtains (refused) e where "r = Inl e" "df_schema f' = df_schema f" "st_db (df_store f') = st_db (df_store f)"
    | (ran) "runStatement st (df_schema f) = (r, df_schema f')" "st_db (df_store f') = st_db (df_store f)"
  using assms
  by (cases "st_fault (df_store f) (st_calls (df_store f))")
    (auto simp: execStatement_def andThen_def zoom_def query_def sql_def Let_def split: prod.splits)

lemma each_single_upstream:
  assumes "single_upstream (df_schema f)" "each execStatement sts f = (r, f')"
    "set sts \<subseteq> set schemaStatements"
  shows "single_upstream (df_schema f') \<and> st_db (df_store f') = st_db (df_store f) \<and>
    (CreateIndex ''tunnels_upstream'' ''tunnels'' [''upstream_id''] \<in> set sts \<longrightarrow> \<not> is_ok r)"
  using assms
proof (induction sts arbitrary: f)
  case (Cons st sts)
  obtain r1 f1 where st: "execStatement st f = (r1, f1)" by fastforce
  have "single_upstream (df_schema f1) \<and> st_db (df_store f1) = st_db (df_store f) \<and>
      (st = CreateIndex ''tunnels_upstream'' ''tunnels'' [''upstream_id''] \<longrightarrow> \<not> is_ok r1)"
    using st Cons.prems(1,3) index_refused [OF Cons.prems(1)]
    by (elim execStatement_cases) (auto dest: single_upstream_kept)
  moreover have "r = Inl e \<and> f' = f1" if "r1 = Inl e" for e using Cons.prems(2) st that by simp
  moreover have "each execStatement sts f1 = (r, f')" if "r1 = Inr x" for x using Cons.prems(2) st that by simp
  ultimately show ?case using Cons.IH [of f1] Cons.prems(3) by (cases r1) auto
qed simp

text \<open>
  C35. A file of a release with a single connection, whose tunnels have no column \<open>upstream_id\<close>, is never
  opened: the batch that creates the tables builds an index on that column before the statement that adds it,
  so the migration stops with an error, whatever the driver does. It changes no row, and the file is still of
  that kind, so every later start fails too.
\<close>

theorem single_upstream_upgrade_refused:
  assumes "single_upstream (df_schema f)" "OpenStore mkdirErr openErr f = (r, f')"
  shows "\<not> is_ok r \<and> st_db (df_store f') = st_db (df_store f) \<and> single_upstream (df_schema f')"
proof -
  obtain r1 f1 where run: "each execStatement schemaStatements f = (r1, f1)" by fastforce
  have "CreateIndex ''tunnels_upstream'' ''tunnels'' [''upstream_id''] \<in> set schemaStatements"
    by (simp add: schemaStatements_def)
  then have f1: "\<not> is_ok r1" "single_upstream (df_schema f1)" "st_db (df_store f1) = st_db (df_store f)"
    using each_single_upstream [OF assms(1) run] by auto
  then obtain e where "r1 = Inl e" by (cases r1) auto
  then have "Store_migrate f = (Inl e, f1)" using run by (simp add: Store_migrate_def)
  with assms(2) f1 show ?thesis
    using assms(1) by (auto simp: OpenStore_def andThen_def split: option.splits)
qed

subsection \<open>Every other file is opened\<close>

text \<open>A driver that fails no call.\<close>

definition quiet :: "store \<Rightarrow> bool" where
  "quiet s \<longleftrightarrow> (\<forall>n. \<not> st_fault s n)"

lemma quiet_kept [simp]:
  "quiet (s\<lparr>st_calls := n\<rparr>) = quiet s" "quiet (s\<lparr>st_db := d\<rparr>) = quiet s" "quiet (s\<lparr>st_ticks := n\<rparr>) = quiet s"
  by (simp_all add: quiet_def)

lemma sql_quiet:
  "quiet s \<Longrightarrow> sql g s = (fst (g (st_named s) (st_db s)), s\<lparr>st_calls := Suc (st_calls s), st_db := snd (g (st_named s) (st_db s))\<rparr>)"
  by (simp add: sql_def quiet_def Let_def split: prod.split)

lemmas quiet_run = query_def queryRow_def exec_def sql_quiet Now_def tx_def rollback_def

lemma insertLegacy_quiet:
  assumes "quiet s" "db_upstreams (st_db s) = []"
  shows "is_ok (fst (insertLegacy u now s))" "quiet (snd (insertLegacy u now s))"
  using assms by (simp_all add: insertLegacy_def addRow_def auditRow_def clashes_def upstream_uniques_def quiet_run Let_def)

lemma migrateLegacyUpstream_quiet:
  assumes "quiet s"
  shows "is_ok (fst (migrateLegacyUpstream s)) \<and> quiet (snd (migrateLegacyUpstream s))"
  using assms insertLegacy_quiet
  by (auto simp: migrateLegacyUpstream_def tableColumns_def quiet_run attempt_def andThen_def oldColumns_def split: option.splits)

lemma migrateLegacyRoutingGroups_quiet:
  assumes "quiet s"
  shows "is_ok (fst (migrateLegacyRoutingGroups s)) \<and> quiet (snd (migrateLegacyRoutingGroups s))"
  using assms by (simp add: migrateLegacyRoutingGroups_def tableColumns_def quiet_run andThen_def)

text \<open>
  The columns the code needs, and the files the migration brings up to date: a table that exists lacks at most
  columns that are added later, \<open>upstream_id\<close> not among them. A new file has no table at all.
\<close>

fun created :: "statement list \<Rightarrow> (string \<times> string list) list" where
  "created [] = []"
| "created (CreateTable t cols # sts) = (t, cols) # created sts"
| "created (_ # sts) = created sts"

definition addable :: "string \<Rightarrow> string set" where
  "addable t = {c. AddColumn t c \<in> set alterStatements \<and> c \<noteq> ''upstream_id''}"

definition complete :: "schema \<Rightarrow> bool" where
  "complete sc \<longleftrightarrow>
     (\<forall>(t, cols) \<in> set (created schemaStatements). \<exists>have. sc_tables sc t = Some have \<and> set cols \<subseteq> set have)"

definition upgradable :: "schema \<Rightarrow> bool" where
  "upgradable sc \<longleftrightarrow> (\<forall>(t, cols) \<in> set (created schemaStatements).
     \<forall>have. sc_tables sc t = Some have \<longrightarrow> set cols - addable t \<subseteq> set have)"

text \<open>Every index is on a table created before it and on columns that are not added later.\<close>

fun ready :: "string set \<Rightarrow> statement list \<Rightarrow> bool" where
  "ready T [] = True"
| "ready T (CreateTable t cols # sts) = ((t, cols) \<in> set (created schemaStatements) \<and> ready (insert t T) sts)"
| "ready T (InsertSettings # sts) = (''settings'' \<in> T \<and> ready T sts)"
| "ready T (CreateIndex i t ics # sts) =
     (t \<in> T \<and> (\<exists>(t', cols) \<in> set (created schemaStatements). t' = t \<and> set ics \<subseteq> set cols - addable t) \<and> ready T sts)"
| "ready T (AddColumn t c # sts) = False"

lemma created_schema:
  "distinct (map fst (created schemaStatements))" "ready {} schemaStatements"
  "AddColumn t c \<in> set alterStatements \<Longrightarrow> t \<in> fst ` set (created schemaStatements)"
  by (auto simp: schemaStatements_def alterStatements_def addable_def)

lemma execStatement_quiet:
  "quiet (df_store f) \<Longrightarrow> execStatement st f =
     (fst (runStatement st (df_schema f)),
      f\<lparr>df_store := (df_store f)\<lparr>st_calls := Suc (st_calls (df_store f))\<rparr>, df_schema := snd (runStatement st (df_schema f))\<rparr>)"
  by (simp add: execStatement_def zoom_def quiet_run split: prod.split)

text \<open>What a run of statements leaves of the file: the rows, the driver, and the columns there were.\<close>

definition extends :: "datafile \<Rightarrow> datafile \<Rightarrow> bool" where
  "extends f f' \<longleftrightarrow> quiet (df_store f') \<and> st_db (df_store f') = st_db (df_store f) \<and>
     (sc_settings (df_schema f) \<longrightarrow> sc_settings (df_schema f')) \<and>
     (\<forall>t have. sc_tables (df_schema f) t = Some have \<longrightarrow>
        (\<exists>have'. sc_tables (df_schema f') t = Some have' \<and> set have \<subseteq> set have'))"

lemma extends_trans: "extends f g \<Longrightarrow> extends g h \<Longrightarrow> extends f h"
  unfolding extends_def by (simp, meson order_trans)

lemma extends_refl: "quiet (df_store f) \<Longrightarrow> extends f f"
  by (simp add: extends_def)

lemma extends_run:
  assumes "quiet (df_store f)"
  shows "extends f (snd (execStatement st f))"
  using assms unfolding execStatement_quiet [OF assms]
  by (cases st) (auto simp: extends_def split: option.split list.split)

lemma extends_dom: "extends f f' \<Longrightarrow> dom (sc_tables (df_schema f)) \<subseteq> dom (sc_tables (df_schema f'))"
  unfolding extends_def by (auto; meson)

lemma upgradableD:
  "upgradable sc \<Longrightarrow> (t, cols) \<in> set (created schemaStatements) \<Longrightarrow> sc_tables sc t = Some have1 \<Longrightarrow> set cols - addable t \<subseteq> set have1"
  unfolding upgradable_def by blast

lemma upgradable_create:
  assumes "upgradable sc" "(t, cols) \<in> set (created schemaStatements)"
  shows "upgradable (sc\<lparr>sc_tables := (sc_tables sc)(t := Some cols)\<rparr>)"
  unfolding upgradable_def
proof (intro ballI, clarify)
  fix t' cols' have1 c
  assume t': "(t', cols') \<in> set (created schemaStatements)" and c: "c \<in> set cols'" "c \<notin> addable t'"
    and h: "sc_tables (sc\<lparr>sc_tables := (sc_tables sc)(t := Some cols)\<rparr>) t' = Some have1"
  show "c \<in> set have1"
  proof (cases "t' = t")
    case True
    then have "cols' = cols" using eq_key_imp_eq_value [OF created_schema(1)] t' assms(2) by blast
    with True h c show ?thesis by simp
  next
    case False
    then show ?thesis using upgradableD [OF assms(1) t'] h c by auto
  qed
qed

lemma index_columns:
  assumes "upgradable sc" "sc_tables sc t = Some have" "(t, cols) \<in> set (created schemaStatements)" "set ics \<subseteq> set cols - addable t"
  shows "filter (\<lambda>c. c \<notin> set have) ics = []"
  using assms by (fastforce simp: upgradable_def filter_empty_conv)

lemma ready_run:
  assumes "upgradable sc" "T \<subseteq> dom (sc_tables sc)" "ready T (st # sts)"
  shows "fst (runStatement st sc) = Inr () \<and> upgradable (snd (runStatement st sc)) \<and>
    T \<union> fst ` set (created [st]) \<subseteq> dom (sc_tables (snd (runStatement st sc))) \<and> ready (T \<union> fst ` set (created [st])) sts"
proof (cases st)
  case (CreateIndex i t ics)
  then obtain cols where c: "(t, cols) \<in> set (created schemaStatements)" "set ics \<subseteq> set cols - addable t" "t \<in> T"
    using assms(3) by auto
  then obtain have1 where "sc_tables sc t = Some have1" using assms(2) by auto
  with index_columns [OF assms(1) this c(1,2)] show ?thesis
    using assms CreateIndex by (auto simp: upgradable_def)
next
  case InsertSettings
  then obtain have1 where "sc_tables sc ''settings'' = Some have1" using assms(2,3) by auto
  then show ?thesis using assms InsertSettings by (auto simp: upgradable_def)
qed (use assms upgradable_create in auto)

lemma settings_row: "fst (runStatement InsertSettings sc) = Inr () \<Longrightarrow> sc_settings (snd (runStatement InsertSettings sc))"
  by (auto split: option.splits)

lemma each_ready:
  assumes "quiet (df_store f)" "upgradable (df_schema f)" "T \<subseteq> dom (sc_tables (df_schema f))" "ready T sts"
  shows "\<exists>f'. each execStatement sts f = (Inr (), f') \<and> extends f f' \<and> upgradable (df_schema f') \<and>
    fst ` set (created sts) \<subseteq> dom (sc_tables (df_schema f')) \<and> (InsertSettings \<in> set sts \<longrightarrow> sc_settings (df_schema f'))"
  using assms
proof (induction sts arbitrary: f T)
  case Nil
  then show ?case by (auto intro: extends_refl)
next
  case (Cons st sts)
  let ?f = "snd (execStatement st f)"
  let ?T = "T \<union> fst ` set (created [st])"
  note run = ready_run [OF Cons.prems(2-4)] and q = execStatement_quiet [OF Cons.prems(1), of st]
  have f: "execStatement st f = (Inr (), ?f)" "upgradable (df_schema ?f)" "?T \<subseteq> dom (sc_tables (df_schema ?f))" "ready ?T sts"
    using run by (simp_all add: q)
  have ext: "extends f ?f" by (rule extends_run [OF Cons.prems(1)])
  then obtain f' where f': "each execStatement sts ?f = (Inr (), f')" "extends ?f f'" "upgradable (df_schema f')"
      "fst ` set (created sts) \<subseteq> dom (sc_tables (df_schema f'))" "InsertSettings \<in> set sts \<longrightarrow> sc_settings (df_schema f')"
    using Cons.IH [OF _ f(2-4)] by (auto simp: extends_def)
  have "sc_settings (df_schema ?f)" if "st = InsertSettings" using settings_row [of "df_schema f"] f(1) that unfolding q by simp
  then have row: "sc_settings (df_schema f')" if "st = InsertSettings" using that f'(2) by (simp add: extends_def)
  have "fst ` set (created (st # sts)) \<subseteq> fst ` set (created [st]) \<union> fst ` set (created sts)" by (cases st) auto
  moreover have "fst ` set (created [st]) \<subseteq> dom (sc_tables (df_schema f'))" using f(3) extends_dom [OF f'(2)] by blast
  ultimately have "fst ` set (created (st # sts)) \<subseteq> dom (sc_tables (df_schema f'))" using f'(4) by blast
  then show ?case using f(1) f' extends_trans [OF ext f'(2)] row by (intro exI [of _ f']) auto
qed

text \<open>The columns of earlier releases: an existing one is an error the code ignores.\<close>

lemma duplicate_ignored: "ContainsStr (driverText (LibErr (''duplicate column name: '' @ c))) ''duplicate column''"
  by (simp add: HasPrefix_def)

lemma alterColumn_quiet:
  assumes "quiet (df_store f)" "t \<in> dom (sc_tables (df_schema f))"
  obtains f' have1 where "alterColumn (AddColumn t c) f = (Inr (), f')" "extends f f'"
    "sc_tables (df_schema f') t = Some have1" "c \<in> set have1"
proof -
  obtain have0 where t: "sc_tables (df_schema f) t = Some have0" using assms(2) by auto
  let ?f = "snd (execStatement (AddColumn t c) f)"
  have "alterColumn (AddColumn t c) f = (Inr (), ?f)"
    using t duplicate_ignored [of c] by (simp add: alterColumn_def attempt_def andThen_def execStatement_quiet [OF assms(1)])
  moreover have "sc_tables (df_schema ?f) t = Some (if c \<in> set have0 then have0 else have0 @ [c])"
    using t by (simp add: execStatement_quiet [OF assms(1)])
  ultimately show thesis using that [of ?f] extends_run [OF assms(1)] by simp
qed

lemma each_alter:
  assumes "quiet (df_store f)" "\<And>t c. AddColumn t c \<in> set sts \<Longrightarrow> t \<in> dom (sc_tables (df_schema f))"
    "\<And>st. st \<in> set sts \<Longrightarrow> \<exists>t c. st = AddColumn t c"
  shows "\<exists>f'. each alterColumn sts f = (Inr (), f') \<and> extends f f' \<and>
    (\<forall>t c. AddColumn t c \<in> set sts \<longrightarrow> (\<exists>have1. sc_tables (df_schema f') t = Some have1 \<and> c \<in> set have1))"
  using assms
proof (induction sts arbitrary: f)
  case Nil
  then show ?case by (auto intro: extends_refl)
next
  case (Cons st sts)
  obtain t c where st: "st = AddColumn t c" using Cons.prems(3) [of st] by auto
  then have "t \<in> dom (sc_tables (df_schema f))" using Cons.prems(2) [of t c] by simp
  from alterColumn_quiet [OF Cons.prems(1) this, of c]
  obtain f1 have1 where f1: "alterColumn st f = (Inr (), f1)" "extends f f1" "sc_tables (df_schema f1) t = Some have1" "c \<in> set have1"
    unfolding st by blast
  have "quiet (df_store f1)" using f1(2) by (simp add: extends_def)
  moreover have "t' \<in> dom (sc_tables (df_schema f1))" if "AddColumn t' c' \<in> set sts" for t' c'
    using Cons.prems(2) [of t' c'] that extends_dom [OF f1(2)] by auto
  moreover have "\<exists>t c. st' = AddColumn t c" if "st' \<in> set sts" for st' using Cons.prems(3) [of st'] that by simp
  ultimately obtain f' where f': "each alterColumn sts f1 = (Inr (), f')" "extends f1 f'"
      "\<forall>t c. AddColumn t c \<in> set sts \<longrightarrow> (\<exists>have1. sc_tables (df_schema f') t = Some have1 \<and> c \<in> set have1)"
    using Cons.IH [of f1] by blast
  have "\<exists>have2. sc_tables (df_schema f') t = Some have2 \<and> c \<in> set have2"
    using f'(2) f1(3,4) unfolding extends_def by blast
  then show ?case
    using f1(1) f'(1,3) extends_trans [OF f1(2) f'(2)] by (intro exI [of _ f']) (auto simp: st)
qed

lemma schema_brought_up_to_date:
  assumes "quiet (df_store f)" "upgradable (df_schema f)"
  obtains f1 f2 where "each execStatement schemaStatements f = (Inr (), f1)" "each alterColumn alterStatements f1 = (Inr (), f2)"
    "complete (df_schema f2)" "sc_settings (df_schema f2)" "quiet (df_store f2)" "st_db (df_store f2) = st_db (df_store f)"
proof -
  have "InsertSettings \<in> set schemaStatements" by (simp add: schemaStatements_def)
  then obtain f1 where f1: "each execStatement schemaStatements f = (Inr (), f1)" "extends f f1" "upgradable (df_schema f1)"
      "fst ` set (created schemaStatements) \<subseteq> dom (sc_tables (df_schema f1))" "sc_settings (df_schema f1)"
    using each_ready [OF assms _ created_schema(2)] by auto
  have alters: "\<exists>t c. st = AddColumn t c" if "st \<in> set alterStatements" for st
    using that by (auto simp: alterStatements_def)
  have q1: "quiet (df_store f1)" using f1(2) by (simp add: extends_def)
  obtain f2 where f2: "each alterColumn alterStatements f1 = (Inr (), f2)" "extends f1 f2"
      and added: "\<And>t c. AddColumn t c \<in> set alterStatements \<Longrightarrow> \<exists>have1. sc_tables (df_schema f2) t = Some have1 \<and> c \<in> set have1"
    using each_alter [OF q1 _ alters] created_schema(3) f1(4) by blast
  have "\<exists>have1. sc_tables (df_schema f2) t = Some have1 \<and> set cols \<subseteq> set have1"
    if t: "(t, cols) \<in> set (created schemaStatements)" for t cols
  proof -
    have "t \<in> dom (sc_tables (df_schema f1))" using f1(4) t by force
    then obtain have0 have1 where h: "sc_tables (df_schema f1) t = Some have0" "sc_tables (df_schema f2) t = Some have1"
        "set have0 \<subseteq> set have1"
      using f2(2) unfolding extends_def by blast
    moreover have "addable t \<subseteq> set have1" using added h(2) by (fastforce simp: addable_def)
    ultimately show ?thesis using upgradableD [OF f1(3) t h(1)] by auto
  qed
  then have "complete (df_schema f2)" by (auto simp: complete_def)
  moreover have "sc_settings (df_schema f2)" using f2(2) f1(5) by (simp add: extends_def)
  ultimately show thesis using that f1(1) f2 extends_trans [OF f1(2) f2(2)] by (simp add: extends_def)
qed

lemma complete_upgradable: "complete sc \<Longrightarrow> upgradable sc"
  unfolding complete_def upgradable_def by fastforce

text \<open>A second conversion of rows finds nothing to convert.\<close>

definition upToDate :: "db \<Rightarrow> bool" where
  "upToDate d \<longleftrightarrow> (\<nexists>g. pending d g) \<and> (\<forall>rows. db_legacyGroups d = Some rows \<longrightarrow> (\<forall>(k, n) \<in> set rows. n = []))"

lemma concat_nothing: "concat (map (\<lambda>_. []) xs) = []"
  by (induction xs) auto

lemma groupsMoved_settled: "upToDate d \<Longrightarrow> groupsMoved now d = d"
proof -
  assume d: "upToDate d"
  have old: "oldGroup d k = []" for k
    using d by (auto simp: upToDate_def oldGroup_def coalesce_def split: option.split dest!: map_of_SomeD)
  have trim: "TrimSQL [] = []" by (simp add: TrimSQL_def)
  have "map_option (map (\<lambda>(k, _). (k, []))) (db_legacyGroups d) = db_legacyGroups d"
    using d by (cases "db_legacyGroups d") (auto simp: upToDate_def intro!: map_idI)
  then have "clearOldGroups d = d" by (simp add: clearOldGroups_def)
  moreover have "insertOldGroups now d = d" by (simp add: insertOldGroups_def old trim distinctRows_def comp_def)
  moreover have "insertOldMembers d = d" by (simp add: insertOldMembers_def old trim concat_nothing)
  ultimately show ?thesis by (simp add: groupsMoved_def)
qed

lemma groupsMoved_cleared: "db_legacyGroups (groupsMoved now d) = Some rows \<Longrightarrow> (k, n) \<in> set rows \<Longrightarrow> n = []"
  by (auto simp: groupsMoved_def clearOldGroups_def)

lemma migrateRows_settles:
  assumes "migrateRows s = (Inr x, s')"
  shows "upToDate (st_db s')"
proof -
  obtain s1 where s1: "migrateLegacyRoutingGroups s = (Inr (), s1)" "migrateLegacyUpstream s1 = (Inr x, s')"
    using assms by (auto simp: migrateRows_def andThen_Inr)
  have "n = []" if "db_legacyGroups (st_db s1) = Some rows" "(k, n) \<in> set rows" for rows k n
    using migrateLegacyRoutingGroups_Inr [OF s1(1)] groupsMoved_cleared that by (metis option.distinct(1))
  moreover have "db_legacyGroups (st_db s') = db_legacyGroups (st_db s1)" "\<nexists>g. pending (st_db s') g"
    using s1(2) converted_settled by (auto elim!: migrateLegacyUpstream_cases simp: converted_def)
  ultimately show ?thesis by (auto simp: upToDate_def)
qed

lemma migrateRows_settled:
  assumes "migrateRows s = (Inr x, s')" "upToDate (st_db s)"
  shows "st_db s' = st_db s"
proof -
  obtain s1 where s1: "migrateLegacyRoutingGroups s = (Inr (), s1)" "migrateLegacyUpstream s1 = (Inr x, s')"
    using assms(1) by (auto simp: migrateRows_def andThen_Inr)
  then have "st_db s1 = st_db s"
    using migrateLegacyRoutingGroups_Inr [OF s1(1)] groupsMoved_settled [OF assms(2)] by (auto split: if_splits)
  then show ?thesis using migrateLegacyUpstream_settled [OF s1(2)] assms(2) by (simp add: upToDate_def)
qed

lemma migrateRows_quiet:
  assumes "quiet s"
  shows "is_ok (fst (migrateRows s)) \<and> quiet (snd (migrateRows s))"
  using migrateLegacyRoutingGroups_quiet [OF assms] migrateLegacyUpstream_quiet
  by (auto simp: migrateRows_def andThen_def split: prod.split sum.split)

lemma OpenStore_upgradable:
  assumes "quiet (df_store f)" "upgradable (df_schema f)"
  obtains f' s where "OpenStore None None f = (Inr (df_store f'), f')" "complete (df_schema f')" "sc_settings (df_schema f')" "quiet (df_store f')"
    "st_db s = st_db (df_store f)" "migrateRows s = (Inr (), df_store f')"
proof -
  obtain f1 f2 where f2: "each execStatement schemaStatements f = (Inr (), f1)" "each alterColumn alterStatements f1 = (Inr (), f2)"
      "complete (df_schema f2)" "sc_settings (df_schema f2)" "quiet (df_store f2)" "st_db (df_store f2) = st_db (df_store f)"
    using schema_brought_up_to_date [OF assms] .
  obtain s' where s': "migrateRows (df_store f2) = (Inr (), s')" "quiet s'"
    using migrateRows_quiet [OF f2(5)] by (metis is_ok_iff old.unit.exhaust prod.collapse)
  have "OpenStore None None f = (Inr s', f2\<lparr>df_store := s'\<rparr>)"
    using f2(1,2) s'(1) by (simp add: OpenStore_def Store_migrate_def zoom_def andThen_def)
  with f2 s' show thesis using that [of "f2\<lparr>df_store := s'\<rparr>" "df_store f2"] by simp
qed

text \<open>Whatever the driver does, a file with nothing to convert is opened with the rows it has.\<close>

lemma alterColumn_rows: "alterColumn st f = (r, f') \<Longrightarrow> st_db (df_store f') = st_db (df_store f)"
proof -
  obtain r1 f1 where run: "execStatement st f = (r1, f1)" by fastforce
  assume "alterColumn st f = (r, f')"
  then have "f' = f1" using run by (auto simp: alterColumn_def attempt_def andThen_def split: sum.splits if_splits)
  then show ?thesis using run by (auto elim: execStatement_cases)
qed

lemma each_rows:
  assumes "\<And>st f r f'. m st f = (r, f') \<Longrightarrow> st_db (df_store f') = st_db (df_store f)" "each m sts f = (r, f')"
  shows "st_db (df_store f') = st_db (df_store f)"
proof -
  have "keeps (\<lambda>g. st_db (df_store g) = st_db (df_store f)) (m st)" for st
    unfolding keeps_def using assms(1) by (metis prod.collapse)
  then show ?thesis using keepsD [OF keeps_each _ assms(2)] by blast
qed

lemma OpenStore_settled:
  assumes "OpenStore mkdirErr openErr f = (Inr s, f')" "upToDate (st_db (df_store f))"
  shows "st_db s = st_db (df_store f)"
proof -
  obtain f1 f2 x where run: "each execStatement schemaStatements f = (Inr (), f1)" "each alterColumn alterStatements f1 = (Inr (), f2)"
      "migrateRows (df_store f2) = (Inr x, df_store f')" "s = df_store f'"
  proof -
    have "Store_migrate f = (Inr (), f')" "s = df_store f'"
      using assms(1) by (auto simp: OpenStore_def andThen_Inr split: option.splits)
    moreover then obtain f1 f2 where "each execStatement schemaStatements f = (Inr (), f1)"
        "each alterColumn alterStatements f1 = (Inr (), f2)" "onRows migrateRows f2 = (Inr (), f')"
      unfolding Store_migrate_def andThen_Inr by auto
    moreover then have "migrateRows (df_store f2) = (Inr (), df_store f')" by (auto simp: zoom_def split: prod.splits)
    ultimately show thesis using that by blast
  qed
  have "st_db (df_store f1) = st_db (df_store f)" by (rule each_rows [OF _ run(1)]) (auto elim: execStatement_cases)
  moreover have "st_db (df_store f2) = st_db (df_store f1)" using each_rows [OF _ run(2)] alterColumn_rows by blast
  ultimately show ?thesis using migrateRows_settled [OF run(3)] assms(2) run(4) by simp
qed

text \<open>
  The columns the store's statements name, as \<open>upstreamCols\<close>, \<open>tunnelCols\<close> and the other queries list them, with
  the row identifiers; and the columns a release with several connections may lack.
\<close>

definition upstreamCols :: "string list" where
  "upstreamCols = [''id'', ''name'', ''v6_cidr'', ''mode'', ''public_v4'', ''egress_interface'', ''interface_name'', ''endpoint_host'',
     ''endpoint_port'', ''server_address'', ''server_private_key'', ''transport_address'', ''mtu'', ''keepalive'', ''min_prefix'',
     ''max_prefix'', ''default_prefix'', ''v4_mode'', ''created_at'', ''updated_at'']"

definition tunnelCols :: "string list" where
  "tunnelCols = [''id'', ''upstream_id'', ''label'', ''public_key'', ''preshared_key'', ''private_key'', ''allocated_v6_cidr'',
     ''allocated_v4_internal'', ''v4_enabled'', ''v4_mode'', ''quota_gib'', ''quota_used_bytes'', ''quota_period'', ''quota_disabled'',
     ''dns_override'', ''enabled'', ''mtu_override'', ''status'', ''last_error'', ''last_handshake'', ''rx_bytes'', ''tx_bytes'',
     ''created_at'', ''updated_at'']"

definition columnsUsed :: "(string \<times> string list) list" where
  "columnsUsed =
     [(''settings'', [''id'', ''v4_nat'', ''v4_warp'', ''v4_pool'', ''default_dns'', ''inter_tunnel_policy'']),
      (''upstreams'', upstreamCols),
      (''warp_account'', [''id'', ''private_key'', ''peer_public_key'', ''ipv4_address'', ''endpoint'', ''device_id'', ''account_id'',
         ''account_type'', ''created_at'', ''last_trace'', ''last_test_at'']),
      (''admin_users'', [''id'', ''username'', ''password_hash'', ''created_at'']),
      (''tunnels'', tunnelCols),
      (''routing_groups'', [''id'', ''name'', ''created_at'']),
      (''tunnel_routing_groups'', [''tunnel_id'', ''group_id'']),
      (''audit_log'', [''id'', ''admin'', ''action'', ''tunnel_id'', ''detail'', ''created_at''])]"

definition laterColumns :: "string \<Rightarrow> string list" where
  "laterColumns t =
     (if t = ''settings'' then [''v4_warp'', ''inter_tunnel_policy'']
      else if t = ''tunnels'' then [''last_handshake'', ''rx_bytes'', ''tx_bytes'', ''v4_mode'', ''quota_gib'', ''quota_used_bytes'',
        ''quota_period'', ''quota_disabled'']
      else [])"

definition has_columns :: "schema \<Rightarrow> string \<Rightarrow> string set \<Rightarrow> bool" where
  "has_columns sc t cols \<longleftrightarrow> (case sc_tables sc t of None \<Rightarrow> False | Some have \<Rightarrow> cols \<subseteq> set have)"

definition openable :: "schema \<Rightarrow> bool" where
  "openable sc \<longleftrightarrow> (\<forall>(t, cols) \<in> set columnsUsed. sc_tables sc t = None \<or> has_columns sc t (set cols - set (laterColumns t)))"

lemma addable_later: "addable t = set (laterColumns t)"
  by (auto simp: addable_def laterColumns_def alterStatements_def)

lemma columns_created: "created schemaStatements = columnsUsed"
  by (simp add: schemaStatements_def columnsUsed_def upstreamCols_def tunnelCols_def)

lemma openable_upgradable: "openable sc \<longleftrightarrow> upgradable sc"
  unfolding openable_def upgradable_def columns_created addable_later has_columns_def
  by (intro ball_cong refl) (auto split: option.splits)

lemma complete_columns: "complete sc \<longleftrightarrow> (\<forall>(t, cols) \<in> set columnsUsed. has_columns sc t (set cols))"
  unfolding complete_def columns_created has_columns_def by (intro ball_cong refl) (auto split: option.splits)

text \<open>
  C34. With a driver that fails no call, a new file, and a file each of whose tables has the columns the
  store's statements name, except for two of the settings and eight of the tunnels that the migration adds
  (\<open>upstream_id\<close> of the tunnels is not among them), is opened: afterwards every table has every column the
  statements name and the row of settings exists, a file with no values of earlier releases keeps its rows,
  and opening the file again succeeds and changes no row.
\<close>

theorem open_succeeds:
  assumes "quiet (df_store f)" "openable (df_schema f)"
  shows "\<exists>f'. OpenStore None None f = (Inr (df_store f'), f') \<and> sc_settings (df_schema f') \<and>
    (\<forall>(t, cols) \<in> set columnsUsed. has_columns (df_schema f') t (set cols)) \<and>
    (upToDate (st_db (df_store f)) \<longrightarrow> st_db (df_store f') = st_db (df_store f)) \<and>
    (\<exists>f''. OpenStore None None f' = (Inr (df_store f''), f'') \<and> st_db (df_store f'') = st_db (df_store f'))"
proof -
  obtain f' s where f': "OpenStore None None f = (Inr (df_store f'), f')" "complete (df_schema f')" "sc_settings (df_schema f')" "quiet (df_store f')"
      "st_db s = st_db (df_store f)" "migrateRows s = (Inr (), df_store f')"
    using OpenStore_upgradable assms unfolding openable_upgradable by blast
  obtain f'' s' where f'': "OpenStore None None f' = (Inr (df_store f''), f'')" "st_db s' = st_db (df_store f')"
      "migrateRows s' = (Inr (), df_store f'')"
    using OpenStore_upgradable [OF f'(4) complete_upgradable [OF f'(2)]] .
  have "upToDate (st_db s')" using migrateRows_settles [OF f'(6)] f''(2) by simp
  then have "st_db (df_store f'') = st_db (df_store f')" using migrateRows_settled [OF f''(3)] f''(2) by simp
  moreover have "upToDate (st_db (df_store f)) \<longrightarrow> st_db (df_store f') = st_db (df_store f)"
    using migrateRows_settled [OF f'(6)] f'(5) by simp
  ultimately show ?thesis using f' f'' unfolding complete_columns by blast
qed

subsection \<open>Witnesses\<close>

definition new_file :: datafile where
  "new_file = \<lparr>df_schema = \<lparr>sc_tables = (\<lambda>_. None), sc_indexes = [], sc_settings = False\<rparr>, df_store = quiet_store\<rparr>"

definition old_file :: datafile where
  "old_file = \<lparr>df_schema = \<lparr>sc_tables = [''settings'' \<mapsto> [''id'', ''upstream_v6'', ''v4_nat'', ''v4_pool'', ''default_dns''],
       ''tunnels'' \<mapsto> [''id'', ''label'', ''public_key'', ''allocated_v6_cidr'', ''enabled'', ''created_at'']],
     sc_indexes = [], sc_settings = True\<rparr>, df_store = old_store\<rparr>"

theorem single_upstream_upgrade_refused_witness:
  "single_upstream (df_schema old_file) \<and> \<not> is_ok (fst (OpenStore None None old_file)) \<and>
   db_upstreams (st_db (df_store (snd (OpenStore None None old_file)))) = []"
proof -
  have old: "single_upstream (df_schema old_file)" by (simp add: single_upstream_def old_file_def)
  have "db_upstreams (st_db (df_store old_file)) = []" by (simp add: old_file_def old_store_def freshDB_def)
  with old single_upstream_upgrade_refused [OF old prod.collapse [symmetric]] show ?thesis by simp
qed

text \<open>A file of a release with several connections, before quotas and WARP.\<close>

definition earlier_file :: datafile where
  "earlier_file = \<lparr>df_schema = \<lparr>sc_tables = [''settings'' \<mapsto> [''id'', ''v4_nat'', ''v4_pool'', ''default_dns''],
       ''upstreams'' \<mapsto> upstreamCols, ''tunnels'' \<mapsto> filter (\<lambda>c. c \<notin> set (laterColumns ''tunnels'')) tunnelCols],
     sc_indexes = [''tunnels_upstream''], sc_settings = True\<rparr>, df_store = quiet_store\<rparr>"

theorem open_succeeds_witness:
  "\<exists>f'. OpenStore None None earlier_file = (Inr (df_store f'), f') \<and> has_columns (df_schema f') ''tunnels'' (set tunnelCols) \<and>
     sc_settings (df_schema f') \<and> st_db (df_store f') = freshDB"
proof -
  have "upToDate (st_db (df_store earlier_file))" "st_db (df_store earlier_file) = freshDB"
    by (simp_all add: earlier_file_def upToDate_def pending_def quiet_store_def sample_store_def freshDB_def)
  note old = this
  have "quiet (df_store earlier_file)" by (simp add: earlier_file_def quiet_def quiet_store_def)
  moreover have "openable (df_schema earlier_file)"
    by (auto simp: earlier_file_def openable_def columnsUsed_def has_columns_def laterColumns_def upstreamCols_def tunnelCols_def)
  ultimately have "quiet (df_store earlier_file)" "openable (df_schema earlier_file)" by blast+
  from open_succeeds [OF this]
  obtain f' where "OpenStore None None earlier_file = (Inr (df_store f'), f')" "\<forall>(t, cols) \<in> set columnsUsed. has_columns (df_schema f') t (set cols)"
      "sc_settings (df_schema f')" "upToDate (st_db (df_store earlier_file)) \<longrightarrow> st_db (df_store f') = st_db (df_store earlier_file)" by blast
  with old have "\<exists>f'. OpenStore None None earlier_file = (Inr (df_store f'), f') \<and> (\<forall>(t, cols) \<in> set columnsUsed. has_columns (df_schema f') t (set cols)) \<and>
      sc_settings (df_schema f') \<and> st_db (df_store f') = freshDB" by (intro exI [of _ f']) simp
  moreover have "(''tunnels'', tunnelCols) \<in> set columnsUsed" by (simp add: columnsUsed_def)
  ultimately show ?thesis by fast
qed

end
