(* ===== verification/Daemon.thy ===== *)
theory Daemon
  imports Network Web Schema
begin

section \<open>Starting the daemon (cmd/open-tunnelbroker/main.go, internal/broker/network_other.go)\<close>

text \<open>
  What the program does before it serves requests, and the kernel driver of the systems that are not
  Linux, which knows only the dry run. The database is opened by \<open>OpenStore\<close>; the listener is outside the
  model.
\<close>

definition getenvOr :: "(string \<Rightarrow> string) \<Rightarrow> string \<Rightarrow> string \<Rightarrow> string" where
  "getenvOr getenv key fallback = (if getenv key \<noteq> [] then getenv key else fallback)"

record flags =
  fl_db :: string
  fl_listen :: string
  fl_adminUser :: string
  fl_adminPassword :: string
  fl_dryRun :: bool
  fl_version :: bool

definition defaultFlags :: "(string \<Rightarrow> string) \<Rightarrow> flags" where
  "defaultFlags getenv = \<lparr>fl_db = ''/var/lib/open-tunnelbroker/broker.db'', fl_listen = ''127.0.0.1:8080'',
     fl_adminUser = getenvOr getenv ''OTB_ADMIN_USER'' ''admin'', fl_adminPassword = getenv ''OTB_ADMIN_PASSWORD'',
     fl_dryRun = False, fl_version = False\<rparr>"

datatype started = PrintedVersion | Fatal error | Serving

definition main_start :: "'k env \<Rightarrow> flags \<Rightarrow> ('k app, started) action" where
  "main_start E flags =
     (if fl_version flags then return PrintedVersion
      else
        andThen (attempt (App_BootstrapAdmin E (fl_adminUser flags) (fl_adminPassword flags))) (\<lambda>r. case r of
          Inl e \<Rightarrow> return (Fatal e)
        | Inr _ \<Rightarrow> andThen (attempt (reconcileLocked E)) (\<lambda>_. return Serving)))"

text \<open>
  The whole start on a database file, with the errors of the file system and a kernel of its own: how it ends,
  and the application when one was made.
\<close>

definition main_run ::
  "'k env \<Rightarrow> flags \<Rightarrow> error option \<Rightarrow> error option \<Rightarrow> 'k \<Rightarrow> datafile \<Rightarrow> started \<times> 'k app option" where
  "main_run E flags mkdirErr openErr k f =
     (if fl_version flags then (PrintedVersion, None)
      else case OpenStore mkdirErr openErr f of
        (Inl e, _) \<Rightarrow> (Fatal e, None)
      | (Inr s, _) \<Rightarrow>
          (case main_start E flags (App_New s k) of
             (Inl e, a) \<Rightarrow> (Fatal e, Some a)
           | (Inr started, a) \<Rightarrow> (started, Some a)))"

text \<open>The store's error wins over the kernel's.\<close>

definition App_Close :: "unit result \<Rightarrow> unit result \<Rightarrow> unit result" where
  "App_Close kernelErr storeErr = (case storeErr of Inl e \<Rightarrow> Inl e | Inr _ \<Rightarrow> kernelErr)"

subsection \<open>Systems other than Linux\<close>

definition unsupported :: error where
  "unsupported = newError ''kernel networking is supported only on Linux''"

definition Other_Apply :: "bool \<Rightarrow> settings \<Rightarrow> warp_account \<Rightarrow> upstream list \<Rightarrow> tunnel list \<Rightarrow> ('k, tunnel list) action" where
  "Other_Apply dry cfg warp ups ts = (if dry then return ts else throw unsupported)"

definition Other_Remove :: "bool \<Rightarrow> upstream \<Rightarrow> tunnel \<Rightarrow> ('k, unit) action" where
  "Other_Remove dry up t = (if dry then return () else throw unsupported)"

definition Other_RemoveUpstream :: "bool \<Rightarrow> upstream \<Rightarrow> ('k, unit) action" where
  "Other_RemoveUpstream dry up = (if dry then return () else throw unsupported)"

definition Other_Inspect :: "bool \<Rightarrow> settings \<Rightarrow> warp_account \<Rightarrow> upstream list \<Rightarrow> tunnel list \<Rightarrow> ('k, string list) action" where
  "Other_Inspect dry cfg warp ups ts = (if dry then return [] else throw unsupported)"

definition Other_TestWarp :: "bool \<Rightarrow> settings \<Rightarrow> warp_account \<Rightarrow> ('k, string) action" where
  "Other_TestWarp dry cfg account = (if dry then return dryTrace else throw unsupported)"

text \<open>In a dry run the two drivers are the same.\<close>

lemma dry_run_portable:
  "Other_Apply True cfg warp ups ts = Kernel_Apply api True cfg warp ups ts" "Other_Remove True up t = Kernel_Remove api True up t"
  "Other_RemoveUpstream True up = Kernel_RemoveUpstream api True up"
  "Other_Inspect True cfg warp ups ts = Kernel_Inspect api True cfg warp ups ts"
  "Other_TestWarp True cfg warp = Kernel_TestWarp api True cfg warp"
  by (simp_all add: Other_Apply_def Other_Remove_def Other_RemoveUpstream_def Other_Inspect_def Other_TestWarp_def
      Kernel_Apply_def Kernel_Remove_def Kernel_RemoveUpstream_def Kernel_Inspect_def Kernel_TestWarp_def)

end
