(* ===== verification/Service_Properties.thy ===== *)
theory Service_Properties
  imports Service_Reach
begin

section \<open>Properties of the application\<close>

text \<open>
  What the address invariant of the reachable states means for the tunnels, what a creation
  leaves behind on success and on every failure, and the first administrator.
\<close>

subsection \<open>Prefixes of different connections\<close>

lemma overlaps_outer:
  assumes "wf6 d" "wf6 d'" "wf6 p" "wf6 p'" "len6 d \<le> len6 p" "len6 d' \<le> len6 p'"
    "Contains d (pAddr p)" "Contains d' (pAddr p')" "overlaps p p'"
  shows "overlaps d d'"
proof -
  let ?m = "min (len6 d) (len6 d')"
  have l: "len6 p \<le> 128" "len6 d \<le> 128" "len6 d' \<le> 128" "len6 p' \<le> 128" using assms by (simp_all add: len6_le)
  have "agree6 (min (len6 p) (len6 p')) p p'" using assms overlaps_agree6 by blast
  then have "agree6 ?m p p'" by (rule agree6_mono) (use assms l in auto)
  moreover have "agree6 ?m d p"
    by (rule agree6_mono [of "len6 d"]) (use assms l Contains_agree6 [of d p] in auto)
  moreover have "agree6 ?m d' p'"
    by (rule agree6_mono [of "len6 d'"]) (use assms l Contains_agree6 [of d' p'] in auto)
  ultimately show ?thesis using assms overlaps_agree6 [of d d'] by (simp add: agree6_def)
qed

lemma holds_apart:
  assumes "holds u c" "holds u' c'" "compatible uni u u'"
  shows "apart c c'"
proof -
  obtain p d where p: "ParsePrefix c = Some p" "wf6 p" "delegatedPrefix u = Some d" "Contains d (pAddr p)" "pBits d \<le> pBits p"
    using assms(1) by (auto simp: holds_def)
  obtain p' d' where p': "ParsePrefix c' = Some p'" "wf6 p'" "delegatedPrefix u' = Some d'" "Contains d' (pAddr p')" "pBits d' \<le> pBits p'"
    using assms(2) by (auto simp: holds_def)
  have "\<not> overlaps d d'" using assms(3) p p' by (auto simp: compatible_def)
  then have "\<not> overlaps p p'"
    using overlaps_outer [of d d' p p'] wf6_delegated [OF p(3)] wf6_delegated [OF p'(3)] p p'
    by (auto simp: len6_def intro: nat_mono)
  then show ?thesis using p p' by (simp add: apart_def)
qed

subsection \<open>What a creation changes\<close>

text \<open>The database grew by one allocation, under an identifier not used before.\<close>

definition grew :: "db \<Rightarrow> int \<Rightarrow> int \<Rightarrow> string \<Rightarrow> db \<Rightarrow> bool" where
  "grew d i k c d' \<longleftrightarrow> i \<notin> t_ID ` set (db_tunnels d) \<and> allocations d' = insert (i, k, c) (allocations d)"

definition settled :: "db \<Rightarrow> db \<Rightarrow> bool" where
  "settled d d' \<longleftrightarrow> db_upstreams d' = db_upstreams d \<and> (allocations d' = allocations d \<or> (\<exists>i k c. grew d i k c d'))"

lemma reconcile_skel: "reconcileLocked E a = (r, a') \<Longrightarrow> db_upstreams (adb a') = db_upstreams (adb a) \<and> allocations (adb a') = allocations (adb a)"
  using skel.reconcile [of "(db_upstreams (adb a), allocations (adb a))" E] by (auto simp: leads_def same_skel_def dest: spec [of _ a])

lemma leads_skel:
  fixes m :: "('k app, 'a) action"
  assumes "\<And>sk. leads (same_skel sk) (same_skel sk) m"
  shows "leads (settled d) (settled d) m"
  unfolding leads_def
proof (intro allI impI)
  fix a :: "'k app" assume "settled d (adb a)"
  moreover have "same_skel (db_upstreams (adb a), allocations (adb a)) (adb (snd (m a)))"
    using assms by (auto simp: leads_def same_skel_def)
  ultimately show "settled d (adb (snd (m a)))" by (auto simp: settled_def same_skel_def grew_def)
qed

lemma InsertTunnel_grows:
  assumes "Store_InsertTunnel t admin s = (Inr t', s')"
  shows "grew (st_db s) (t_ID t') (t_UpstreamID t) (t_V6CIDR t) (st_db s') \<and> db_upstreams (st_db s') = db_upstreams (st_db s)"
  by (rule InsertTunnel_Inr [OF assms])
    (auto simp: grew_def allocations_def newTunnelRow_def dest: tunnel_table.nextRowid_fresh)

lemma readonlyD: "readonly m \<Longrightarrow> m a = (r, a') \<Longrightarrow> adb a' = adb a"
  unfolding readonly_def by (metis snd_conv)

lemma andThen_read:
  assumes "andThen m k a = (Inr x, a')" "readonly m"
  obtains y a1 where "k y a1 = (Inr x, a')" "adb a1 = adb a"
  using assms(1) readonlyD [OF assms(2)] that by (auto simp: andThen_Inr)

lemma saveTunnel_settled:
  fixes E :: "'k env"
  shows "leads (\<lambda>d. d = d0) (settled d0) (saveTunnel E cfg g admin t)"
proof -
  have ins: "leads (\<lambda>d. d = d0) (settled d0) (onStore (Store_InsertTunnel t' admin) :: ('k app, tunnel) action)" for t'
    by (rule leads_clean [OF clean_store(4)]) (auto simp: settled_def dest: InsertTunnel_grows)
  have rest: "leads (settled d0) (settled d0) (andThen (wrapError msg args (reconcileLocked E)) (\<lambda>_. onStore (Store_Tunnel k)))" for msg args k
    unfolding wrapError_def by (intro leads_rules leads_skel skel.reconcile) simp_all
  show ?thesis
    unfolding saveTunnel_def
    by (intro leads_read leads_step [OF ins _ rest]) (simp_all add: settled_def)
qed

lemma CreateTunnel_settled: "leads (\<lambda>d. d = d0) (settled d0) (App_CreateTunnel E inp admin)"
  unfolding App_CreateTunnel_def Let_def
  by (intro leads_read saveTunnel_settled readonly_if) (simp_all add: settled_def)

lemma read_tunnel_Inr:
  assumes "onStore (Store_Tunnel k) a = (Inr t, a')"
  shows "(k, t_UpstreamID t, t_V6CIDR t) \<in> allocations (adb a) \<and> t_ID t = k"
proof -
  obtain z where "z \<in> set (db_tunnels (adb a))" "t_ID z = k" "t_ID t = t_ID z" "t_UpstreamID t = t_UpstreamID z" "t_V6CIDR t = t_V6CIDR z"
    using assms
    by (auto elim!: onStore_Inr dest!: queryRow_Inr query_Inr tunnel_table.lookup_Some
        simp: Store_Tunnel_def loadRoutingMemberships_def andThen_Inr scanTunnel_def split: if_splits)
  then show ?thesis by (auto simp: allocations_def image_iff)
qed

lemma saveTunnel_grows:
  assumes "saveTunnel E cfg g admin t a = (Inr t', a')"
  shows "grew (adb a) (t_ID t') (t_UpstreamID t') (t_V6CIDR t') (adb a')"
proof -
  obtain t1 a1 t2 a2 t3 a3 a4 where run: "tunnelKeys E g t a = (Inr t1, a1)" "tunnelAddress cfg t1 a1 = (Inr t2, a2)"
    "onStore (Store_InsertTunnel t2 admin) a2 = (Inr t3, a3)" "reconcileLocked E a3 = (Inr (), a4)" "onStore (Store_Tunnel (t_ID t3)) a4 = (Inr t', a')"
    using assms by (auto simp: saveTunnel_def andThen_Inr wrapError_def Inr_of_mapError)
  have d: "adb a2 = adb a" "adb a' = adb a4"
    using readonlyD [OF readonly_tunnel(1) run(1)] readonlyD [OF readonly_tunnel(2) run(2)] readonlyD [OF readonly_queries(5) run(5)] by simp_all
  have g: "grew (adb a) (t_ID t3) (t_UpstreamID t2) (t_V6CIDR t2) (adb a3)"
    using run(3) by (rule onStore_Inr) (use InsertTunnel_grows d in force)
  have "allocations (adb a') = insert (t_ID t3, t_UpstreamID t2, t_V6CIDR t2) (allocations (adb a))"
    using g reconcile_skel [OF run(4)] d by (simp add: grew_def)
  moreover have "(t_ID t3, t_UpstreamID t', t_V6CIDR t') \<in> allocations (adb a')" "t_ID t' = t_ID t3"
    using read_tunnel_Inr [OF run(5)] d by auto
  ultimately show ?thesis using g by (auto simp: grew_def allocations_def)
qed

subsection \<open>A concrete run\<close>

text \<open>
  One connection with room for two tunnels and both tunnels created: the states the theorems are
  applied to. The driver of the last two steps fails right after the transaction commits, so that
  nothing is applied to the kernel.
\<close>

definition plain_env :: "unit env" where
  "plain_env = \<lparr>e_Apply = (\<lambda>_ _ _ ts k. (Inr ts, k)), e_Inspect = (\<lambda>_ _ _ _ k. (Inr [], k)),
     e_Remove = (\<lambda>_ _ k. (Inr (), k)), e_RemoveUpstream = (\<lambda>_ k. (Inr (), k)), e_TestWarp = (\<lambda>_ _ k. (Inr [], k)),
     e_key = (\<lambda>n. Inr (dec n)), e_publicKey = (\<lambda>k. k), e_validKey = (\<lambda>_. True), e_rand = (\<lambda>_ _. Inr 0),
     e_hash = (\<lambda>p. Inr p), e_compare = (\<lambda>h p. h = p), e_unicode = ascii_only, e_text = (\<lambda>_. [])\<rparr>"

definition fresh_app :: "unit app" where
  "fresh_app = \<lparr>app_store = quiet_store, app_kernel = (), app_health = \<lparr>h_Drift = [], h_LastReconcile = 0, h_Error = []\<rparr>,
     app_sessions = Map.empty, app_draws = 0\<rparr>"

definition sample_input :: UpstreamInput where
  "sample_input = \<lparr>in_ID = 0, in_Name = ''a'', in_V6CIDR = ''::/63'', in_Mode = ''routed'', in_PublicV4 = [],
     in_EgressInterface = ''e'', in_InterfaceName = ''w'', in_EndpointHost = ''h'', in_EndpointPort = 1,
     in_ServerAddress = [], in_TransportAddress = [], in_MTU = 1420, in_Keepalive = 25, in_MinPrefix = 64,
     in_MaxPrefix = 64, in_DefaultPrefix = 64, in_V4Mode = []\<rparr>"

definition sample_request :: CreateTunnelInput where
  "sample_request = \<lparr>ct_UpstreamID = 0, ct_Label = ''l'', ct_PublicKey = [], ct_DNS = [], ct_V4Mode = [], ct_RoutingGroups = [],
     ct_Prefix = 0, ct_QuotaGiB = 0, ct_GenerateKeys = True\<rparr>"

definition base_up :: upstream where
  "base_up = apply_input sample_input (zeroUpstream
     \<lparr>up_MTU := 1420, up_Keepalive := 25, up_MinPrefix := 48, up_MaxPrefix := 64, up_DefaultPrefix := 56,
      up_EndpointPort := 51820\<rparr>)"

definition up1 :: upstream where
  "up1 = zeroUpstream\<lparr>up_Name := ''a'', up_V6CIDR := ''::/63'', up_Mode := ''routed'', up_EgressInterface := ''e'',
     up_InterfaceName := ''w'', up_EndpointHost := ''h'', up_EndpointPort := 1, up_MTU := 1420, up_Keepalive := 25,
     up_MinPrefix := 64, up_MaxPrefix := 64, up_DefaultPrefix := 64\<rparr>"

definition row1 :: upstream where
  "row1 = up1\<lparr>up_ID := 1, up_ServerPrivateKey := ''0''\<rparr>"

definition sample_audit :: "int \<Rightarrow> string \<Rightarrow> int option \<Rightarrow> string \<Rightarrow> time \<Rightarrow> audit" where
  "sample_audit k act t detail now =
     \<lparr>a_ID = k, a_Admin = ''x'', a_Action = act, a_TunnelID = t, a_Detail = detail, a_CreatedAt = now\<rparr>"

definition db1 :: db where
  "db1 = freshDB\<lparr>db_upstreams := [row1], db_audit := [sample_audit 1 ''upstream-create'' None ''a ::/63'' 0]\<rparr>"

definition tun :: "int \<Rightarrow> string \<Rightarrow> string \<Rightarrow> string \<Rightarrow> tunnel" where
  "tun k cidr key psk = zeroTunnel\<lparr>t_ID := k, t_UpstreamID := 1, t_Label := ''l'', t_PublicKey := key, t_PrivateKey := key,
     t_PresharedKey := psk, t_V6CIDR := cidr, t_Status := ''pending'', t_QuotaGiB := 100, t_QuotaPeriod := ''0001-01'',
     t_Enabled := True, t_CreatedAt := 1, t_UpdatedAt := 1\<rparr>"

definition db2 :: db where
  "db2 = db1\<lparr>db_tunnels := [tun 1 ''::/64'' ''2'' ''3''],
     db_audit := db_audit db1 @ [sample_audit 2 ''create'' (Some 1) ''::/64'' 1]\<rparr>"

definition db3 :: db where
  "db3 = db2\<lparr>db_tunnels := db_tunnels db2 @ [tun 2 ''0:0:0:1::/64'' ''6'' ''7''],
     db_audit := db_audit db2 @ [sample_audit 3 ''create'' (Some 2) ''0:0:0:1::/64'' 1]\<rparr>"

definition failing :: "nat \<Rightarrow> db \<Rightarrow> nat \<Rightarrow> unit app" where
  "failing n d k = fresh_app\<lparr>app_store := quiet_store\<lparr>st_db := d, st_fault := (\<lambda>i. n \<le> i)\<rparr>, app_draws := k\<rparr>"

lemmas run_defs = andThen_def onStore_def onKernel_def zoom_def draw_def query_def queryRow_def exec_def sql_def tx_def
  rollback_def Let_def addRow_def auditRow_def mapError_def attempt_def wrapError_def ignore_def Now_def

lemmas state_defs = fresh_app_def quiet_store_def sample_store_def freshDB_def failing_def db1_def db2_def

lemmas query_defs = Store_Upstreams_def upstreamsTx_def tunnelCountsByUpstream_def Store_Settings_def Store_Tunnels_def
  queryTunnels_def loadRoutingMemberships_def Store_WarpAccount_def Store_Upstream_def scanTunnel_def groupNames_def
  map_filter_def

lemmas create_defs = tunnelV4Mode_def upstreamV4Mode_def globalV4Mode_def zeroTunnel_def mode_defs plain_env_def

lemmas save_defs = saveTunnel_def tunnelKeys_def tunnelAddress_def Store_InsertTunnel_def setTunnelRoutingGroupsTx_def
  newTunnelRow_def clashes_def tunnel_uniques_def reconcileLocked_def nullable_def

lemma connection_facts:
  "normalizeUpstream base_up [] = Inr up1" "validateUpstream up1 = None"
  "validateUpstreamUniqueness ascii_only up1 [] = None" "validateUpstream row1 = None"
  "delegatedPrefix row1 = Some (Prefix (Addr6 0 []) 63)" "serverReservation row1 = None"
  "validateUpstream (row1\<lparr>up_TunnelCount := 1\<rparr>) = None"
  "delegatedPrefix (row1\<lparr>up_TunnelCount := 1\<rparr>) = Some (Prefix (Addr6 0 []) 63)"
  "serverReservation (row1\<lparr>up_TunnelCount := 1\<rparr>) = None"
  by code_simp+

lemma row1_fields:
  "up_ID row1 = 1" "up_MinPrefix row1 = 64" "up_MaxPrefix row1 = 64" "up_DefaultPrefix row1 = 64" "up_V4Mode row1 = []"
  "scanUpstream row1 = row1" "up_Name row1 = ''a''" "row1\<lparr>up_TunnelCount := 0\<rparr> = row1"
  by (simp_all add: row1_def up1_def zeroUpstream_def scanUpstream_def validUpstreamMode_def delegation_defs)

lemma allocation_facts:
  "Allocate (\<lambda>_. Inr 0) (Prefix (Addr6 0 []) 63) [] 64 = Inr (Prefix (Addr6 0 []) 64)"
  "Allocate (\<lambda>_. Inr 0) (Prefix (Addr6 0 []) 63) [Prefix (Addr6 0 []) 64] 64 = Inr (Prefix (Addr6 18446744073709551616 []) 64)"
  "prefixString (Prefix (Addr6 0 []) 64) = ''::/64''"
  "prefixString (Prefix (Addr6 18446744073709551616 []) 64) = ''0:0:0:1::/64''"
  "ParsePrefix ''::/64'' = Some (Prefix (Addr6 0 []) 64)"
  by code_simp+

lemma input_facts:
  "TrimSpace ''l'' = ''l''" "TrimSpace [] = []" "normalizeRoutingGroups [] = Inr []" "validateQuota 100 = None"
  "quotaMonth 0 = ''0001-01''" "quotaMonth 1 = ''0001-01''" "dec 0 = ''0''" "dec 2 = ''2''" "dec 3 = ''3''"
  "dec 6 = ''6''" "dec 7 = ''7''" "dec (Suc (Suc 0)) = ''2''" "dec (Suc (Suc (Suc 0))) = ''3''"
  "dec (Suc (Suc (Suc (Suc (Suc (Suc 0)))))) = ''6''" "dec (Suc (Suc (Suc (Suc (Suc (Suc (Suc 0))))))) = ''7''"
  by code_simp+

lemma nextRowid_facts:
  "nextRowid key [] = 1" "nextRowid a_ID [sample_audit 1 x y z w] = 2"
  "nextRowid a_ID [sample_audit 1 x y z w, sample_audit 2 x' y' z' w'] = 3" "nextRowid t_ID [tun 1 c k p] = 2"
  by (simp_all add: nextRowid_def sample_audit_def tun_def)

lemma tun_fields [simp]:
  "t_ID (tun k c x p) = k" "t_UpstreamID (tun k c x p) = 1" "t_V6CIDR (tun k c x p) = c" "t_PublicKey (tun k c x p) = x"
  "t_V4Address (tun k c x p) = []" "t_RoutingGroups (tun k c x p) = []"
  by (simp_all add: tun_def zeroTunnel_def)

lemma run_create_upstream:
  "\<exists>a'. run_app plain_env (AppCreateUpstream sample_input ''x'') fresh_app = (Inr (), a') \<and> adb a' = db1"
  apply (simp add: App_CreateUpstream_def base_up_def [symmetric] run_defs prepareUpstream_def query_defs)
  apply (simp add: state_defs connection_facts plain_env_def Store_InsertUpstream_def run_defs nextRowid_facts)
  apply (simp add: clashes_def upstream_uniques_def up1_def zeroUpstream_def reconcileLocked_def run_defs
      Store_ResetMonthlyQuotas_def query_defs scanUpstream_def validUpstreamMode_def delegation_defs)
  apply (simp add: applyTunnels_def run_defs noteDrift_def noteReconcile_def setHealthError_def setStatuses_def query_defs
      orHealth_def lookupRow_def row1_def up1_def zeroUpstream_def input_facts nextRowid_facts sample_audit_def)
  done

lemma run_first_tunnel: "adb (snd (run_app plain_env (AppCreateTunnel sample_request ''x'') (failing 9 db1 1))) = db2"
  apply (simp add: App_CreateTunnel_def sample_request_def resolveUpstream_def run_defs query_defs)
  apply (simp add: state_defs row1_fields connection_facts validTunnelV4Mode_def mode_defs input_facts)
  apply (simp add: allocateTunnel_def run_defs Store_UsedPrefixes_def Store_TunnelsForUpstream_def query_defs state_defs
      row1_fields connection_facts create_defs allocation_facts)
  apply (simp add: save_defs run_defs query_defs allocation_facts input_facts mode_defs nextRowid_facts)
  apply (simp add: state_defs tun_def zeroTunnel_def sample_audit_def input_facts)
  done

lemma run_second_tunnel: "adb (snd (run_app plain_env (AppCreateTunnel sample_request ''x'') (failing 10 db2 5))) = db3"
  apply (simp add: App_CreateTunnel_def sample_request_def resolveUpstream_def run_defs query_defs)
  apply (simp add: state_defs row1_fields connection_facts validTunnelV4Mode_def mode_defs input_facts)
  apply (simp add: allocateTunnel_def run_defs Store_UsedPrefixes_def Store_TunnelsForUpstream_def query_defs state_defs
      row1_fields connection_facts create_defs allocation_facts)
  apply (simp add: save_defs run_defs query_defs allocation_facts input_facts mode_defs nextRowid_facts)
  apply (simp add: db3_def state_defs tun_def zeroTunnel_def sample_audit_def input_facts)
  done

lemma reachable_db3: "reachable_app plain_env (failing 0 db3 0)"
proof -
  have step: "reachable_app plain_env (snd (run_app plain_env p a))" if "reachable_app plain_env a" for p a
    using app_step [OF that prod.collapse [symmetric]] .
  have f: "adb (failing n d k) = d" for n d k by (simp add: failing_def)
  have "reachable_app plain_env fresh_app" by (rule app_fresh) (simp add: fresh_app_def quiet_store_def sample_store_def)
  then have "reachable_app plain_env (failing 9 db1 1)"
    using run_create_upstream app_step app_world f by metis
  then have "reachable_app plain_env (failing 10 db2 5)"
    using app_world [OF step] f run_first_tunnel by metis
  then show ?thesis
    using app_world [OF step] f run_second_tunnel by metis
qed

subsection \<open>Properties\<close>

text \<open>
  C1. No address is delegated twice: in every state the application can reach, whatever the kernel,
  the driver and the clock do, the prefixes of any two different tunnels parse and do not overlap,
  whether they belong to the same provider connection or to different ones.
\<close>

theorem tunnels_never_overlap:
  assumes "reachable_app E a" "t \<in> set (db_tunnels (adb a))" "t' \<in> set (db_tunnels (adb a))" "t_ID t \<noteq> t_ID t'"
  shows "\<exists>p p'. ParsePrefix (t_V6CIDR t) = Some p \<and> ParsePrefix (t_V6CIDR t') = Some p' \<and> \<not> overlaps p p'"
proof -
  let ?ks = "allocations (adb a)" and ?us = "db_upstreams (adb a)"
  have pl: "placement (e_unicode E) ?us ?ks" using reachable_sane [OF assms(1)] by (simp add: sane_def)
  have al: "(t_ID t, t_UpstreamID t, t_V6CIDR t) \<in> ?ks" "(t_ID t', t_UpstreamID t', t_V6CIDR t') \<in> ?ks"
    using assms(2,3) by (auto simp: allocations_def)
  obtain u where u: "u \<in> set ?us" "up_ID u = t_UpstreamID t" "holds u (t_V6CIDR t)" using pl al(1) unfolding placement_def by fast
  obtain u' where u': "u' \<in> set ?us" "up_ID u' = t_UpstreamID t'" "holds u' (t_V6CIDR t')" using pl al(2) unfolding placement_def by fast
  have "apart (t_V6CIDR t) (t_V6CIDR t')"
  proof (cases "t_UpstreamID t = t_UpstreamID t'")
    case True
    then show ?thesis using pl al assms(4) unfolding placement_def by fast
  next
    case False
    then have "compatible (e_unicode E) u u'" using pl u u' by (auto simp: placement_def coexist_def)
    then show ?thesis using holds_apart u u' by blast
  qed
  then show ?thesis using u(3) u'(3) by (auto simp: holds_def apart_def)
qed

theorem tunnels_never_overlap_witness:
  "\<exists>p p'. ParsePrefix ''::/64'' = Some p \<and> ParsePrefix ''0:0:0:1::/64'' = Some p' \<and> \<not> overlaps p p'"
  using tunnels_never_overlap [OF reachable_db3, of "tun 1 ''::/64'' ''2'' ''3''" "tun 2 ''0:0:0:1::/64'' ''6'' ''7''"]
  by (simp add: failing_def db3_def db2_def)

text \<open>
  C2. Every tunnel of a reachable state belongs to an existing connection, and its prefix is aligned,
  lies completely inside the connection's delegation and outside the slice reserved for the server.
\<close>

theorem allocations_sound:
  assumes "reachable_app E a" "t \<in> set (db_tunnels (adb a))"
  shows "\<exists>u\<in>set (db_upstreams (adb a)). up_ID u = t_UpstreamID t \<and>
     (\<exists>p d. ParsePrefix (t_V6CIDR t) = Some p \<and> delegatedPrefix u = Some d \<and> Masked p = p \<and> pBits d \<le> pBits p \<and>
        (\<forall>x. Contains p x \<longrightarrow> Contains d x) \<and> (\<forall>r. serverReservation u = Some r \<longrightarrow> \<not> overlaps r p))"
proof -
  have "(t_ID t, t_UpstreamID t, t_V6CIDR t) \<in> allocations (adb a)" using assms(2) by (auto simp: allocations_def)
  then obtain u where u: "u \<in> set (db_upstreams (adb a))" "up_ID u = t_UpstreamID t" "holds u (t_V6CIDR t)"
    using reachable_sane [OF assms(1)] unfolding sane_def placement_def by fast
  then obtain p d where p: "ParsePrefix (t_V6CIDR t) = Some p" "wf6 p" "Masked p = p" "delegatedPrefix u = Some d"
    "Contains d (pAddr p)" "pBits d \<le> pBits p" "\<forall>r. serverReservation u = Some r \<longrightarrow> \<not> overlaps r p"
    by (auto simp: holds_def)
  have "Contains d x" if "Contains p x" for x
    by (rule Contains_trans [of d p]) (use p wf6_delegated [OF p(4)] that in \<open>auto simp: len6_def intro: nat_mono\<close>)
  then show ?thesis using u p by blast
qed


theorem allocations_sound_witness:
  "\<exists>u\<in>set (db_upstreams db3). up_ID u = 1 \<and>
     (\<exists>p d. ParsePrefix ''::/64'' = Some p \<and> delegatedPrefix u = Some d \<and> Masked p = p \<and> pBits d \<le> pBits p)"
proof -
  have "tun 1 ''::/64'' ''2'' ''3'' \<in> set (db_tunnels (adb (failing 0 db3 0)))" by (simp add: failing_def db3_def db2_def)
  from allocations_sound [OF reachable_db3 this] show ?thesis by (fastforce simp: failing_def)
qed

text \<open>
  C16. Creating a tunnel is all or nothing: connections stay as they are; on success exactly one
  allocation is added, the one returned, under a new identifier; on failure either no allocation is
  added or exactly one (the tunnel was saved and could not be applied).
\<close>

theorem create_tunnel_allocates_once:
  assumes "App_CreateTunnel E inp admin a = (r, a')"
  shows "db_upstreams (adb a') = db_upstreams (adb a) \<and>
    (case r of
       Inr t \<Rightarrow> t_ID t \<notin> t_ID ` set (db_tunnels (adb a)) \<and>
         allocations (adb a') = insert (t_ID t, t_UpstreamID t, t_V6CIDR t) (allocations (adb a))
     | Inl e \<Rightarrow> allocations (adb a') = allocations (adb a) \<or> 
         (\<exists>i k c. i \<notin> t_ID ` set (db_tunnels (adb a)) \<and> allocations (adb a') = insert (i, k, c) (allocations (adb a))))"
proof -
  have "settled (adb a) (adb a')" using CreateTunnel_settled [of "adb a" E inp admin] assms by (auto simp: leads_def dest: spec [of _ a])
  moreover have "grew (adb a) (t_ID t) (t_UpstreamID t) (t_V6CIDR t) (adb a')" if ok: "r = Inr t" for t
  proof -
    obtain cfg g t0 a0 where "saveTunnel E cfg g admin t0 a0 = (Inr t, a')" "adb a0 = adb a"
      using assms [unfolded ok App_CreateTunnel_def Let_def]
      by (elim andThen_read) auto
    then show ?thesis using saveTunnel_grows by metis
  qed
  ultimately show ?thesis by (auto simp: settled_def grew_def split: sum.split)
qed

theorem create_tunnel_allocates_once_witness:
  "db_upstreams db2 = [row1] \<and> (\<exists>(a' :: unit app). adb a' = db2 \<and> card (allocations (adb a')) \<le> Suc 0)"
proof -
  obtain r a' where run: "App_CreateTunnel plain_env sample_request ''x'' (failing 9 db1 1) = (r, a')"
    by (cases "App_CreateTunnel plain_env sample_request ''x'' (failing 9 db1 1)")
  then have d: "adb a' = db2"
    using run_first_tunnel by (cases r) (simp_all add: ignore_def andThen_def)
  have "allocations (adb (failing 9 db1 1)) = {}" by (simp add: allocations_def failing_def db1_def freshDB_def)
  then have "card (allocations (adb a')) \<le> Suc 0" "db_upstreams (adb a') = [row1]"
    using create_tunnel_allocates_once [OF run] by (auto split: sum.splits simp: failing_def db1_def)
  then show ?thesis using d by auto
qed

text \<open>
  C36. The first administrator can log in and nobody else can: after a successful bootstrap on an
  empty table, authentication (when the driver answers) accepts exactly the bootstrapped user with
  a password that the stored hash accepts; the password had at least twelve characters.
\<close>

theorem bootstrap_authenticates:
  assumes "App_BootstrapAdmin E user password a = (Inr (), a')" "db_admins (adb a) = []"
    and "adb b = adb a'" "\<not> st_fault (app_store b) (st_calls (app_store b))"
  shows "\<exists>h. e_hash E password = Inr h \<and> 12 \<le> length password \<and>
     (\<forall>u pw. fst (App_Authenticate E u pw b) = Inr (u = user \<and> e_compare E h pw))"
proof -
  obtain h s where h: "e_hash E password = Inr h" "12 \<le> length password"
    and run: "Store_AddAdmin user h s = (Inr (), app_store a')" "db_admins (st_db s) = []"
    using assms(1,2)
    by (auto simp: App_BootstrapAdmin_def andThen_Inr Store_AdminCount_def split: if_splits
       elim!: onStore_Inr dest!: query_Inr)
  from run(1) obtain now s1 k where "st_db s1 = st_db s" "addRow admin_uniques db_admins db_admins_update ad_ID
      (\<lambda>k. \<lparr>ad_ID = k, ad_Username = user, ad_Hash = h, ad_CreatedAt = now\<rparr>) s1 = (Inr k, app_store a')"
    by (auto simp: Store_AddAdmin_def andThen_Inr dest: Now_Inr)
  then have d: "db_admins (adb a') = [\<lparr>ad_ID = k, ad_Username = user, ad_Hash = h, ad_CreatedAt = now\<rparr>]"
    using addRow_Inr run(2) by fastforce
  have "fst (App_Authenticate E u pw b) = Inr (u = user \<and> e_compare E h pw)" for u pw
    using d assms(3,4) by (auto simp: App_Authenticate_def Store_AdminHash_def mapError_def queryRow_def sql_def andThen_def attempt_def onStore_def zoom_def Let_def)
  then show ?thesis using h by blast
qed

theorem bootstrap_authenticates_witness:
  "fst (App_Authenticate plain_env ''u'' ''twelve chars'' (snd (App_BootstrapAdmin plain_env ''u'' ''twelve chars'' fresh_app))) = Inr True"
proof -
  let ?run = "App_BootstrapAdmin plain_env ''u'' ''twelve chars'' fresh_app"
  have run: "?run = (Inr (), snd ?run)" "st_fault (app_store (snd ?run)) = (\<lambda>_. False)"
    by (simp_all add: App_BootstrapAdmin_def Store_AdminCount_def Store_AddAdmin_def run_defs fresh_app_def quiet_store_def
        sample_store_def freshDB_def plain_env_def clashes_def admin_uniques_def)
  have "db_admins (adb fresh_app) = []" by (simp add: fresh_app_def quiet_store_def sample_store_def freshDB_def)
  from bootstrap_authenticates [OF run(1) this refl] run(2) show ?thesis by (auto simp: plain_env_def)
qed

end
