(* ===== verification/Firewall_Policy.thy ===== *)
theory Firewall_Policy
  imports Firewall Service_Properties
begin

section \<open>The meaning of the packet filter\<close>

text \<open>
  What the commands do to a forwarded packet: the forward chain drops by default and every rule
  accepts, so a packet passes when some rule matches it; a set contains what the elements added to
  it cover. The properties characterise the accepted packets and the masqueraded sources, and show
  that names cannot smuggle commands into the script.
\<close>

subsection \<open>Semantics\<close>

record packet =
  pk_iif :: string
  pk_oif :: string
  pk_src :: addr
  pk_dst :: addr
  pk_established :: bool

fun covers :: "family \<Rightarrow> string \<Rightarrow> addr \<Rightarrow> bool" where
  "covers Inet6 e a = (case ParsePrefix e of None \<Rightarrow> False | Some p \<Rightarrow> Contains p a)"
| "covers Inet4 e a = (ParseAddr e = Some a)"

fun elements_of :: "string \<Rightarrow> nft \<Rightarrow> string list" where
  "elements_of name (AddElement n es) = (if n = name then es else [])"
| "elements_of name c = []"

definition in_set :: "nft list \<Rightarrow> family \<Rightarrow> string \<Rightarrow> addr \<Rightarrow> bool" where
  "in_set cmds fam name a = list_ex (\<lambda>e. covers fam e a) (concat (map (elements_of name) cmds))"

fun accepts :: "nft list \<Rightarrow> packet \<Rightarrow> nft \<Rightarrow> bool" where
  "accepts cmds p (Accept iif oif) \<longleftrightarrow> pk_iif p = iif \<and> pk_oif p = oif"
| "accepts cmds p (AcceptReply iif oif) \<longleftrightarrow> pk_iif p = iif \<and> pk_oif p = oif \<and> pk_established p"
| "accepts cmds p (AcceptSet fam iif oif name) \<longleftrightarrow>
     pk_iif p = iif \<and> pk_oif p = oif \<and> in_set cmds fam name (pk_src p) \<and> in_set cmds fam name (pk_dst p)"
| "accepts cmds p c \<longleftrightarrow> False"

text \<open>Without the forward chain the table filters nothing.\<close>

definition forwards :: "nft list \<Rightarrow> packet \<Rightarrow> bool" where
  "forwards cmds p \<longleftrightarrow> ForwardChain \<notin> set cmds \<or> list_ex (accepts cmds p) cmds"

definition masquerades :: "nft list \<Rightarrow> packet \<Rightarrow> bool" where
  "masquerades cmds p \<longleftrightarrow> PostroutingChain \<in> set cmds \<and>
     list_ex (\<lambda>c. case c of Masquerade src oif \<Rightarrow> pk_oif p = oif \<and> ParseAddr src = Some (pk_src p) | _ \<Rightarrow> False) cmds"

subsection \<open>What the policies permit\<close>

definition tunnel_interfaces :: "upstream list \<Rightarrow> string set" where
  "tunnel_interfaces ups = up_InterfaceName ` set ups"

definition egress_pair :: "upstream list \<Rightarrow> packet \<Rightarrow> bool" where
  "egress_pair ups p \<longleftrightarrow> (\<exists>u\<in>set ups.
     pk_iif p = up_InterfaceName u \<and> pk_oif p = up_EgressInterface u \<or>
     pk_iif p = up_EgressInterface u \<and> pk_oif p = up_InterfaceName u \<and> pk_established p)"

definition warp_pair :: "settings \<Rightarrow> upstream list \<Rightarrow> tunnel list \<Rightarrow> packet \<Rightarrow> bool" where
  "warp_pair cfg ups ts p \<longleftrightarrow> (\<exists>t\<in>set ts. \<exists>u. upstreamsByID ups (t_UpstreamID t) = Some u \<and> tunnelV4Mode cfg u t = V4ModeWarp \<and>
     (pk_iif p = up_InterfaceName u \<and> pk_oif p = warpInterfaceName \<or>
      pk_iif p = warpInterfaceName \<and> pk_oif p = up_InterfaceName u \<and> pk_established p))"

text \<open>
  The members of a routing group: the enabled tunnels of a known connection that name it. A name is
  counted as often as a tunnel lists it, once each in what the store returns.
\<close>

definition enrolled :: "upstream list \<Rightarrow> tunnel list \<Rightarrow> string \<Rightarrow> tunnel list" where
  "enrolled ups ts g = filter (\<lambda>t. t_Enabled t \<and> (\<exists>u\<in>set ups. up_ID u = t_UpstreamID t) \<and> g \<in> set (t_RoutingGroups t)) ts"

definition seats :: "tunnel list \<Rightarrow> string \<Rightarrow> nat" where
  "seats ts g = (\<Sum>t\<leftarrow>ts. count_list (t_RoutingGroups t) g)"

definition members4 :: "settings \<Rightarrow> upstream list \<Rightarrow> tunnel list \<Rightarrow> string \<Rightarrow> tunnel list" where
  "members4 cfg ups ts g = filter (\<lambda>t. tunnelIPv4Enabled cfg (upstreamOf ups t) t) (enrolled ups ts g)"

definition holds6 :: "upstream list \<Rightarrow> tunnel list \<Rightarrow> string \<Rightarrow> addr \<Rightarrow> bool" where
  "holds6 ups ts g a \<longleftrightarrow> (\<exists>t\<in>set (enrolled ups ts g). \<exists>q. ParsePrefix (t_V6CIDR t) = Some q \<and> Contains (Masked q) a)"

definition holds4 :: "settings \<Rightarrow> upstream list \<Rightarrow> tunnel list \<Rightarrow> string \<Rightarrow> addr \<Rightarrow> bool" where
  "holds4 cfg ups ts g a \<longleftrightarrow> (\<exists>t\<in>set (members4 cfg ups ts g). ParseAddr (t_V4Address t) = Some a)"

definition share_group :: "settings \<Rightarrow> upstream list \<Rightarrow> tunnel list \<Rightarrow> addr \<Rightarrow> addr \<Rightarrow> bool" where
  "share_group cfg ups ts a b \<longleftrightarrow> (\<exists>g.
     2 \<le> seats (enrolled ups ts g) g \<and> holds6 ups ts g a \<and> holds6 ups ts g b \<or>
     2 \<le> seats (members4 cfg ups ts g) g \<and> holds4 cfg ups ts g a \<and> holds4 cfg ups ts g b)"

definition tunnel_pair :: "settings \<Rightarrow> upstream list \<Rightarrow> tunnel list \<Rightarrow> packet \<Rightarrow> bool" where
  "tunnel_pair cfg ups ts p \<longleftrightarrow> pk_iif p \<in> tunnel_interfaces ups \<and> pk_oif p \<in> tunnel_interfaces ups \<and>
     (InterTunnelPolicy cfg = InterTunnelAny \<or>
      InterTunnelPolicy cfg = InterTunnelGroups \<and> share_group cfg ups ts (pk_src p) (pk_dst p))"

subsection \<open>The commands as a set\<close>

lemma set_sortedKeys [simp]: "set (sortedKeys xs) = set xs"
  by (simp add: sortedKeys_def)

lemma upstreamsByID_snoc: "upstreamsByID (ups @ [u]) = (upstreamsByID ups)(up_ID u \<mapsto> u)"
  by (simp add: upstreamsByID_def)

lemma upstreamsByID_Some: "upstreamsByID ups k = Some u \<Longrightarrow> u \<in> set ups \<and> up_ID u = k"
  by (induction ups rule: rev_induct) (auto simp: upstreamsByID_snoc upstreamsByID_def split: if_splits)

lemma checkInterfaces_None:
  "checkInterfaces ups = None \<longleftrightarrow> (\<forall>u\<in>set ups. up_EgressInterface u \<noteq> [] \<and> up_InterfaceName u \<noteq> [])"
  by (induction ups) auto

lemma set_tunnelInterfaces: "checkInterfaces ups = None \<Longrightarrow> set (tunnelInterfaces ups) = tunnel_interfaces ups"
  by (auto simp: tunnelInterfaces_def tunnel_interfaces_def checkInterfaces_None)

lemma set_warpInterfaces:
  "set (warpTunnelInterfaces cfg ups ts) =
     {n. \<exists>t\<in>set ts. \<exists>u. upstreamsByID ups (t_UpstreamID t) = Some u \<and> tunnelV4Mode cfg u t = V4ModeWarp \<and> n = up_InterfaceName u}"
  by (force simp: warpTunnelInterfaces_def Let_def split: option.splits if_splits)

lemma groupLoop_set:
  assumes "groupLoop members els ifs index names = Inr cmds"
  shows "c \<in> set cmds \<longleftrightarrow> (\<exists>i<length names. 2 \<le> length (members (names ! i)) \<and>
     (\<exists>es. els (members (names ! i)) = Inr es \<and> c \<in> set (groupCommands ifs (index + i) es)))"
  using assms
proof (induction names arbitrary: index cmds)
  case (Cons name names)
  have "(\<exists>i<length (name # names). P i ((name # names) ! i)) \<longleftrightarrow> P 0 name \<or> (\<exists>i<length names. P (Suc i) (names ! i))" for P
    by (auto simp: less_Suc_eq_0_disj)
  note split = this [of "\<lambda>i n. 2 \<le> length (members n) \<and>
     (\<exists>es. els (members n) = Inr es \<and> c \<in> set (groupCommands ifs (index + i) es))"]
  show ?case
  proof (cases "length (members name) < 2")
    case True
    then show ?thesis unfolding split using Cons.prems Cons.IH [of "Suc index" cmds] by auto
  next
    case False
    then obtain es rest where r: "els (members name) = Inr es" "groupLoop members els ifs (Suc index) names = Inr rest"
      "cmds = groupCommands ifs index es @ rest"
      using Cons.prems by (auto split: sum.splits)
    then show ?thesis unfolding split using False Cons.IH [OF r(2)] by auto
  qed
qed simp

lemma groupLoop_ok:
  assumes "groupLoop members els ifs index names = Inr cmds" "i < length names" "2 \<le> length (members (names ! i))"
  shows "\<exists>es. els (members (names ! i)) = Inr es"
  using assms
proof (induction names arbitrary: index cmds i)
  case (Cons name names)
  then show ?case by (cases i) (auto split: if_splits sum.splits)
qed simp

lemma groupElements_Inr:
  assumes "groupElements cfg byID ms = Inr (v6s, v4s)"
  shows "v6s = map (\<lambda>t. prefixString (Masked (the (ParsePrefix (t_V6CIDR t))))) ms \<and>
    v4s = map (\<lambda>t. addrString (the (ParseAddr (t_V4Address t))))
      (filter (\<lambda>t. tunnelIPv4Enabled cfg (case byID (t_UpstreamID t) of None \<Rightarrow> zeroUpstream | Some up \<Rightarrow> up) t) ms) \<and>
    (\<forall>t\<in>set ms. \<exists>q. ParsePrefix (t_V6CIDR t) = Some q \<and> Is6 (pAddr q)) \<and>
    (\<forall>t\<in>set ms. tunnelIPv4Enabled cfg (case byID (t_UpstreamID t) of None \<Rightarrow> zeroUpstream | Some up \<Rightarrow> up) t \<longrightarrow>
       (\<exists>a. ParseAddr (t_V4Address t) = Some a \<and> Is4 a))"
  using assms
  by (induction cfg byID ms arbitrary: v6s v4s rule: groupElements.induct)
    (auto split: option.splits if_splits sum.splits)

lemma dec_inject: "dec m = dec n \<longleftrightarrow> m = n"
proof
  assume eq: "dec m = dec n"
  show "m = n" using digits_value [of 10 m, unfolded eq] digits_value [of 10 n] by simp
qed simp

lemma setName_inject [simp]:
  "setName i ''_v6'' = setName j ''_v6'' \<longleftrightarrow> i = j" "setName i ''_v4'' = setName j ''_v4'' \<longleftrightarrow> i = j"
  "setName i ''_v6'' \<noteq> setName j ''_v4''" "setName i ''_v4'' \<noteq> setName j ''_v6''" "setName i x \<noteq> []"
  by (simp_all add: setName_def dec_inject)

lemma covers_prefix: "wf6 q \<Longrightarrow> covers Inet6 (prefixString q) a \<longleftrightarrow> Contains q a"
  using prefix_text.parse_print [OF wf6_valid, of q] by simp

lemma covers_addr: "Is4 a \<Longrightarrow> covers Inet4 (addrString a) b \<longleftrightarrow> b = a"
  using addr_text.parse_print [of a] by (cases a) auto

lemma set_elements_of: "set (elements_of name c) = {e. \<exists>es. c = AddElement name es \<and> e \<in> set es}"
  by (cases c) auto

lemma in_set_iff: "in_set cmds fam name a \<longleftrightarrow> (\<exists>es. AddElement name es \<in> set cmds \<and> (\<exists>e\<in>set es. covers fam e a))"
  unfolding in_set_def list_ex_iff set_concat set_map image_image set_elements_of by blast

subsection \<open>Groups\<close>

lemma mem_groupCommands:
  "AddElement n es \<in> set (groupCommands ifs i (v6s, v4s)) \<longleftrightarrow>
     n = setName i ''_v6'' \<and> es = v6s \<or> n = setName i ''_v4'' \<and> es = v4s \<and> 2 \<le> length v4s"
  "AcceptSet Inet6 a b n \<in> set (groupCommands ifs i (v6s, v4s)) \<longleftrightarrow> a \<in> set ifs \<and> b \<in> set ifs \<and> n = setName i ''_v6''"
  "AcceptSet Inet4 a b n \<in> set (groupCommands ifs i (v6s, v4s)) \<longleftrightarrow>
     a \<in> set ifs \<and> b \<in> set ifs \<and> n = setName i ''_v4'' \<and> 2 \<le> length v4s"
  by (auto simp: groupCommands_def Let_def)

definition group_only :: "nft \<Rightarrow> bool" where
  "group_only c \<longleftrightarrow> (case c of AddSet _ _ \<Rightarrow> True | AddElement _ _ \<Rightarrow> True | AcceptSet _ _ _ _ \<Rightarrow> True | _ \<Rightarrow> False)"

lemma groupCommands_only: "c \<in> set (groupCommands ifs i es) \<Longrightarrow> group_only c"
  by (cases es) (auto simp: groupCommands_def Let_def group_only_def split: if_splits)

lemma upstreamsByID_known: "upstreamsByID ups k \<noteq> None \<longleftrightarrow> (\<exists>u\<in>set ups. up_ID u = k)"
  by (induction ups rule: rev_induct) (auto simp: upstreamsByID_snoc, auto simp: upstreamsByID_def)

lemma seats_Cons [simp]: "seats (t # ts) g = count_list (t_RoutingGroups t) g + seats ts g" "seats [] g = 0"
  by (simp_all add: seats_def)

lemma groupable_known: "groupable ups ts = filter (\<lambda>t. t_Enabled t \<and> (\<exists>u\<in>set ups. up_ID u = t_UpstreamID t)) ts"
  unfolding groupable_def upstreamsByID_known ..

lemma groupMembers_seats: "length (filter P (groupMembers ups ts g)) = seats (filter P (enrolled ups ts g)) g"
proof (induction ts)
  case (Cons t ts)
  have "length (filter P (map (\<lambda>_. t) (filter (\<lambda>h. h = g) gs))) = (if P t then count_list gs g else 0)" for gs
    by (induction gs) auto
  moreover have "count_list (t_RoutingGroups t) g = 0 \<longleftrightarrow> g \<notin> set (t_RoutingGroups t)" by (rule count_list_0_iff)
  ultimately show ?case using Cons unfolding groupMembers_def groupable_known enrolled_def by (auto simp del: filter_filter filter_map)
qed (simp add: groupMembers_def groupable_known enrolled_def)

lemma set_groupMembers: "set (groupMembers ups ts g) = set (enrolled ups ts g)"
  unfolding groupMembers_def groupable_known enrolled_def by auto

lemma length_groupMembers: "length (groupMembers ups ts g) = seats (enrolled ups ts g) g"
  using groupMembers_seats [of "\<lambda>_. True"] by simp

lemma length_members4: "2 \<le> seats (members4 cfg ups ts g) g \<Longrightarrow> 2 \<le> length (groupMembers ups ts g)"
  unfolding members4_def groupMembers_seats [symmetric] using length_filter_le order_trans by blast

lemma group_named: "groupMembers ups ts g \<noteq> [] \<Longrightarrow> g \<in> set (sortedKeys (concat (map t_RoutingGroups (groupable ups ts))))"
  by (auto simp: groupMembers_def filter_empty_conv)

lemma group_elements_cover:
  assumes "groupElements cfg (upstreamsByID ups) (groupMembers ups ts g) = Inr (v6s, v4s)"
  shows "(\<exists>e\<in>set v6s. covers Inet6 e a) \<longleftrightarrow> holds6 ups ts g a"
    and "(\<exists>e\<in>set v4s. covers Inet4 e a) \<longleftrightarrow> holds4 cfg ups ts g a"
    and "length v4s = seats (members4 cfg ups ts g) g"
proof -
  note els = groupElements_Inr [OF assms, folded upstreamOf_def]
  show "(\<exists>e\<in>set v6s. covers Inet6 e a) \<longleftrightarrow> holds6 ups ts g a"
  proof -
    have "covers Inet6 (prefixString (Masked (the (ParsePrefix (t_V6CIDR t))))) a \<longleftrightarrow>
        (\<exists>q. ParsePrefix (t_V6CIDR t) = Some q \<and> Contains (Masked q) a)" if t: "t \<in> set (groupMembers ups ts g)" for t
    proof -
      obtain q where q: "ParsePrefix (t_V6CIDR t) = Some q" "Is6 (pAddr q)" using els t by blast
      then have "wf6 (Masked q)" using wf6_ParsePrefix by simp
      then show ?thesis using covers_prefix q(1) by (simp del: covers.simps)
    qed
    then show ?thesis using els by (simp add: holds6_def set_groupMembers)
  qed
  show "(\<exists>e\<in>set v4s. covers Inet4 e a) \<longleftrightarrow> holds4 cfg ups ts g a"
  proof -
    have "covers Inet4 (addrString (the (ParseAddr (t_V4Address t)))) a \<longleftrightarrow> ParseAddr (t_V4Address t) = Some a"
      if t: "t \<in> set (members4 cfg ups ts g)" for t
    proof -
      obtain b where "ParseAddr (t_V4Address t) = Some b" "Is4 b" using els t unfolding members4_def set_groupMembers by auto
      then show ?thesis using covers_addr [of b a] by (auto simp del: covers.simps)
    qed
    then show ?thesis using els by (simp add: holds4_def members4_def set_groupMembers)
  qed
  show "length v4s = seats (members4 cfg ups ts g) g" using els by (simp add: members4_def groupMembers_seats)
qed

lemma group_rules_accept:
  assumes run: "routingGroupRules cfg ups ts = Inr cmds"
    and els: "\<And>n es. AddElement n es \<in> set whole \<longleftrightarrow> AddElement n es \<in> set cmds"
    and ifs: "set (tunnelInterfaces ups) = tunnel_interfaces ups"
  shows "(\<exists>c\<in>set cmds. accepts whole p c) \<longleftrightarrow>
    pk_iif p \<in> tunnel_interfaces ups \<and> pk_oif p \<in> tunnel_interfaces ups \<and> share_group cfg ups ts (pk_src p) (pk_dst p)"
proof -
  let ?N = "sortedKeys (concat (map t_RoutingGroups (groupable ups ts)))"
  let ?M = "groupMembers ups ts" and ?E = "groupElements cfg (upstreamsByID ups)"
  define grp where "grp i v6s v4s \<longleftrightarrow> i < length ?N \<and> 2 \<le> length (?M (?N ! i)) \<and> ?E (?M (?N ! i)) = Inr (v6s, v4s)" for i v6s v4s
  define permits where "permits g \<longleftrightarrow> 2 \<le> seats (enrolled ups ts g) g \<and> holds6 ups ts g (pk_src p) \<and> holds6 ups ts g (pk_dst p) \<or>
     2 \<le> seats (members4 cfg ups ts g) g \<and> holds4 cfg ups ts g (pk_src p) \<and> holds4 cfg ups ts g (pk_dst p)" for g
  have fam_split: "(\<exists>fam. Q fam) \<longleftrightarrow> Q Inet6 \<or> Q Inet4" for Q by (metis family.exhaust)
  have mem: "c \<in> set cmds \<longleftrightarrow> (\<exists>i v6s v4s. grp i v6s v4s \<and> c \<in> set (groupCommands (tunnelInterfaces ups) i (v6s, v4s)))" for c
    using groupLoop_set [OF run [unfolded routingGroupRules_def], of c] unfolding grp_def by auto
  have fn: "grp i v6s v4s \<Longrightarrow> grp i v6s' v4s' \<Longrightarrow> v6s' = v6s \<and> v4s' = v4s" for i v6s v4s v6s' v4s' by (auto simp: grp_def)
  have grpE: "?E (?M (?N ! i)) = Inr (v6s, v4s)" if "grp i v6s v4s" for i v6s v4s using that by (simp add: grp_def)
  have el6: "AddElement (setName i ''_v6'') es \<in> set cmds \<longleftrightarrow> es = v6s" if "grp i v6s v4s" for i v6s v4s es
    unfolding mem mem_groupCommands using that fn by auto
  have el4: "AddElement (setName i ''_v4'') es \<in> set cmds \<longleftrightarrow> es = v4s" if "grp i v6s v4s" "2 \<le> length v4s" for i v6s v4s es
    unfolding mem mem_groupCommands using that fn by auto
  have set6: "in_set whole Inet6 (setName i ''_v6'') a \<longleftrightarrow> holds6 ups ts (?N ! i) a" if g: "grp i v6s v4s" for i v6s v4s a
    unfolding in_set_iff els el6 [OF g] using group_elements_cover(1) [OF grpE [OF g]] by (simp del: covers.simps)
  have set4: "in_set whole Inet4 (setName i ''_v4'') a \<longleftrightarrow> holds4 cfg ups ts (?N ! i) a"
    if g: "grp i v6s v4s" "2 \<le> length v4s" for i v6s v4s a
    unfolding in_set_iff els el4 [OF g] using group_elements_cover(2) [OF grpE [OF g(1)]] by (simp del: covers.simps)
  have acc: "(\<exists>c\<in>set cmds. accepts whole p c) \<longleftrightarrow>
      (\<exists>fam a b n. AcceptSet fam a b n \<in> set cmds \<and> accepts whole p (AcceptSet fam a b n))"
  proof -
    have "group_only c" if "c \<in> set cmds" for c using that groupCommands_only unfolding mem by blast
    moreover have "\<exists>fam a b n. c = AcceptSet fam a b n" if "group_only c" "accepts whole p c" for c
      using that by (cases c) (simp_all add: group_only_def)
    ultimately show ?thesis by blast
  qed
  have "(\<exists>c\<in>set cmds. accepts whole p c) \<longleftrightarrow> pk_iif p \<in> tunnel_interfaces ups \<and> pk_oif p \<in> tunnel_interfaces ups \<and>
      (\<exists>i v6s v4s. grp i v6s v4s \<and>
         (in_set whole Inet6 (setName i ''_v6'') (pk_src p) \<and> in_set whole Inet6 (setName i ''_v6'') (pk_dst p) \<or>
          2 \<le> length v4s \<and> in_set whole Inet4 (setName i ''_v4'') (pk_src p) \<and> in_set whole Inet4 (setName i ''_v4'') (pk_dst p)))"
    unfolding acc mem accepts.simps fam_split mem_groupCommands ifs by blast
  also have "\<dots> \<longleftrightarrow> pk_iif p \<in> tunnel_interfaces ups \<and> pk_oif p \<in> tunnel_interfaces ups \<and>
      (\<exists>i v6s v4s. grp i v6s v4s \<and> permits (?N ! i))"
  proof -
    have "(in_set whole Inet6 (setName i ''_v6'') (pk_src p) \<and> in_set whole Inet6 (setName i ''_v6'') (pk_dst p) \<or>
        2 \<le> length v4s \<and> in_set whole Inet4 (setName i ''_v4'') (pk_src p) \<and> in_set whole Inet4 (setName i ''_v4'') (pk_dst p))
        \<longleftrightarrow> permits (?N ! i)" if g: "grp i v6s v4s" for i v6s v4s
    proof (cases "2 \<le> length v4s")
      case True
      then show ?thesis
        using set6 [OF g] set4 [OF g] group_elements_cover(3) [OF grpE [OF g]] g unfolding permits_def grp_def length_groupMembers by simp
    next
      case False
      then show ?thesis
        using set6 [OF g] group_elements_cover(3) [OF grpE [OF g]] g unfolding permits_def grp_def length_groupMembers by simp
    qed
    then show ?thesis by blast
  qed
  also have "\<dots> \<longleftrightarrow> pk_iif p \<in> tunnel_interfaces ups \<and> pk_oif p \<in> tunnel_interfaces ups \<and> share_group cfg ups ts (pk_src p) (pk_dst p)"
  proof -
    have "\<exists>i v6s v4s. grp i v6s v4s \<and> ?N ! i = g" if "permits g" for g
    proof -
      have l: "2 \<le> length (?M g)" using that length_members4 by (auto simp: permits_def length_groupMembers)
      then have "g \<in> set ?N" by (intro group_named) auto
      then obtain i where i: "i < length ?N" "?N ! i = g" by (metis in_set_conv_nth)
      moreover obtain es where "?E (?M g) = Inr es"
        using groupLoop_ok [OF run [unfolded routingGroupRules_def] i(1)] i(2) l by auto
      ultimately show ?thesis using l unfolding grp_def by (cases es) auto
    qed
    moreover have "share_group cfg ups ts (pk_src p) (pk_dst p) \<longleftrightarrow> (\<exists>g. permits g)"
      unfolding share_group_def permits_def by simp
    ultimately show ?thesis by blast
  qed
  finally show ?thesis .
qed

subsection \<open>The whole table\<close>

lemma nftCommands_Inr:
  assumes "nftCommands cfg ups ts = Inr cmds" "ups \<noteq> []"
  obtains between where "checkInterfaces ups = None" "interTunnelRules cfg ups ts = Inr between"
    "set cmds = {DeleteTable, AddTable, ForwardChain} \<union> (\<Union>u\<in>set ups. set (forwardPair (up_InterfaceName u) (up_EgressInterface u)))
       \<union> set between \<union> (\<Union>n\<in>set (warpTunnelInterfaces cfg ups ts). set (forwardPair n warpInterfaceName))
       \<union> (if natRules cfg ups ts = [] then {} else insert PostroutingChain (set (natRules cfg ups ts)))"
proof -
  obtain between where i: "checkInterfaces ups = None" "interTunnelRules cfg ups ts = Inr between"
    using assms by (auto simp: nftCommands_def split: option.splits sum.splits)
  have "warpTunnelInterfaces cfg ups ts = []" if "\<not> list_ex (\<lambda>t. resolvedV4Mode cfg (upstreamsByID ups) t = V4ModeWarp) ts"
  proof -
    have "set (warpTunnelInterfaces cfg ups ts) = {}"
      unfolding set_warpInterfaces using that by (auto simp: list_ex_iff resolvedV4Mode_def)
    then show ?thesis by simp
  qed
  then have w: "(if list_ex (\<lambda>t. resolvedV4Mode cfg (upstreamsByID ups) t = V4ModeWarp) ts
      then concat (map (\<lambda>n. forwardPair n warpInterfaceName) (warpTunnelInterfaces cfg ups ts)) else []) =
      concat (map (\<lambda>n. forwardPair n warpInterfaceName) (warpTunnelInterfaces cfg ups ts))"
    by simp
  have "cmds = [DeleteTable, AddTable, ForwardChain]
      @ concat (map (\<lambda>up. forwardPair (up_InterfaceName up) (up_EgressInterface up)) ups) @ between
      @ concat (map (\<lambda>n. forwardPair n warpInterfaceName) (warpTunnelInterfaces cfg ups ts))
      @ (if natRules cfg ups ts \<noteq> [] then PostroutingChain # natRules cfg ups ts else [])"
    using assms i unfolding nftCommands_def Let_def w by simp
  then show thesis by (intro that [OF i]) auto
qed

lemma natRules_only: "c \<in> set (natRules cfg ups ts) \<Longrightarrow> \<exists>a o'. c = Masquerade a o'"
  by (auto simp: natRules_def split: option.splits if_splits)

lemma accepts_forwardPair:
  "(\<exists>c\<in>set (forwardPair inner outer). accepts cmds p c) \<longleftrightarrow>
     pk_iif p = inner \<and> pk_oif p = outer \<or> pk_iif p = outer \<and> pk_oif p = inner \<and> pk_established p"
  by (simp add: forwardPair_def)

lemma interTunnel_accept:
  assumes "interTunnelRules cfg ups ts = Inr between" "checkInterfaces ups = None"
    "\<And>n es. AddElement n es \<in> set whole \<longleftrightarrow> AddElement n es \<in> set between"
  shows "(\<exists>c\<in>set between. accepts whole p c) \<longleftrightarrow> tunnel_pair cfg ups ts p"
proof -
  note ifs = set_tunnelInterfaces [OF assms(2)]
  consider "InterTunnelPolicy cfg = [] \<or> InterTunnelPolicy cfg = InterTunnelIsolated" "between = []"
    | "InterTunnelPolicy cfg = InterTunnelAny"
      "between = concat (map (\<lambda>i. map (Accept i) (tunnelInterfaces ups)) (tunnelInterfaces ups))"
    | "InterTunnelPolicy cfg = InterTunnelGroups" "routingGroupRules cfg ups ts = Inr between"
    using assms(1) by (auto simp: interTunnelRules_def split: if_splits)
  then show ?thesis
  proof cases
    case 1
    then show ?thesis by (auto simp: tunnel_pair_def policy_defs)
  next
    case 2
    then show ?thesis by (auto simp: tunnel_pair_def ifs policy_defs)
  next
    case 3
    then show ?thesis
      using group_rules_accept [OF 3(2) assms(3) ifs] by (auto simp: tunnel_pair_def policy_defs)
  qed
qed

lemma interTunnel_elements:
  "interTunnelRules cfg ups ts = Inr between \<Longrightarrow> c \<in> set between \<Longrightarrow> c \<noteq> PostroutingChain \<and> (\<forall>a b. c \<noteq> Masquerade a b)"
proof -
  assume between: "interTunnelRules cfg ups ts = Inr between" "c \<in> set between"
  have "group_only c" if "routingGroupRules cfg ups ts = Inr between"
    using between(2) groupCommands_only unfolding groupLoop_set [OF that [unfolded routingGroupRules_def]] by blast
  then show ?thesis using between by (auto simp: interTunnelRules_def group_only_def split: if_splits)
qed

subsection \<open>One line per command\<close>

abbreviation newline :: char where
  "newline \<equiv> CHR 0x0A"

lemma DecodeRune_bytes:
  assumes "s \<noteq> []"
  shows "fst (DecodeRuneInString s) = RuneError \<and> snd (DecodeRuneInString s) = 1 \<or>
    fst (DecodeRuneInString s) = byte (hd s) \<and> byte (hd s) < 0x80 \<and> snd (DecodeRuneInString s) = 1 \<or>
    (\<forall>c\<in>set (take (snd (DecodeRuneInString s)) s). 0x80 \<le> byte c)"
proof -
  have "byte c = byte d \<longleftrightarrow> c = d" for c d :: char by simp
  obtain c0 r0 where s: "s = c0 # r0" using assms by (cases s) auto
  show ?thesis
    unfolding s
    by (cases r0; cases "tl r0"; cases "tl (tl r0)")
      (auto simp: DecodeRuneInString_def second_ok_def in_range_def split: if_splits)
qed

lemma hex_no_newline: "newline \<notin> set (hexPad w n)"
proof -
  have "hexval newline = None" by code_simp
  then have "newline \<notin> set (hex n)" using hex_chars by metis
  then show ?thesis by (auto simp: hexPad_def)
qed

lemma quoteRune_no_newline:
  assumes "s \<noteq> []"
  shows "newline \<notin> set (quoteRune u (fst (DecodeRuneInString s)) (take (snd (DecodeRuneInString s)) s))"
  using DecodeRune_bytes [OF assms]
proof (elim disjE)
  assume "fst (DecodeRuneInString s) = RuneError \<and> snd (DecodeRuneInString s) = 1"
  then show ?thesis using assms hex_no_newline by (cases s) (auto simp: quoteRune_def backslash_def)
next
  assume "fst (DecodeRuneInString s) = byte (hd s) \<and> byte (hd s) < 0x80 \<and> snd (DecodeRuneInString s) = 1"
  then show ?thesis
    using assms hex_no_newline
    by (cases s) (auto simp: quoteRune_def backslash_def dquote_def escapeRune_def IsPrint_def in_range_def split: if_splits)
next
  assume "\<forall>c\<in>set (take (snd (DecodeRuneInString s)) s). 0x80 \<le> byte c"
  then have "newline \<notin> set (take (snd (DecodeRuneInString s)) s)" by force
  then show ?thesis
    using hex_no_newline
    by (auto simp: quoteRune_def backslash_def escapeRune_def split: if_splits)
qed

lemma Quote_no_newline: "newline \<notin> set (Quote u s)"
proof -
  have "newline \<notin> set (quoteBody u s)"
    by (induction u s rule: quoteBody.induct) (subst quoteBody.simps, use quoteRune_no_newline in auto)
  then show ?thesis by (simp add: Quote_def dquote_def)
qed

lemma Join_no_newline: "\<forall>e\<in>set es. newline \<notin> set e \<Longrightarrow> newline \<notin> set (Join es '', '')"
  by (induction es "'', ''" rule: Join.induct) auto

definition one_line :: "string \<Rightarrow> bool" where
  "one_line s \<longleftrightarrow> (\<exists>line. s = line @ nl \<and> newline \<notin> set line)"

lemma dec_no_newline: "newline \<notin> set (dec n)"
proof -
  have "hexval newline = None" by code_simp
  then show ?thesis using digits_hexval [of 10 n] by (auto simp: list_all_iff)
qed

lemma addr_no_newline: "Is4 a \<Longrightarrow> newline \<notin> set (addrString a)"
proof -
  assume "Is4 a"
  then have "\<forall>c\<in>set (addrString a). addr_char c" by (intro addrString_chars) (cases a; simp)+
  moreover have "\<not> addr_char newline" by code_simp
  ultimately show ?thesis by blast
qed

lemma prefix_no_newline: "wf6 q \<Longrightarrow> newline \<notin> set (prefixString q)"
proof -
  assume "wf6 q"
  then obtain w n where q: "q = Prefix (Addr6 w []) n" by (elim wf6E)
  have "\<not> addr_char newline" by code_simp
  then have "newline \<notin> set (addrString (Addr6 w []))" using addrString_chars [of "Addr6 w []"] by auto
  then show ?thesis using dec_no_newline by (auto simp: q prefixString_def Itoa_def)
qed

lemma one_line_simple [simp]:
  "one_line (render u DeleteTable)" "one_line (render u AddTable)" "one_line (render u ForwardChain)"
  "one_line (render u PostroutingChain)" "one_line (render u (Accept i o'))" "one_line (render u (AcceptReply i o'))"
  "newline \<notin> set n \<Longrightarrow> one_line (render u (AddSet fam n))"
  "newline \<notin> set n \<Longrightarrow> one_line (render u (AcceptSet fam i o' n))"
  "newline \<notin> set n \<Longrightarrow> \<forall>e\<in>set es. newline \<notin> set e \<Longrightarrow> one_line (render u (AddElement n es))"
  "newline \<notin> set a \<Longrightarrow> one_line (render u (Masquerade a o'))"
  using Quote_no_newline Join_no_newline [of es]
  by (cases fam; auto simp: one_line_def ruleLine_def nl_def)+

lemma setName_no_newline: "newline \<notin> set (setName i ''_v6'')" "newline \<notin> set (setName i ''_v4'')"
  using dec_no_newline by (auto simp: setName_def)

lemma group_commands_one_line:
  assumes "groupElements cfg byID ms = Inr es" "c \<in> set (groupCommands ifs i es)"
  shows "one_line (render u c)"
proof -
  obtain v6s v4s where es: "es = (v6s, v4s)" by (cases es)
  note els = groupElements_Inr [OF assms(1) [unfolded es]]
  have v6: "newline \<notin> set e" if e: "e \<in> set v6s" for e
  proof -
    obtain t q where "t \<in> set ms" "e = prefixString (Masked q)" "ParsePrefix (t_V6CIDR t) = Some q" "Is6 (pAddr q)"
      using e els by force
    then show ?thesis using prefix_no_newline wf6_ParsePrefix wf6_Masked by metis
  qed
  have v4: "newline \<notin> set e" if e: "e \<in> set v4s" for e
  proof -
    obtain a where "e = addrString a" "Is4 a" using e els by force
    then show ?thesis using addr_no_newline by simp
  qed
  show ?thesis
    using assms(2) v6 v4 setName_no_newline unfolding es groupCommands_def Let_def
    by (auto simp del: render.simps split: if_splits)
qed

lemma between_one_line:
  assumes "interTunnelRules cfg ups ts = Inr between" "c \<in> set between"
  shows "one_line (render u c)"
proof -
  have "one_line (render u c)" if r: "routingGroupRules cfg ups ts = Inr between"
    using assms(2) group_commands_one_line unfolding groupLoop_set [OF r [unfolded routingGroupRules_def]] by blast
  then show ?thesis using assms by (auto simp: interTunnelRules_def simp del: render.simps split: if_splits)
qed

subsection \<open>Accepted packets\<close>

lemma forward_exact_cases:
  assumes "nftCommands cfg ups ts = Inr cmds" "ups \<noteq> []"
  shows "forwards cmds p \<longleftrightarrow> egress_pair ups p \<or> warp_pair cfg ups ts p \<or> tunnel_pair cfg ups ts p"
proof -
  obtain between where b: "checkInterfaces ups = None" "interTunnelRules cfg ups ts = Inr between"
    and c: "set cmds = {DeleteTable, AddTable, ForwardChain} \<union> (\<Union>u\<in>set ups. set (forwardPair (up_InterfaceName u) (up_EgressInterface u)))
       \<union> set between \<union> (\<Union>n\<in>set (warpTunnelInterfaces cfg ups ts). set (forwardPair n warpInterfaceName))
       \<union> (if natRules cfg ups ts = [] then {} else insert PostroutingChain (set (natRules cfg ups ts)))"
    by (rule nftCommands_Inr [OF assms])
  have "AddElement n es \<in> set cmds \<longleftrightarrow> AddElement n es \<in> set between" for n es
    using natRules_only [of _ cfg ups ts] by (auto simp: c forwardPair_def split: if_splits)
  note between = interTunnel_accept [OF b(2,1) this, of p]
  have nat: "\<not> accepts cmds p x" if "x \<in> set (natRules cfg ups ts)" for x using natRules_only [OF that] by auto
  have "forwards cmds p \<longleftrightarrow> (\<exists>u\<in>set ups. \<exists>x\<in>set (forwardPair (up_InterfaceName u) (up_EgressInterface u)). accepts cmds p x) \<or>
      (\<exists>x\<in>set between. accepts cmds p x) \<or>
      (\<exists>n\<in>set (warpTunnelInterfaces cfg ups ts). \<exists>x\<in>set (forwardPair n warpInterfaceName). accepts cmds p x)"
    unfolding forwards_def list_ex_iff c using nat by auto
  also have "\<dots> \<longleftrightarrow> egress_pair ups p \<or> tunnel_pair cfg ups ts p \<or> warp_pair cfg ups ts p"
    unfolding accepts_forwardPair between set_warpInterfaces egress_pair_def warp_pair_def by blast
  finally show ?thesis by blast
qed

lemma validated_names:
  assumes "validateUpstream v = None"
  shows "up_InterfaceName v \<noteq> up_EgressInterface v" "up_InterfaceName v \<noteq> warpInterfaceName"
proof -
  obtain q where "validateLink v q = None" using assms validateUpstream_None by auto
  then show "up_InterfaceName v \<noteq> up_EgressInterface v" "up_InterfaceName v \<noteq> warpInterfaceName"
    unfolding validateLink_def by (metis option.distinct(1))+
qed

lemma egress_not_tunnel:
  assumes "coexist uni ups" "\<forall>v\<in>set ups. validateUpstream v = None" "distinct (map up_ID ups)" "u \<in> set ups" "v \<in> set ups"
  shows "up_EgressInterface u \<noteq> up_InterfaceName v"
proof (cases "up_ID u = up_ID v")
  case True
  then have "u = v" using assms(3-5) by (metis distinct_map inj_onD)
  then show ?thesis using validated_names(1) assms(2,4) by metis
next
  case False
  then show ?thesis using assms(1,4,5) by (metis coexist_def compatible_def)
qed

lemma mem_natRules:
  "Masquerade a o' \<in> set (natRules cfg ups ts) \<longleftrightarrow> (\<exists>t\<in>set ts. \<exists>u. upstreamsByID ups (t_UpstreamID t) = Some u \<and>
     tunnelIPv4Enabled cfg u t \<and> a = t_V4Address t \<and>
     o' = (if tunnelV4Mode cfg u t = V4ModeWarp then warpInterfaceName else up_EgressInterface u))"
proof -
  have "x \<in> set (case m of None \<Rightarrow> [] | Some u \<Rightarrow> if \<not> P u then [] else [f u]) \<longleftrightarrow> (\<exists>u. m = Some u \<and> P u \<and> x = f u)"
    for x :: nft and m :: "upstream option" and P f by (cases m) auto
  then show ?thesis unfolding natRules_def by simp
qed

lemma case_Masquerade:
  "(case c of Masquerade src oif \<Rightarrow> P src oif | _ \<Rightarrow> False) \<longleftrightarrow> (\<exists>a o'. c = Masquerade a o' \<and> P a o')"
  by (cases c) auto

subsection \<open>Properties\<close>

text \<open>
  C8. The generated filter forwards exactly what the configuration permits: a tunnel interface to the
  egress interface of its own connection and the replies, a WARP tunnel's interface to the WARP
  interface and the replies, and between tunnel interfaces everything under the policy any, or
  packets whose source and destination are held by enabled tunnels, of known connections, that are
  members of one group of at least two under the policy groups, nothing when isolated.
\<close>

theorem forward_policy_exact:
  assumes "nftCommands cfg ups ts = Inr cmds" "ups \<noteq> []"
  shows "forwards cmds p \<longleftrightarrow> egress_pair ups p \<or> warp_pair cfg ups ts p \<or> tunnel_pair cfg ups ts p"
  using assms by (rule forward_exact_cases)

text \<open>Two enabled members of a group and a disabled third.\<close>

definition grouped :: "tunnel list" where
  "grouped = [(tun 1 ''::/64'' ''2'' ''3'')\<lparr>t_RoutingGroups := [''g'']\<rparr>,
     (tun 2 ''0:0:0:1::/64'' ''6'' ''7'')\<lparr>t_RoutingGroups := [''g'']\<rparr>,
     (tun 3 ''0:0:0:2::/64'' ''8'' ''9'')\<lparr>t_RoutingGroups := [''g''], t_Enabled := False\<rparr>]"

definition group_settings :: settings where
  "group_settings = (db_settings freshDB)\<lparr>InterTunnelPolicy := InterTunnelGroups\<rparr>"

theorem forward_policy_exact_witness:
  "\<exists>cmds. nftCommands group_settings [row1] grouped = Inr cmds \<and>
     forwards cmds \<lparr>pk_iif = ''w'', pk_oif = ''e'', pk_src = NoAddr, pk_dst = NoAddr, pk_established = False\<rparr> \<and>
     forwards cmds \<lparr>pk_iif = ''w'', pk_oif = ''w'', pk_src = Addr6 1 [], pk_dst = Addr6 0x10000000000000001 [], pk_established = False\<rparr> \<and>
     \<not> forwards cmds \<lparr>pk_iif = ''w'', pk_oif = ''w'', pk_src = Addr6 1 [], pk_dst = Addr6 0x20000000000000001 [], pk_established = False\<rparr>"
proof -
  have fields: "up_InterfaceName row1 = ''w''" "up_EgressInterface row1 = ''e''" "up_ID row1 = 1" "InterTunnelPolicy group_settings = InterTunnelGroups"
    by (simp_all add: row1_def up1_def zeroUpstream_def group_settings_def)
  have "is_ok (nftCommands group_settings [row1] grouped)" by code_simp
  then obtain cmds where run: "nftCommands group_settings [row1] grouped = Inr cmds" by (auto simp: is_ok_iff)
  have members: "enrolled [row1] grouped g = (if g = ''g'' then take 2 grouped else [])" for g
    by (simp add: enrolled_def grouped_def tun_def zeroTunnel_def fields)
  have pre: "ParsePrefix ''::/64'' = Some (Prefix (Addr6 0 []) 64)"
    "ParsePrefix ''0:0:0:1::/64'' = Some (Prefix (Addr6 0x10000000000000000 []) 64)"
    "Contains (Masked (Prefix (Addr6 0 []) 64)) (Addr6 1 [])"
    "Contains (Masked (Prefix (Addr6 0x10000000000000000 []) 64)) (Addr6 0x10000000000000001 [])"
    "\<not> Contains (Masked (Prefix (Addr6 0 []) 64)) (Addr6 0x20000000000000001 [])"
    "\<not> Contains (Masked (Prefix (Addr6 0x10000000000000000 []) 64)) (Addr6 0x20000000000000001 [])"
    "ParseAddr [] = None" by code_simp+
  have h6: "holds6 [row1] grouped ''g'' (Addr6 1 [])" "holds6 [row1] grouped ''g'' (Addr6 0x10000000000000001 [])"
    "\<not> holds6 [row1] grouped g (Addr6 0x20000000000000001 [])" for g
    using pre unfolding holds6_def members by (auto simp: grouped_def tun_def)
  have h4: "\<not> holds4 group_settings [row1] grouped g a" for g a
    using pre unfolding holds4_def members4_def members by (auto simp: grouped_def tun_def zeroTunnel_def)
  have "seats (enrolled [row1] grouped ''g'') ''g'' = 2" unfolding members by (simp add: grouped_def tun_def)
  then have "share_group group_settings [row1] grouped (Addr6 1 []) (Addr6 0x10000000000000001 [])"
    using h6 unfolding share_group_def by (intro exI [of _ "''g''"]) simp
  moreover have "\<not> share_group group_settings [row1] grouped (Addr6 1 []) (Addr6 0x20000000000000001 [])"
    using h6 h4 unfolding share_group_def by simp
  moreover have "\<not> warp_pair group_settings [row1] grouped p" if "pk_iif p = ''w''" "pk_oif p = ''w''" for p
    using that by (auto simp: warp_pair_def warpInterfaceName_def)
  ultimately show ?thesis
    using run forward_policy_exact [OF run]
    by (auto simp: egress_pair_def tunnel_pair_def tunnel_interfaces_def fields policy_defs)
qed

text \<open>
  C6. A tunnel reaches the Internet only through its own provider: when the connections are valid
  and coexist, a packet that enters on the WireGuard interface of a connection is forwarded only to
  that connection's egress interface, to the WARP interface when one of its tunnels uses WARP, or to
  a tunnel interface when the inter-tunnel policy permits it.
\<close>

theorem provider_isolation:
  assumes "nftCommands cfg ups ts = Inr cmds" "forwards cmds p"
    and "coexist uni ups" "\<forall>v\<in>set ups. validateUpstream v = None" "distinct (map up_ID ups)"
    and "u \<in> set ups" "pk_iif p = up_InterfaceName u"
  shows "pk_oif p = up_EgressInterface u \<or>
    pk_oif p = warpInterfaceName \<and> (\<exists>t\<in>set ts. t_UpstreamID t = up_ID u \<and> tunnelV4Mode cfg u t = V4ModeWarp) \<or>
    pk_oif p \<in> tunnel_interfaces ups \<and> InterTunnelPolicy cfg \<noteq> InterTunnelIsolated \<and> InterTunnelPolicy cfg \<noteq> []"
proof -
  have own: "up_InterfaceName u \<noteq> warpInterfaceName" using assms(4,6) validated_names(2) by blast
  have same: "v = u" if "v \<in> set ups" "up_InterfaceName v = up_InterfaceName u" for v
    using that assms(3,5,6) by (metis coexist_def compatible_def distinct_map inj_onD)
  have other: "up_EgressInterface v \<noteq> up_InterfaceName u" if "v \<in> set ups" for v
    using egress_not_tunnel [OF assms(3-5) that assms(6)] .
  have "ups \<noteq> []" using assms(6) by auto
  then consider "egress_pair ups p" | "warp_pair cfg ups ts p" | "tunnel_pair cfg ups ts p"
    using forward_exact_cases assms(1,2) by blast
  then show ?thesis
  proof cases
    case 1
    then have "pk_oif p = up_EgressInterface u"
      using assms(7) same other unfolding egress_pair_def by metis
    then show ?thesis ..
  next
    case 2
    then obtain t v where t: "t \<in> set ts" "upstreamsByID ups (t_UpstreamID t) = Some v" "tunnelV4Mode cfg v t = V4ModeWarp"
      "up_InterfaceName u = up_InterfaceName v \<and> pk_oif p = warpInterfaceName \<or> up_InterfaceName u = warpInterfaceName"
      using assms(7) by (auto simp: warp_pair_def)
    then show ?thesis using upstreamsByID_Some [OF t(2)] same own by auto
  next
    case 3
    then show ?thesis by (auto simp: tunnel_pair_def policy_defs)
  qed
qed

theorem provider_isolation_witness:
  "\<not> (\<exists>cmds. nftCommands (db_settings freshDB) [row1] [] = Inr cmds \<and>
     forwards cmds \<lparr>pk_iif = ''w'', pk_oif = ''x'', pk_src = NoAddr, pk_dst = NoAddr, pk_established = True\<rparr>)"
proof
  let ?p = "\<lparr>pk_iif = ''w'', pk_oif = ''x'', pk_src = NoAddr, pk_dst = NoAddr, pk_established = True\<rparr>"
  assume "\<exists>cmds. nftCommands (db_settings freshDB) [row1] [] = Inr cmds \<and> forwards cmds ?p"
  then obtain cmds where c: "nftCommands (db_settings freshDB) [row1] [] = Inr cmds" "forwards cmds ?p" by blast
  have fields: "up_InterfaceName row1 = ''w''" "up_EgressInterface row1 = ''e''"
    by (simp_all add: row1_def up1_def zeroUpstream_def)
  have "coexist ascii_only [row1]" by (simp add: coexist_def)
  from provider_isolation [OF c this, of row1] show False
    by (simp add: fields connection_facts tunnel_interfaces_def)
qed

text \<open>
  C13. Masquerading is exact and spares traffic between tunnels: a packet's source is rewritten
  exactly when it is the internal IPv4 address of a tunnel with IPv4 and the packet leaves through
  the egress interface of the tunnel's connection, or the WARP interface for a WARP tunnel; with
  valid coexisting connections that is never a tunnel interface.
\<close>

theorem masquerade_exact:
  assumes "nftCommands cfg ups ts = Inr cmds" "ups \<noteq> []"
    and "coexist uni ups" "\<forall>v\<in>set ups. validateUpstream v = None" "distinct (map up_ID ups)"
  shows "(masquerades cmds p \<longleftrightarrow> (\<exists>t\<in>set ts. \<exists>u. upstreamsByID ups (t_UpstreamID t) = Some u \<and> tunnelIPv4Enabled cfg u t \<and>
       ParseAddr (t_V4Address t) = Some (pk_src p) \<and>
       pk_oif p = (if tunnelV4Mode cfg u t = V4ModeWarp then warpInterfaceName else up_EgressInterface u))) \<and>
    (masquerades cmds p \<longrightarrow> pk_oif p \<notin> tunnel_interfaces ups)"
proof -
  obtain between where b: "interTunnelRules cfg ups ts = Inr between"
    and c: "set cmds = {DeleteTable, AddTable, ForwardChain} \<union> (\<Union>u\<in>set ups. set (forwardPair (up_InterfaceName u) (up_EgressInterface u)))
       \<union> set between \<union> (\<Union>n\<in>set (warpTunnelInterfaces cfg ups ts). set (forwardPair n warpInterfaceName))
       \<union> (if natRules cfg ups ts = [] then {} else insert PostroutingChain (set (natRules cfg ups ts)))"
    by (rule nftCommands_Inr [OF assms(1,2)])
  have m: "Masquerade a o' \<in> set cmds \<longleftrightarrow> Masquerade a o' \<in> set (natRules cfg ups ts)"
    "PostroutingChain \<in> set cmds \<longleftrightarrow> natRules cfg ups ts \<noteq> []" for a o'
    using interTunnel_elements [OF b] by (auto simp: c forwardPair_def)
  have "masquerades cmds p \<longleftrightarrow> PostroutingChain \<in> set cmds \<and> (\<exists>a. Masquerade a (pk_oif p) \<in> set cmds \<and> ParseAddr a = Some (pk_src p))"
    unfolding masquerades_def list_ex_iff case_Masquerade by blast
  also have "\<dots> \<longleftrightarrow> (\<exists>a. Masquerade a (pk_oif p) \<in> set (natRules cfg ups ts) \<and> ParseAddr a = Some (pk_src p))"
    unfolding m by auto
  also have "\<dots> \<longleftrightarrow> (\<exists>t\<in>set ts. \<exists>u. upstreamsByID ups (t_UpstreamID t) = Some u \<and> tunnelIPv4Enabled cfg u t \<and>
       ParseAddr (t_V4Address t) = Some (pk_src p) \<and>
       pk_oif p = (if tunnelV4Mode cfg u t = V4ModeWarp then warpInterfaceName else up_EgressInterface u))"
    unfolding mem_natRules by blast
  finally have exact: "masquerades cmds p \<longleftrightarrow> \<dots>" .
  moreover have "up_EgressInterface u \<noteq> up_InterfaceName v" if "u \<in> set ups" "v \<in> set ups" for u v
    using egress_not_tunnel [OF assms(3-5) that] .
  moreover have "warpInterfaceName \<noteq> up_InterfaceName v" if "v \<in> set ups" for v
    using validated_names(2) assms(4) that by metis
  ultimately have "pk_oif p \<notin> tunnel_interfaces ups" if "masquerades cmds p"
    using that upstreamsByID_Some unfolding tunnel_interfaces_def by (metis imageE)
  then show ?thesis using exact by blast
qed

definition nat_settings :: settings where
  "nat_settings = (db_settings freshDB)\<lparr>V4NAT := True\<rparr>"

definition nat_tunnel :: tunnel where
  "nat_tunnel = (tun 1 ''::/64'' ''2'' ''3'')\<lparr>t_V4Address := ''10.99.0.1''\<rparr>"

theorem masquerade_exact_witness:
  "\<exists>cmds a. nftCommands nat_settings [row1] [nat_tunnel] = Inr cmds \<and> ParseAddr ''10.99.0.1'' = Some a \<and>
     masquerades cmds \<lparr>pk_iif = ''w'', pk_oif = ''e'', pk_src = a, pk_dst = a, pk_established = False\<rparr> \<and>
     \<not> masquerades cmds \<lparr>pk_iif = ''w'', pk_oif = ''w'', pk_src = a, pk_dst = a, pk_established = False\<rparr>"
proof -
  have "is_ok (nftCommands nat_settings [row1] [nat_tunnel])" "ParseAddr ''10.99.0.1'' \<noteq> None" by code_simp+
  then obtain cmds a where run: "nftCommands nat_settings [row1] [nat_tunnel] = Inr cmds" and a: "ParseAddr ''10.99.0.1'' = Some a"
    unfolding is_ok_iff by auto
  have facts: "upstreamsByID [row1] 1 = Some row1" "tunnelV4Mode nat_settings row1 nat_tunnel = V4ModeNative"
    "up_EgressInterface row1 = ''e''" "up_InterfaceName row1 = ''w''" "t_V4Address nat_tunnel = ''10.99.0.1''"
    "t_UpstreamID nat_tunnel = 1" "tunnelIPv4Enabled nat_settings row1 nat_tunnel"
    by code_simp+
  have "coexist ascii_only [row1]" by (simp add: coexist_def)
  from masquerade_exact [OF run _ this] show ?thesis
    using run a by (auto simp: facts connection_facts tunnel_interfaces_def mode_defs)
qed

text \<open>
  C37. Names cannot smuggle commands into the script: when the recorded internal addresses are IPv4
  addresses as the store writes them, the script is a sequence of lines, one per command, whatever
  characters the interface names hold.
\<close>

theorem script_one_line_per_command:
  assumes "buildNFTScript uni cfg ups ts = Inr script"
    and "\<forall>t\<in>set ts. t_V4Address t = [] \<or> (\<exists>a. Is4 a \<and> t_V4Address t = addrString a)"
  shows "\<exists>cmds lines. nftCommands cfg ups ts = Inr cmds \<and> length lines = length cmds \<and>
    script = concat (map (\<lambda>l. l @ nl) lines) \<and> (\<forall>l\<in>set lines. newline \<notin> set l)"
proof -
  obtain cmds where c: "nftCommands cfg ups ts = Inr cmds" "script = concat (map (render uni) cmds)"
    using assms(1) by (auto simp: buildNFTScript_def map_sum_def split: sum.splits)
  have nat: "one_line (render uni x)" if x: "x \<in> set (natRules cfg ups ts)" for x
  proof -
    obtain t o' where "t \<in> set ts" "x = Masquerade (t_V4Address t) o'" "t_V4Address t \<noteq> []"
      using x by (auto simp: natRules_def tunnelIPv4Enabled_def split: option.splits if_splits)
    moreover have "newline \<notin> set (t_V4Address t)"
      using calculation assms(2) addr_no_newline by metis
    ultimately show ?thesis by (simp del: render.simps)
  qed
  have line: "one_line (render uni x)" if x: "x \<in> set cmds" for x
  proof (cases "ups = []")
    case True
    then show ?thesis using c(1) x by (auto simp: nftCommands_def simp del: render.simps)
  next
    case False
    obtain between where b: "interTunnelRules cfg ups ts = Inr between"
      and s: "set cmds = {DeleteTable, AddTable, ForwardChain} \<union> (\<Union>u\<in>set ups. set (forwardPair (up_InterfaceName u) (up_EgressInterface u)))
       \<union> set between \<union> (\<Union>n\<in>set (warpTunnelInterfaces cfg ups ts). set (forwardPair n warpInterfaceName))
       \<union> (if natRules cfg ups ts = [] then {} else insert PostroutingChain (set (natRules cfg ups ts)))"
      by (rule nftCommands_Inr [OF c(1) False])
    then show ?thesis
      using x nat between_one_line [OF b] by (auto simp: forwardPair_def simp del: render.simps split: if_splits)
  qed
  have "\<exists>lines. length lines = length cs \<and> concat (map (render uni) cs) = concat (map (\<lambda>l. l @ nl) lines) \<and>
      (\<forall>l\<in>set lines. newline \<notin> set l)" if "\<forall>x\<in>set cs. one_line (render uni x)" for cs
    using that
  proof (induction cs)
    case (Cons x cs)
    then obtain lines l where "length lines = length cs" "concat (map (render uni) cs) = concat (map (\<lambda>l. l @ nl) lines)"
      "\<forall>l\<in>set lines. newline \<notin> set l" "render uni x = l @ nl" "newline \<notin> set l" by (auto simp: one_line_def)
    then show ?case by (intro exI [of _ "l # lines"]) simp
  qed simp
  then show ?thesis using c line by blast
qed

theorem script_one_line_per_command_witness:
  "\<exists>script lines. buildNFTScript ascii_only (db_settings freshDB) [row1\<lparr>up_EgressInterface := [CHR 0x0A]\<rparr>] [] = Inr script \<and>
     script = concat (map (\<lambda>l. l @ nl) lines) \<and> newline \<notin> set (concat lines)"
proof -
  have "is_ok (buildNFTScript ascii_only (db_settings freshDB) [row1\<lparr>up_EgressInterface := [CHR 0x0A]\<rparr>] [])" by code_simp
  then obtain script where run: "buildNFTScript ascii_only (db_settings freshDB) [row1\<lparr>up_EgressInterface := [CHR 0x0A]\<rparr>] [] = Inr script"
    unfolding is_ok_iff by blast
  from script_one_line_per_command [OF this] show ?thesis using run by auto
qed

end
