(* ===== verification/Network_Properties.thy ===== *)
theory Network_Properties
  imports Warp Firewall_Policy
begin

section \<open>Properties of kernel networking\<close>

text \<open>
  The policy rules send every delegated address out of the provider that delegated it and keep
  traffic between tunnels on the main table; reconciling them converges on exactly that set,
  under the documented behaviour of the netlink calls; a dry run changes nothing in the kernel.
\<close>

subsection \<open>Canonical prefixes\<close>

definition canonical :: "prefix \<Rightarrow> bool" where
  "canonical p \<longleftrightarrow> wf_prefix p \<and> IsValid p \<and> Masked p = p"

lemma canonical6: "wf6 p \<Longrightarrow> Masked p = p \<Longrightarrow> canonical p"
  by (simp add: canonical_def wf6_valid)

lemma canonical4:
  assumes "wf_prefix p" "IsValid p" "Is4 (pAddr p)"
  shows "canonical (Masked p)"
proof -
  obtain w b where p: "p = Prefix (Addr4 w) (int b)" "b \<le> 32"
  proof (cases p)
    case (Prefix a n)
    then show thesis using assms that [of _ "nat n"] by (cases a) (auto simp: wf_prefix_def IsValid_def)
  qed
  have "clear_low (32 - b) (clear_low (32 - b) w) = clear_low (32 - b) w"
    by (simp add: word_unat_eq_iff unat_clear_low)
  then show ?thesis
    using Masked4 [OF p(2)] p by (simp add: canonical_def wf_prefix_def IsValid_def del: Masked.simps)
qed

lemma canonical_host: "Is4 a \<Longrightarrow> canonical (PrefixFrom a 32)"
  using canonical4 [of "PrefixFrom a 32"] by (cases a) (auto simp: PrefixFrom_def IsValid_def wf_prefix_def clear_low_def Masked.simps)

lemma mem_localPrefixes:
  "q \<in> set (localPrefixes cfg ups) \<longleftrightarrow>
     (\<exists>u\<in>set ups. delegatedPrefix u = Some q \<or> (\<exists>t. transportPrefix u = Some t \<and> q = Masked t)) \<or>
     (\<exists>pool. ParsePrefix (V4Pool cfg) = Some pool \<and> Is4 (pAddr pool) \<and> q = Masked pool)"
proof -
  have "q \<in> set ((case delegatedPrefix u of None \<Rightarrow> [] | Some p \<Rightarrow> [p]) @ (case transportPrefix u of None \<Rightarrow> [] | Some t \<Rightarrow> [Masked t])) \<longleftrightarrow>
      delegatedPrefix u = Some q \<or> (\<exists>t. transportPrefix u = Some t \<and> q = Masked t)" for u
    by (cases "delegatedPrefix u"; cases "transportPrefix u") auto
  moreover have "q \<in> set (case ParsePrefix (V4Pool cfg) of None \<Rightarrow> [] | Some pool \<Rightarrow> if Is4 (pAddr pool) then [Masked pool] else []) \<longleftrightarrow>
      (\<exists>pool. ParsePrefix (V4Pool cfg) = Some pool \<and> Is4 (pAddr pool) \<and> q = Masked pool)"
    by (cases "ParsePrefix (V4Pool cfg)") auto
  ultimately show ?thesis unfolding localPrefixes_def by auto
qed

lemma localPrefixes_canonical: "q \<in> set (localPrefixes cfg ups) \<Longrightarrow> canonical q"
proof -
  assume "q \<in> set (localPrefixes cfg ups)"
  then consider up where "delegatedPrefix up = Some q" | up t where "transportPrefix up = Some t" "q = Masked t"
    | pool where "ParsePrefix (V4Pool cfg) = Some pool" "Is4 (pAddr pool)" "q = Masked pool"
    unfolding mem_localPrefixes by blast
  then show ?thesis
  proof cases
    case 1
    then show ?thesis using wf6_delegated canonical6 by blast
  next
    case 2
    then have "wf6 t" using wf6_ParsePrefix unfolding transportPrefix_Some by blast
    then show ?thesis using canonical6 [of q] 2(2) by simp
  next
    case 3
    then show ?thesis using canonical4 wf_ParsePrefix by blast
  qed
qed

lemma parse_canonical: "canonical p \<Longrightarrow> ParsePrefix (prefixString p) = Some p"
  using prefix_text.parse_print by (simp add: canonical_def)

lemma prefixString_nonempty: "canonical p \<Longrightarrow> prefixString p \<noteq> []"
  using parse_canonical by fastforce

subsection \<open>The routing decision\<close>

definition text_matches :: "string \<Rightarrow> addr \<Rightarrow> bool" where
  "text_matches s a \<longleftrightarrow> s = [] \<or> (case ParsePrefix s of None \<Rightarrow> False | Some p \<Rightarrow> Contains p a)"

definition rule_matches :: "policyRule \<Rightarrow> addr \<Rightarrow> addr \<Rightarrow> bool" where
  "rule_matches r src dst \<longleftrightarrow>
     pr_family r = (if Is4 src then FAMILY_V4 else FAMILY_V6) \<and> text_matches (pr_source r) src \<and> text_matches (pr_dest r) dst"

text \<open>The tables of the matching rules with the best priority, among the rules of the application.\<close>

definition chosen_tables :: "policyRule list \<Rightarrow> addr \<Rightarrow> addr \<Rightarrow> int set" where
  "chosen_tables rules src dst = pr_table ` {r \<in> set rules. rule_matches r src dst \<and>
     (\<forall>r'\<in>set rules. rule_matches r' src dst \<longrightarrow> pr_priority r \<le> pr_priority r')}"

lemma Contains_family: "Contains p a \<Longrightarrow> Is4 (pAddr p) = Is4 a"
  by (cases p; cases "pAddr p"; cases a) (auto simp: Contains.simps split: if_splits)

lemma matches_dest:
  "canonical q \<Longrightarrow> Is4 src = Is4 dst \<Longrightarrow> rule_matches (destRule q) src dst \<longleftrightarrow> Contains q dst"
  using Contains_family [of q dst]
  by (auto simp: rule_matches_def destRule_def text_matches_def parse_canonical prefixString_nonempty ruleFamily_def
      FAMILY_V4_def FAMILY_V6_def)

lemma matches_source:
  "canonical q \<Longrightarrow> rule_matches (sourceRule fam u q) src dst \<longleftrightarrow>
     fam = (if Is4 src then FAMILY_V4 else FAMILY_V6) \<and> Contains q src"
  by (simp add: rule_matches_def sourceRule_def text_matches_def parse_canonical prefixString_nonempty)

lemma mem_desired:
  "r \<in> set (desiredPolicyRules cfg ups ts) \<longleftrightarrow>
     (\<exists>q\<in>set (localPrefixes cfg ups). r = destRule q) \<or>
     (\<exists>u\<in>set ups. \<exists>d. delegatedPrefix u = Some d \<and> r = sourceRule FAMILY_V6 u d) \<or>
     (\<exists>t\<in>set ts. \<exists>u a. upstreamsByID ups (t_UpstreamID t) = Some u \<and> tunnelV4Mode cfg u t = V4ModeNative \<and>
        ParseAddr (t_V4Address t) = Some a \<and> Is4 a \<and> r = sourceRule FAMILY_V4 u (PrefixFrom a 32))"
proof -
  have "r \<in> set (nativeRule cfg ups t) \<longleftrightarrow> (\<exists>u a. upstreamsByID ups (t_UpstreamID t) = Some u \<and> tunnelV4Mode cfg u t = V4ModeNative \<and>
        ParseAddr (t_V4Address t) = Some a \<and> Is4 a \<and> r = sourceRule FAMILY_V4 u (PrefixFrom a 32))" for t
    unfolding nativeRule_def
    by (cases "upstreamsByID ups (t_UpstreamID t)"; cases "ParseAddr (t_V4Address t)") auto
  moreover have "r \<in> set (case delegatedPrefix u of None \<Rightarrow> [] | Some p \<Rightarrow> [sourceRule FAMILY_V6 u p]) \<longleftrightarrow>
      (\<exists>d. delegatedPrefix u = Some d \<and> r = sourceRule FAMILY_V6 u d)" for u
    by (cases "delegatedPrefix u") auto
  ultimately show ?thesis unfolding desiredPolicyRules_def by auto
qed

lemma Contains_overlaps:
  assumes "wf6 d" "wf6 d'" "Contains d a" "Contains d' a"
  shows "overlaps d d'"
proof -
  obtain w where a: "a = Addr6 w []" using assms(1,3) by (elim wf6E) (cases a; auto simp: Contains.simps split: if_splits)
  have "wf6 (Prefix a 128)" by (auto simp: a intro: wf6I)
  moreover have "overlaps (Prefix a 128) (Prefix a 128)" by (simp add: overlaps_def a Contains.simps)
  ultimately show ?thesis
    using overlaps_outer [of d d' "Prefix a 128" "Prefix a 128"] assms len6_le [OF assms(1)] len6_le [OF assms(2)]
    by (simp add: len6_def a)
qed

text \<open>The rules that match a packet from a delegated address: the local destinations and the one source rule.\<close>

lemma matching_rules:
  assumes "coexist uni ups" "distinct (map up_ID ups)"
    and "u \<in> set ups" "delegatedPrefix u = Some d" "Contains d src" "\<not> Is4 dst"
  shows "r \<in> set (desiredPolicyRules cfg ups ts) \<and> rule_matches r src dst \<longleftrightarrow>
      (\<exists>q\<in>set (localPrefixes cfg ups). Contains q dst \<and> r = destRule q) \<or> r = sourceRule FAMILY_V6 u d"
proof -
  let ?R = "desiredPolicyRules cfg ups ts"
  have d: "wf6 d" "canonical d" using wf6_delegated [OF assms(4)] canonical6 by blast+
  have src: "\<not> Is4 src" using Contains_family [OF assms(5)] d(1) by (auto elim!: wf6E)
  have only: "v = u" if "v \<in> set ups" "delegatedPrefix v = Some e" "Contains e src" for v e
  proof -
    have "overlaps e d" using Contains_overlaps d(1) assms(5) that wf6_delegated by blast
    then have "\<not> compatible uni v u" using assms(4) that(2) unfolding compatible_def by blast
    then have "up_ID v = up_ID u" using assms(1,3) that(1) unfolding coexist_def by blast
    then show ?thesis using assms(2,3) that(1) by (metis distinct_map inj_onD)
  qed
  have local: "rule_matches (destRule q) src dst \<longleftrightarrow> Contains q dst" if "q \<in> set (localPrefixes cfg ups)" for q
    using matches_dest localPrefixes_canonical that src assms(6) by simp
  have leaves: "rule_matches (sourceRule FAMILY_V6 v e) src dst \<longleftrightarrow> Contains e src" if "delegatedPrefix v = Some e" for v e
    using matches_source canonical6 wf6_delegated [OF that] src by simp
  have native: "\<not> rule_matches (sourceRule FAMILY_V4 v (PrefixFrom a 32)) src dst" if "Is4 a" for v a
    using matches_source [OF canonical_host [OF that]] src by (simp add: FAMILY_V4_def FAMILY_V6_def)
  show ?thesis
  proof
    assume r: "r \<in> set ?R \<and> rule_matches r src dst"
    then consider q where "q \<in> set (localPrefixes cfg ups)" "r = destRule q"
      | v e where "v \<in> set ups" "delegatedPrefix v = Some e" "r = sourceRule FAMILY_V6 v e"
      | v a where "Is4 a" "r = sourceRule FAMILY_V4 v (PrefixFrom a 32)"
      unfolding mem_desired by blast
    then show "(\<exists>q\<in>set (localPrefixes cfg ups). Contains q dst \<and> r = destRule q) \<or> r = sourceRule FAMILY_V6 u d"
    proof cases
      case 1 then show ?thesis using r local by blast
    next
      case (2 v e)
      then have "v = u" using only [of v e] leaves [of v e] r by simp
      then show ?thesis using 2 assms(4) by simp
    next
      case 3 then show ?thesis using r native by blast
    qed
  next
    assume "(\<exists>q\<in>set (localPrefixes cfg ups). Contains q dst \<and> r = destRule q) \<or> r = sourceRule FAMILY_V6 u d"
    then show "r \<in> set ?R \<and> rule_matches r src dst"
      using mem_desired [of r cfg ups ts] local leaves [OF assms(4)] assms(3,4,5) by metis
  qed
qed

lemma Contains_Masked: "wf6 p \<Longrightarrow> Contains (Masked p) a \<longleftrightarrow> Contains p a"
  by (elim wf6E) (cases a; auto simp: Masked6 Contains.simps drop_bit_eq_iff_blk)

text \<open>The IPv6 prefix a field of a connection holds, as it was typed.\<close>

definition holdsPrefix :: "string \<Rightarrow> addr \<Rightarrow> bool" where
  "holdsPrefix field a \<longleftrightarrow> (\<exists>p. ParsePrefix field = Some p \<and> Is6 (pAddr p) \<and> Contains p a)"

lemma holdsPrefix_delegated: "holdsPrefix (up_V6CIDR u) a \<longleftrightarrow> (\<exists>d. delegatedPrefix u = Some d \<and> Contains d a)"
  using Contains_Masked [OF wf6_ParsePrefix]
  by (auto simp: holdsPrefix_def delegatedPrefix_def split: option.splits)

lemma holdsPrefix_transport:
  "holdsPrefix (up_TransportAddress u) a \<longleftrightarrow> (\<exists>t. transportPrefix u = Some t \<and> Contains (Masked t) a)"
  using Contains_Masked [OF wf6_ParsePrefix]
  by (auto simp: holdsPrefix_def transportPrefix_def split: option.splits)

lemma Contains_localPrefixes:
  assumes "\<not> Is4 dst"
  shows "(\<exists>q\<in>set (localPrefixes cfg ups). Contains q dst) \<longleftrightarrow>
     (\<exists>v\<in>set ups. holdsPrefix (up_V6CIDR v) dst \<or> holdsPrefix (up_TransportAddress v) dst)"
proof -
  have "\<not> Contains (Masked pool) dst" if "ParsePrefix s = Some pool" "Is4 (pAddr pool)" for s pool
  proof -
    have "Is4 (pAddr (Masked pool))"
      using that(2) wf_ParsePrefix [OF that(1)] by (cases pool; cases "pAddr pool") (auto simp: PrefixFrom_def Masked.simps wf_prefix_def IsValid_def split: if_splits)
    then show ?thesis using Contains_family assms by blast
  qed
  then show ?thesis unfolding Bex_def mem_localPrefixes holdsPrefix_delegated holdsPrefix_transport by blast
qed

text \<open>
  C7. Source addresses leave through the provider that delegated them: with two or more coexisting
  connections (with fewer the application installs no rules), a packet from an address of the prefix a
  connection delegates is sent to that connection's table, 52000 plus its identifier, and no other,
  unless its destination is in the delegated prefix or the transport range of one of the connections:
  then it stays on the main table, where the tunnel routes are.
\<close>

theorem policy_routing_exact:
  assumes "coexist uni ups" "distinct (map up_ID ups)" "2 \<le> length ups"
    and "u \<in> set ups" "holdsPrefix (up_V6CIDR u) src" "\<not> Is4 dst"
  shows "chosen_tables (desiredPolicyRules cfg ups ts) src dst =
    (if \<exists>v\<in>set ups. holdsPrefix (up_V6CIDR v) dst \<or> holdsPrefix (up_TransportAddress v) dst
     then {254} else {52000 + up_ID u})"
proof -
  let ?R = "desiredPolicyRules cfg ups ts"
  obtain d where d: "delegatedPrefix u = Some d" "Contains d src" using assms(5) holdsPrefix_delegated by blast
  note matching = matching_rules [OF assms(1,2,4) d assms(6)]
  have prio: "pr_priority (destRule q) < pr_priority (sourceRule f v e)" "pr_table (destRule q) = 254"
    "pr_priority (destRule q) = interUpstreamRulePriority" "pr_table (sourceRule f v e) = 52000 + up_ID v" for q f v e
    by (simp_all add: destRule_def sourceRule_def interUpstreamRulePriority_def upstreamRulePriority_def
        mainRouteTable_def upstreamRouteTable_def upstreamRouteTableBase_def)
  have chosen: "chosen_tables ?R src dst = pr_table ` {r. (r \<in> set ?R \<and> rule_matches r src dst) \<and>
      (\<forall>r'. r' \<in> set ?R \<and> rule_matches r' src dst \<longrightarrow> pr_priority r \<le> pr_priority r')}"
    unfolding chosen_tables_def by (rule arg_cong [where f = "image pr_table"]) blast
  show ?thesis
    unfolding Contains_localPrefixes [OF assms(6), symmetric, of ups cfg]
  proof (cases "\<exists>q\<in>set (localPrefixes cfg ups). Contains q dst")
    case True
    then obtain q where q: "q \<in> set (localPrefixes cfg ups)" "Contains q dst" by blast
    have "{r. (r \<in> set ?R \<and> rule_matches r src dst) \<and> (\<forall>r'. r' \<in> set ?R \<and> rule_matches r' src dst \<longrightarrow> pr_priority r \<le> pr_priority r')}
        = destRule ` {q \<in> set (localPrefixes cfg ups). Contains q dst}"
      unfolding matching using q prio(1,3) by (auto simp: not_le [symmetric] less_imp_le)
    then have "chosen_tables ?R src dst = {254}" unfolding chosen using q prio(2) by (auto simp: image_image)
    then show "chosen_tables ?R src dst = (if \<exists>q\<in>set (localPrefixes cfg ups). Contains q dst then {254} else {52000 + up_ID u})"
      using True by simp
  next
    case False
    then show "chosen_tables ?R src dst = (if \<exists>q\<in>set (localPrefixes cfg ups). Contains q dst then {254} else {52000 + up_ID u})"
      unfolding chosen matching using prio by auto
  qed
qed

text \<open>A second connection beside the sample one.\<close>

definition second_connection :: upstream where
  "second_connection = row1\<lparr>up_ID := 2, up_Name := ''b'', up_V6CIDR := ''2001:db8::/32'', up_InterfaceName := ''w2'',
     up_EgressInterface := ''e2'', up_TransportAddress := ''2001:db9::1/64'', up_EndpointHost := ''h2''\<rparr>"

theorem policy_routing_exact_witness:
  "chosen_tables (desiredPolicyRules (db_settings freshDB) [row1, second_connection] []) (Addr6 1 []) (Addr6 0x30010000000000000000000000000000 []) = {52001} \<and>
   chosen_tables (desiredPolicyRules (db_settings freshDB) [row1, second_connection] []) (Addr6 1 []) (Addr6 0x20010db8000000000000000000000000 []) = {254} \<and>
   chosen_tables (desiredPolicyRules (db_settings freshDB) [row1, second_connection] []) (Addr6 1 []) (Addr6 0x20010db9000000000000000000000005 []) = {254}"
proof -
  let ?U = "[row1, second_connection]"
  have held: "holdsPrefix f a \<longleftrightarrow> (case ParsePrefix f of None \<Rightarrow> False | Some p \<Rightarrow> Is6 (pAddr p) \<and> Contains p a)" for f a
    by (auto simp: holdsPrefix_def split: option.splits)
  have facts: "holdsPrefix (up_V6CIDR row1) (Addr6 1 [])" "distinct (map up_ID ?U)" "up_ID row1 = 1"
    "\<not> Is4 (Addr6 0x30010000000000000000000000000000 [])"
    "\<not> Is4 (Addr6 0x20010db8000000000000000000000000 [])" "\<not> Is4 (Addr6 0x20010db9000000000000000000000005 [])"
    "\<not> list_ex (\<lambda>v. holdsPrefix (up_V6CIDR v) (Addr6 0x30010000000000000000000000000000 [])
       \<or> holdsPrefix (up_TransportAddress v) (Addr6 0x30010000000000000000000000000000 [])) ?U"
    "list_ex (\<lambda>v. holdsPrefix (up_V6CIDR v) (Addr6 0x20010db8000000000000000000000000 [])
       \<or> holdsPrefix (up_TransportAddress v) (Addr6 0x20010db8000000000000000000000000 [])) ?U"
    "list_ex (\<lambda>v. holdsPrefix (up_V6CIDR v) (Addr6 0x20010db9000000000000000000000005 [])
       \<or> holdsPrefix (up_TransportAddress v) (Addr6 0x20010db9000000000000000000000005 [])) ?U"
    unfolding held by code_simp+
  have "delegatedPrefix second_connection = Some (Prefix (Addr6 0x20010db8000000000000000000000000 []) 32)"
    "upstreamConflict ascii_only second_connection (Prefix (Addr6 0x20010db8000000000000000000000000 []) 32) row1 = None"
    by code_simp+
  then have "compatible ascii_only row1 second_connection" using upstreamConflict_None by blast
  then have "coexist ascii_only ?U" using compatible_sym by (auto simp: coexist_def)
  from policy_routing_exact [OF this facts(2) _ _ facts(1)] facts show ?thesis
    unfolding list_ex_iff by simp
qed

subsection \<open>Reconciling the rules\<close>

text \<open>
  What the netlink rule calls document: \<open>RuleList\<close> lists the rules of a family; \<open>RuleAdd\<close> adds one,
  and reports an existing one; \<open>RuleDel\<close> removes one rule that agrees with the request on all
  it states, where an absent source or destination states nothing. A call that fails changes nothing.
\<close>

definition rule_fits :: "rule \<Rightarrow> rule \<Rightarrow> bool" where
  "rule_fits req r \<longleftrightarrow> ru_Family r = ru_Family req \<and> ru_Priority r = ru_Priority req \<and> ru_Table r = ru_Table req \<and>
     (ru_Src req = None \<or> ru_Src r = ru_Src req) \<and> (ru_Dst req = None \<or> ru_Dst r = ru_Dst req)"

definition rule_laws :: "'k os_api \<Rightarrow> ('k \<Rightarrow> rule set) \<Rightarrow> bool" where
  "rule_laws api rules \<longleftrightarrow>
     (\<forall>family k r k'. nl_RuleList api family k = (r, k') \<longrightarrow>
        rules k' = rules k \<and> (\<forall>l. r = Inr l \<longrightarrow> set l = {x \<in> rules k. ru_Family x = family})) \<and>
     (\<forall>x k u k'. nl_RuleAdd api x k = (Inr u, k') \<longrightarrow> rules k' = insert x (rules k)) \<and>
     (\<forall>x k e k'. nl_RuleAdd api x k = (Inl e, k') \<longrightarrow> rules k' = rules k \<and> (e = ErrExist \<longrightarrow> x \<in> rules k)) \<and>
     (\<forall>x k u k'. nl_RuleDel api x k = (Inr u, k') \<longrightarrow> (\<exists>y\<in>rules k. rule_fits x y \<and> rules k' = rules k - {y})) \<and>
     (\<forall>x k e k'. nl_RuleDel api x k = (Inl e, k') \<longrightarrow> rules k' = rules k \<and> (e = ErrNotExist \<longrightarrow> \<not> (\<exists>y\<in>rules k. rule_fits x y)))"

lemma rule_lawsD:
  assumes "rule_laws api rules"
  shows "nl_RuleList api family k = (r, k') \<Longrightarrow> rules k' = rules k"
    and "nl_RuleList api family k = (Inr l, k') \<Longrightarrow> set l = {x \<in> rules k. ru_Family x = family}"
    and "nl_RuleAdd api x k = (Inr u, k') \<Longrightarrow> rules k' = insert x (rules k)"
    and "nl_RuleAdd api x k = (Inl e, k') \<Longrightarrow> rules k' = rules k \<and> (e = ErrExist \<longrightarrow> x \<in> rules k)"
    and "nl_RuleDel api x k = (Inr u, k') \<Longrightarrow> \<exists>y\<in>rules k. rule_fits x y \<and> rules k' = rules k - {y}"
    and "nl_RuleDel api x k = (Inl e, k') \<Longrightarrow> rules k' = rules k \<and> (e = ErrNotExist \<longrightarrow> \<not> (\<exists>y\<in>rules k. rule_fits x y))"
  using assms unfolding rule_laws_def by (elim conjE; metis)+

text \<open>The rules of the application's priorities, and the form in which it adds them.\<close>

definition owned :: "rule \<Rightarrow> bool" where
  "owned r \<longleftrightarrow> ru_Priority r \<in> {interUpstreamRulePriority, upstreamRulePriority} \<and> ru_Family r \<in> {FAMILY_V4, FAMILY_V6}"

definition specific :: "rule \<Rightarrow> bool" where
  "specific r \<longleftrightarrow> (\<exists>p. canonical p \<and> (ru_Src r = Some p \<and> ru_Dst r = None \<or> ru_Src r = None \<and> ru_Dst r = Some p))"

definition ours :: "rule set \<Rightarrow> bool" where
  "ours R \<longleftrightarrow> (\<forall>r\<in>R. owned r \<longrightarrow> specific r)"

definition policyOf :: "rule \<Rightarrow> policyRule" where
  "policyOf r = \<lparr>pr_family = ru_Family r, pr_priority = ru_Priority r, pr_table = ru_Table r,
     pr_source = ipNetString (ru_Src r), pr_dest = ipNetString (ru_Dst r)\<rparr>"

lemma ipNetString_canonical: "canonical p \<Longrightarrow> ipNetString (Some p) = prefixString p"
  by (simp add: ipNetString_def parse_canonical) (simp add: canonical_def)

lemma optionalPrefix_print: "canonical p \<Longrightarrow> optionalPrefix (prefixString p) = Inr (Some p)"
  by (simp add: optionalPrefix_def MustParsePrefix_def parse_canonical prefixString_nonempty prefixIPNet_def)
     (simp add: canonical_def)

lemma optionalPrefix_Nil: "optionalPrefix [] = Inr None" "ipNetString None = []"
  by (simp_all add: optionalPrefix_def ipNetString_def)

lemma netlink_policyOf: "specific r \<Longrightarrow> netlinkRule (policyOf r) = Inr r"
  by (auto simp: specific_def netlinkRule_def policyOf_def ipNetString_canonical optionalPrefix_print optionalPrefix_Nil newRule_def)

lemma policyOf_inj: "specific r \<Longrightarrow> specific r' \<Longrightarrow> policyOf r = policyOf r' \<longleftrightarrow> r = r'"
  using netlink_policyOf by (metis sum.inject(2))

lemma fits_specific: "specific x \<Longrightarrow> specific y \<Longrightarrow> rule_fits x y \<longleftrightarrow> y = x"
  by (cases x; cases y) (auto simp: specific_def rule_fits_def)

text \<open>Every rule the driver wants is the text form of one specific rule of its own.\<close>

lemma desired_policyOf:
  assumes "d \<in> set (desiredPolicyRules cfg ups ts)"
  shows "\<exists>r. owned r \<and> specific r \<and> d = policyOf r"
proof -
  have dest: "\<exists>r. owned r \<and> specific r \<and> destRule p = policyOf r" if "canonical p" for p
    by (rule exI [of _ "newRule\<lparr>ru_Family := ruleFamily p, ru_Priority := interUpstreamRulePriority, ru_Table := mainRouteTable, ru_Dst := Some p\<rparr>"])
       (use that in \<open>auto simp: owned_def specific_def policyOf_def destRule_def newRule_def ipNetString_canonical optionalPrefix_Nil ruleFamily_def\<close>)
  have source: "\<exists>r. owned r \<and> specific r \<and> sourceRule f u p = policyOf r" if "canonical p" "f \<in> {FAMILY_V4, FAMILY_V6}" for f u p
    by (rule exI [of _ "newRule\<lparr>ru_Family := f, ru_Priority := upstreamRulePriority, ru_Table := upstreamRouteTable u, ru_Src := Some p\<rparr>"])
       (use that in \<open>auto simp: owned_def specific_def policyOf_def sourceRule_def newRule_def ipNetString_canonical optionalPrefix_Nil\<close>)
  from assms show ?thesis
    unfolding mem_desired using dest [OF localPrefixes_canonical] source canonical_host canonical6 wf6_delegated by blast
qed

text \<open>The kernel rules a set of rules in text form stands for.\<close>

definition forms :: "policyRule set \<Rightarrow> rule set" where
  "forms D = {r. specific r \<and> policyOf r \<in> D}"

lemma forms_insert: "specific r \<Longrightarrow> forms (insert (policyOf r) D) = insert r (forms D)"
  by (auto simp: forms_def policyOf_inj)

lemma tolerating_cases:
  assumes "tolerating e0 f m s = (r, s')"
  obtains x where "m s = (Inr x, s')" "r = Inr ()" | "m s = (Inl e0, s')" "r = Inr ()"
    | e where "m s = (Inl e, s')" "e \<noteq> e0" "r = Inl (f e)"
  using assms by (auto simp: tolerating_def andThen_def attempt_def split: prod.splits sum.splits if_splits)

definition addRule :: "'k os_api \<Rightarrow> policyRule \<Rightarrow> ('k machine, unit) action" where
  "addRule api r = andThen (liftResult (netlinkRule r)) (\<lambda>rule.
     tolerating ErrExist (Wrapf ''add policy rule for %s%s: %w'' [pr_source r, pr_dest r]) (os (nl_RuleAdd api rule)))"

definition delRule :: "'k os_api \<Rightarrow> policyRule \<Rightarrow> ('k machine, unit) action" where
  "delRule api r = andThen (liftResult (netlinkRule r)) (\<lambda>rule.
     tolerating ErrNotExist (Wrapf ''remove stale policy rule for %s%s: %w'' [pr_source r, pr_dest r]) (os (nl_RuleDel api rule)))"

lemma os_run: "os m s = (r, s') \<longleftrightarrow> (\<exists>k. m (mc_kernel s) = (r, k) \<and> s' = s\<lparr>mc_kernel := k\<rparr>)"
  by (auto simp: os_def zoom_def split: prod.splits)

lemma addRule_step:
  assumes "rule_laws api rules" "specific r" "addRule api (policyOf r) m = (res, m')"
  shows "rules (mc_kernel m') = (if res = Inr () then insert r (rules (mc_kernel m)) else rules (mc_kernel m))"
proof -
  have "tolerating ErrExist (Wrapf ''add policy rule for %s%s: %w'' [pr_source (policyOf r), pr_dest (policyOf r)])
      (os (nl_RuleAdd api r)) m = (res, m')"
    using assms(2,3) by (simp add: addRule_def netlink_policyOf andThen_def)
  then show ?thesis by (rule tolerating_cases) (use rule_lawsD(3,4) [OF assms(1)] in \<open>fastforce simp: os_run\<close>)+
qed

lemma delRule_step:
  assumes "rule_laws api rules" "specific r" "owned r" "ours (rules (mc_kernel m))" "delRule api (policyOf r) m = (res, m')"
  shows "rules (mc_kernel m') = (if res = Inr () then rules (mc_kernel m) - {r} else rules (mc_kernel m))"
proof -
  have fits: "y = r" if "y \<in> rules (mc_kernel m)" "rule_fits r y" for y
  proof -
    have "owned y" using that(2) assms(3) by (simp add: owned_def rule_fits_def)
    then show ?thesis using that assms(2,4) fits_specific by (auto simp: ours_def)
  qed
  have self: "rule_fits r r" by (simp add: rule_fits_def)
  have "tolerating ErrNotExist (Wrapf ''remove stale policy rule for %s%s: %w'' [pr_source (policyOf r), pr_dest (policyOf r)])
      (os (nl_RuleDel api r)) m = (res, m')"
    using assms(2,5) by (simp add: delRule_def netlink_policyOf andThen_def)
  then show ?thesis
  proof (rule tolerating_cases)
    fix u assume "os (nl_RuleDel api r) m = (Inr u, m')" "res = Inr ()"
    then obtain k where k: "nl_RuleDel api r (mc_kernel m) = (Inr u, k)" "mc_kernel m' = k" "res = Inr ()" by (auto simp: os_run)
    then obtain y where "y \<in> rules (mc_kernel m)" "rule_fits r y" "rules k = rules (mc_kernel m) - {y}"
      using rule_lawsD(5) [OF assms(1) k(1)] by blast
    then show ?thesis using fits [of y] k by simp
  next
    assume "os (nl_RuleDel api r) m = (Inl ErrNotExist, m')" "res = Inr ()"
    then show ?thesis using rule_lawsD(6) [OF assms(1)] self by (fastforce simp: os_run)
  next
    fix e assume "os (nl_RuleDel api r) m = (Inl e, m')" "res = Inl (Wrapf ''remove stale policy rule for %s%s: %w'' [pr_source (policyOf r), pr_dest (policyOf r)] e)"
    then show ?thesis using rule_lawsD(6) [OF assms(1)] by (auto simp: os_run)
  qed
qed

text \<open>A loop over rules adds, or removes, those it reaches, and reaches all of them when it succeeds.\<close>

lemma each_reaches:
  assumes step: "\<And>d m res m'. d \<in> set ds \<Longrightarrow> I m \<Longrightarrow> f d m = (res, m') \<Longrightarrow> I m' \<and> v m' = (if res = Inr () then g {d} (v m) else v m)"
    and g: "\<And>R. g {} R = R" "\<And>D E R. g D (g E R) = g (E \<union> D) R"
  shows "I m \<Longrightarrow> each f ds m = (res, m') \<Longrightarrow> I m' \<and> (\<exists>D\<subseteq>set ds. (res = Inr () \<longrightarrow> D = set ds) \<and> v m' = g D (v m))"
  using step
proof (induction ds arbitrary: m)
  case Nil
  then show ?case using g(1) by auto
next
  case (Cons d ds)
  obtain r1 m1 where d: "f d m = (r1, m1)" by (cases "f d m")
  have m1: "I m1 \<and> v m1 = (if r1 = Inr () then g {d} (v m) else v m)" using Cons.prems(3) [OF _ Cons.prems(1) d] by simp
  show ?case
  proof (cases r1)
    case (Inl e)
    then have "res = Inl e" "m' = m1" using Cons.prems(2) d by simp_all
    then show ?thesis using m1 Inl g(1) by (auto intro!: exI [of _ "{}"])
  next
    case (Inr u)
    then have "each f ds m1 = (res, m')" using Cons.prems(2) d by simp
    from Cons.IH [OF _ this] Cons.prems(3) m1 obtain D where D: "I m'" "D \<subseteq> set ds" "res = Inr () \<longrightarrow> D = set ds" "v m' = g D (v m1)"
      by (metis list.set_intros(2))
    then show ?thesis using m1 Inr g(2) by (auto intro!: exI [of _ "insert d D"])
  qed
qed

lemma currentPolicyRules_reads:
  assumes "rule_laws api rules" "currentPolicyRules api m = (res, m')"
  shows "rules (mc_kernel m') = rules (mc_kernel m)"
    and "res = Inr existing \<Longrightarrow> set existing = policyOf ` {r \<in> rules (mc_kernel m). owned r}"
proof -
  have own: "set (concat (map (ownedRule f) l)) = policyOf ` {r \<in> set l. owned r}"
    if "set l = {x \<in> R. ru_Family x = f}" "f \<in> {FAMILY_V4, FAMILY_V6}" for f l R
    using that by (auto simp: ownedRule_def owned_def policyOf_def image_iff split: if_splits)
  show keep: "rules (mc_kernel m') = rules (mc_kernel m)"
    using assms(2) rule_lawsD(1) [OF assms(1)]
    by (auto simp: currentPolicyRules_def andThen_def os_run split: prod.splits sum.splits)
  assume "res = Inr existing"
  then obtain l4 l6 k where l: "nl_RuleList api FAMILY_V4 (mc_kernel m) = (Inr l4, k)" "nl_RuleList api FAMILY_V6 k = (Inr l6, mc_kernel m')"
    and e: "existing = remdups (concat (map (ownedRule FAMILY_V4) l4) @ concat (map (ownedRule FAMILY_V6) l6))"
    using assms(2) by (auto simp: currentPolicyRules_def andThen_Inr os_run)
  have 4: "set l4 = {x \<in> rules (mc_kernel m). ru_Family x = FAMILY_V4}" using rule_lawsD(2) [OF assms(1) l(1)] .
  have 6: "set l6 = {x \<in> rules (mc_kernel m). ru_Family x = FAMILY_V6}"
    using rule_lawsD(2) [OF assms(1) l(2)] rule_lawsD(1) [OF assms(1) l(1)] by simp
  have "set existing = policyOf ` {r \<in> set l4. owned r} \<union> policyOf ` {r \<in> set l6. owned r}"
    unfolding e set_remdups set_append using own [OF 4] own [OF 6] by simp
  also have "\<dots> = policyOf ` {r \<in> rules (mc_kernel m). owned r}" unfolding 4 6 by (auto simp: owned_def)
  finally show "set existing = policyOf ` {r \<in> rules (mc_kernel m). owned r}" .
qed

lemma adds_reach:
  assumes "rule_laws api rules" "\<And>d. d \<in> set ds \<Longrightarrow> \<exists>r. specific r \<and> d = policyOf r" "each (addRule api) ds m = (res, m')"
  shows "\<exists>D\<subseteq>set ds. (res = Inr () \<longrightarrow> D = set ds) \<and> rules (mc_kernel m') = rules (mc_kernel m) \<union> forms D"
proof -
  have "rules (mc_kernel m1') = (if r1 = Inr () then rules (mc_kernel m1) \<union> forms {d} else rules (mc_kernel m1))"
    if d: "d \<in> set ds" and run: "addRule api d m1 = (r1, m1')" for d m1 r1 m1'
  proof -
    obtain r where r: "specific r" "d = policyOf r" using assms(2) [OF d] by blast
    then show ?thesis using addRule_step [OF assms(1) r(1)] run forms_insert [OF r(1), of "{}"] by (auto simp: forms_def)
  qed
  then show ?thesis
    using each_reaches [where I = "\<lambda>_. True" and v = "\<lambda>m. rules (mc_kernel m)" and g = "\<lambda>D R. R \<union> forms D", of ds "addRule api" m res m']
      assms(3) by (auto simp: forms_def)
qed

lemma dels_reach:
  assumes "rule_laws api rules" "\<And>d. d \<in> set ds \<Longrightarrow> \<exists>r. specific r \<and> owned r \<and> d = policyOf r"
    and "ours (rules (mc_kernel m))" "each (delRule api) ds m = (res, m')"
  shows "\<exists>D\<subseteq>set ds. (res = Inr () \<longrightarrow> D = set ds) \<and> rules (mc_kernel m') = rules (mc_kernel m) - forms D"
proof -
  have step: "ours (rules (mc_kernel m1')) \<and> rules (mc_kernel m1') = (if r1 = Inr () then rules (mc_kernel m1) - forms {d} else rules (mc_kernel m1))"
    if d: "d \<in> set ds" and o: "ours (rules (mc_kernel m1))" and run: "delRule api d m1 = (r1, m1')" for d m1 r1 m1'
  proof -
    obtain r where r: "specific r" "owned r" "d = policyOf r" using assms(2) [OF d] by blast
    have "forms {d} = {r}" using r forms_insert [OF r(1), of "{}"] by (simp add: forms_def)
    then have "rules (mc_kernel m1') = (if r1 = Inr () then rules (mc_kernel m1) - forms {d} else rules (mc_kernel m1))"
      using delRule_step [OF assms(1) r(1,2) o run [unfolded r(3)]] by simp
    then show ?thesis using o by (auto simp: ours_def)
  qed
  have "R - forms E - forms D = R - forms (E \<union> D)" "R - forms {} = R" for R D E by (auto simp: forms_def)
  from each_reaches [where I = "\<lambda>m. ours (rules (mc_kernel m))" and v = "\<lambda>m. rules (mc_kernel m)" and g = "\<lambda>D R. R - forms D",
      OF step this(2,1) assms(3,4)] show ?thesis by (rule conjunct2)
qed

lemma reconcile_phases:
  "reconcilePolicyRules api desired = andThen (currentPolicyRules api) (\<lambda>existing.
     andThen (each (addRule api) (filter (\<lambda>r. r \<notin> set existing) desired)) (\<lambda>_.
     each (delRule api) (filter (\<lambda>r. r \<notin> set desired) existing)))"
  by (simp add: reconcilePolicyRules_def addRule_def [abs_def] delRule_def [abs_def])

lemma netlink_desired:
  "(\<exists>d\<in>set (desiredPolicyRules cfg ups ts). netlinkRule d = Inr r) \<longleftrightarrow> r \<in> forms (set (desiredPolicyRules cfg ups ts))"
proof
  assume "\<exists>d\<in>set (desiredPolicyRules cfg ups ts). netlinkRule d = Inr r"
  then obtain d where d: "d \<in> set (desiredPolicyRules cfg ups ts)" "netlinkRule d = Inr r" by blast
  then obtain r' where "specific r'" "d = policyOf r'" using desired_policyOf by blast
  then show "r \<in> forms (set (desiredPolicyRules cfg ups ts))" using d netlink_policyOf by (auto simp: forms_def)
next
  assume "r \<in> forms (set (desiredPolicyRules cfg ups ts))"
  then show "\<exists>d\<in>set (desiredPolicyRules cfg ups ts). netlinkRule d = Inr r" using netlink_policyOf by (auto simp: forms_def)
qed

text \<open>What one pass adds and removes, in terms of the rules found.\<close>

lemma reconcile_trace:
  assumes laws: "rule_laws api rules" and own: "ours (rules (mc_kernel m))"
    and des: "\<And>d. d \<in> set desired \<Longrightarrow> \<exists>r. owned r \<and> specific r \<and> d = policyOf r"
    and run: "reconcilePolicyRules api desired m = (res, m')"
    and E: "E = policyOf ` {r \<in> rules (mc_kernel m). owned r}"
  shows "\<exists>A\<subseteq>set desired - E. \<exists>D\<subseteq>E - set desired. rules (mc_kernel m') = rules (mc_kernel m) \<union> forms A - forms D \<and>
     (res = Inr () \<longrightarrow> A = set desired - E \<and> D = E - set desired)"
proof -
  let ?R = "rules (mc_kernel m)"
  have none: ?thesis if "rules (mc_kernel m') = ?R \<union> forms A" "A \<subseteq> set desired - E" "res = Inl e" for A e
    using that by (intro exI [of _ A] conjI exI [of _ "{}"]) (auto simp: forms_def)
  obtain r0 m0 where cur: "currentPolicyRules api m = (r0, m0)" by (cases "currentPolicyRules api m")
  have m0: "rules (mc_kernel m0) = ?R" using currentPolicyRules_reads(1) [OF laws cur] .
  show ?thesis
  proof (cases r0)
    case (Inl e)
    then have "m' = m0" "res = Inl e" using run cur by (auto simp: reconcile_phases)
    then show ?thesis using none [of "{}"] m0 by (simp add: forms_def)
  next
    case (Inr existing)
    have ex: "set existing = E" using currentPolicyRules_reads(2) [OF laws cur Inr] E by simp
    let ?new = "filter (\<lambda>r. r \<notin> set existing) desired" and ?old = "filter (\<lambda>r. r \<notin> set desired) existing"
    have sets: "set ?new = set desired - E" "set ?old = E - set desired" using ex by auto
    obtain r1 m1 where add: "each (addRule api) ?new m0 = (r1, m1)" by (cases "each (addRule api) ?new m0")
    have "\<exists>r. specific r \<and> d = policyOf r" if "d \<in> set ?new" for d using des that by auto
    from adds_reach [OF laws this add] obtain A where A: "A \<subseteq> set desired - E"
      "r1 = Inr () \<longrightarrow> A = set desired - E" "rules (mc_kernel m1) = ?R \<union> forms A"
      unfolding m0 sets by blast
    show ?thesis
    proof (cases r1)
      case (Inl e)
      then have "res = Inl e" "m' = m1" using run cur Inr add by (auto simp: reconcile_phases)
      then show ?thesis using none A(1,3) by blast
    next
      case (Inr u)
      have del: "each (delRule api) ?old m1 = (res, m')" using run cur \<open>r0 = Inr existing\<close> add Inr by (simp add: reconcile_phases)
      have own1: "ours (rules (mc_kernel m1))" using own A(3) by (auto simp: ours_def forms_def)
      have "\<exists>r. specific r \<and> owned r \<and> d = policyOf r" if "d \<in> set ?old" for d
        using own that unfolding sets E ours_def by blast
      from dels_reach [OF laws this own1 del] obtain D where "D \<subseteq> E - set desired" "res = Inr () \<longrightarrow> D = E - set desired"
        "rules (mc_kernel m') = ?R \<union> forms A - forms D"
        unfolding A(3) sets by blast
      moreover have "A = set desired - E" using A(2) Inr by simp
      ultimately show ?thesis by blast
    qed
  qed
qed

lemma reconcile_sets:
  assumes laws: "rule_laws api rules" and own: "ours (rules (mc_kernel m))"
    and des: "\<And>d. d \<in> set desired \<Longrightarrow> \<exists>r. owned r \<and> specific r \<and> d = policyOf r"
    and run: "reconcilePolicyRules api desired m = (res, m')"
  shows "{r \<in> rules (mc_kernel m'). \<not> owned r} = {r \<in> rules (mc_kernel m). \<not> owned r}"
    and "res = Inr () \<Longrightarrow> {r \<in> rules (mc_kernel m'). owned r} = forms (set desired)"
proof -
  let ?R = "rules (mc_kernel m)" and ?E = "policyOf ` {r \<in> rules (mc_kernel m). owned r}"
  have forms_owned: "owned r" if rD: "r \<in> forms D" "D \<subseteq> set desired \<union> ?E" for r D
  proof -
    have "policyOf r \<in> D" using rD(1) by (simp add: forms_def)
    then obtain x where "owned x" "policyOf r = policyOf x" using rD(2) des by blast
    then show ?thesis by (auto simp: owned_def policyOf_def)
  qed
  have known: "forms ?E = {r \<in> ?R. owned r}" using own policyOf_inj by (auto simp: forms_def ours_def)
  obtain A D where AD: "A \<subseteq> set desired - ?E" "D \<subseteq> ?E - set desired" "rules (mc_kernel m') = ?R \<union> forms A - forms D"
    "res = Inr () \<longrightarrow> A = set desired - ?E \<and> D = ?E - set desired"
    using reconcile_trace [OF laws own des run refl] by blast
  show "{r \<in> rules (mc_kernel m'). \<not> owned r} = {r \<in> ?R. \<not> owned r}"
  proof -
    have "A \<subseteq> set desired \<union> ?E" "D \<subseteq> set desired \<union> ?E" using AD(1,2) by blast+
    then have "\<forall>r\<in>forms A. owned r" "\<forall>r\<in>forms D. owned r" using forms_owned by metis+
    then show ?thesis using AD(3) by auto
  qed
  assume "res = Inr ()"
  then have "{r \<in> rules (mc_kernel m'). owned r} = {r \<in> ?R \<union> forms (set desired - ?E) - forms (?E - set desired). owned r}"
    using AD(3,4) by simp
  also have "\<dots> = forms (set desired)"
  proof -
    have "forms (set desired - ?E) = forms (set desired) - forms ?E" "forms (?E - set desired) = forms ?E - forms (set desired)"
      by (auto simp: forms_def)
    moreover have "\<forall>r\<in>forms (set desired). owned r" using forms_owned [of _ "set desired"] by auto
    ultimately show ?thesis unfolding known by auto
  qed
  finally show "{r \<in> rules (mc_kernel m'). owned r} = forms (set desired)" .
qed

text \<open>The rules of other priorities are out of reach whatever the rules found look like.\<close>

definition others :: "rule set \<Rightarrow> rule set" where
  "others R = {r \<in> R. \<not> (ru_Priority r \<in> {80, 110} \<and> ru_Family r \<in> {2, 10})}"

lemma others_owned: "others R = {r \<in> R. \<not> owned r}"
  by (auto simp: others_def owned_def interUpstreamRulePriority_def upstreamRulePriority_def FAMILY_V4_def FAMILY_V6_def)

definition own_text :: "policyRule \<Rightarrow> bool" where
  "own_text d \<longleftrightarrow> pr_priority d \<in> {interUpstreamRulePriority, upstreamRulePriority} \<and> pr_family d \<in> {FAMILY_V4, FAMILY_V6}"

lemma own_text_policyOf: "own_text (policyOf r) \<longleftrightarrow> owned r"
  by (simp add: own_text_def owned_def policyOf_def)

lemma own_text_netlink: "own_text d \<Longrightarrow> netlinkRule d = Inr r \<Longrightarrow> owned r"
  by (auto simp: own_text_def owned_def netlinkRule_def newRule_def split: sum.splits)

lemma rule_steps_others:
  assumes "rule_laws api rules" "own_text d"
  shows "addRule api d m = (res, m') \<Longrightarrow> others (rules (mc_kernel m')) = others (rules (mc_kernel m))"
    and "delRule api d m = (res, m') \<Longrightarrow> others (rules (mc_kernel m')) = others (rules (mc_kernel m))"
proof -
  show "others (rules (mc_kernel m')) = others (rules (mc_kernel m))" if run: "addRule api d m = (res, m')"
  proof (cases "netlinkRule d")
    case (Inr r)
    have "owned r" using own_text_netlink assms(2) Inr by blast
    moreover have "tolerating ErrExist (Wrapf ''add policy rule for %s%s: %w'' [pr_source d, pr_dest d]) (os (nl_RuleAdd api r)) m = (res, m')"
      using run Inr by (simp add: addRule_def)
    then have "rules (mc_kernel m') = rules (mc_kernel m) \<or> rules (mc_kernel m') = insert r (rules (mc_kernel m))"
      by (rule tolerating_cases) (use rule_lawsD(3,4) [OF assms(1)] in \<open>fastforce simp: os_run\<close>)+
    ultimately show ?thesis unfolding others_owned by auto
  qed (use run in \<open>simp add: addRule_def\<close>)
  show "others (rules (mc_kernel m')) = others (rules (mc_kernel m))" if run: "delRule api d m = (res, m')"
  proof (cases "netlinkRule d")
    case (Inr r)
    have "owned r" using own_text_netlink assms(2) Inr by blast
    then have own: "owned y" if "rule_fits r y" for y using that by (simp add: owned_def rule_fits_def)
    have "tolerating ErrNotExist (Wrapf ''remove stale policy rule for %s%s: %w'' [pr_source d, pr_dest d]) (os (nl_RuleDel api r)) m = (res, m')"
      using run Inr by (simp add: delRule_def)
    then have "rules (mc_kernel m') = rules (mc_kernel m) \<or> (\<exists>y. rule_fits r y \<and> rules (mc_kernel m') = rules (mc_kernel m) - {y})"
      by (rule tolerating_cases) (use rule_lawsD(5,6) [OF assms(1)] in \<open>fastforce simp: os_run\<close>)+
    then show ?thesis unfolding others_owned using own by auto
  qed (use run in \<open>simp add: delRule_def\<close>)
qed

lemma each_keeps_view:
  assumes "\<And>d m res m'. d \<in> set ds \<Longrightarrow> f d m = (res, m') \<Longrightarrow> v m' = v m" "each f ds m = (res, m')"
  shows "v m' = v m"
  using each_reaches [where I = "\<lambda>_. True" and v = v and g = "\<lambda>_ R. R", of ds f m res m'] assms by auto

lemma reconcile_others:
  assumes laws: "rule_laws api rules" and des: "\<And>d. d \<in> set desired \<Longrightarrow> own_text d"
    and run: "reconcilePolicyRules api desired m = (res, m')"
  shows "others (rules (mc_kernel m')) = others (rules (mc_kernel m))"
proof -
  obtain r0 m0 where cur: "currentPolicyRules api m = (r0, m0)" by (cases "currentPolicyRules api m")
  have m0: "rules (mc_kernel m0) = rules (mc_kernel m)" using currentPolicyRules_reads(1) [OF laws cur] .
  show ?thesis
  proof (cases r0)
    case (Inl e)
    then show ?thesis using run cur m0 by (simp add: reconcile_phases)
  next
    case (Inr existing)
    have old: "own_text d" if "d \<in> set existing" for d
      using currentPolicyRules_reads(2) [OF laws cur Inr] that own_text_policyOf by auto
    let ?new = "filter (\<lambda>r. r \<notin> set existing) desired" and ?old = "filter (\<lambda>r. r \<notin> set desired) existing"
    obtain r1 m1 where add: "each (addRule api) ?new m0 = (r1, m1)" by (cases "each (addRule api) ?new m0")
    have m1: "others (rules (mc_kernel m1)) = others (rules (mc_kernel m0))"
      by (rule each_keeps_view [OF _ add, of "\<lambda>m. others (rules (mc_kernel m))"]) (use rule_steps_others(1) [OF laws des] in auto)
    show ?thesis
    proof (cases r1)
      case (Inl e)
      then show ?thesis using run cur \<open>r0 = Inr existing\<close> add m1 m0 by (simp add: reconcile_phases)
    next
      case (Inr u)
      then have "each (delRule api) ?old m1 = (res, m')" using run cur \<open>r0 = Inr existing\<close> add by (simp add: reconcile_phases)
      then have "others (rules (mc_kernel m')) = others (rules (mc_kernel m1))"
        by (rule each_keeps_view [rotated, of _ _ _ _ _ "\<lambda>m. others (rules (mc_kernel m))"]) (use rule_steps_others(2) [OF laws old] in auto)
      then show ?thesis using m1 m0 by simp
    qed
  qed
qed

text \<open>
  C11. Reconciling the policy rules is confined to the application's own priorities, and converges: under
  the documented behaviour of the rule calls, rules of priorities other than 80 and 110 are never
  touched, however it ends and whatever is there; when it succeeds, and every rule found at the two
  priorities has the form it adds them in (exactly one of source and destination, in canonical form:
  stale, missing or partly applied rules of an earlier run), the rules of the two priorities are
  exactly the desired ones. A rule with neither source nor destination at these priorities is not
  covered, because the request that removes it matches any rule of its table.
\<close>

theorem policy_rules_converge:
  assumes "rule_laws api rules"
    and "reconcilePolicyRules api (desiredPolicyRules cfg ups ts) m = (res, m')"
  shows "others (rules (mc_kernel m')) = others (rules (mc_kernel m)) \<and>
    (res = Inr () \<and> ours (rules (mc_kernel m)) \<longrightarrow> rules (mc_kernel m') = others (rules (mc_kernel m)) \<union>
       {r. \<exists>d\<in>set (desiredPolicyRules cfg ups ts). netlinkRule d = Inr r})"
proof (intro conjI impI)
  show "others (rules (mc_kernel m')) = others (rules (mc_kernel m))"
    using reconcile_others [OF assms(1) _ assms(2)] desired_policyOf own_text_policyOf by metis
  assume ok: "res = Inr () \<and> ours (rules (mc_kernel m))"
  have "{r \<in> rules (mc_kernel m'). \<not> owned r} = {r \<in> rules (mc_kernel m). \<not> owned r}"
    "{r \<in> rules (mc_kernel m'). owned r} = forms (set (desiredPolicyRules cfg ups ts))"
    using reconcile_sets [OF assms(1) _ _ assms(2)] desired_policyOf ok by blast+
  then show "rules (mc_kernel m') = others (rules (mc_kernel m)) \<union> {r. \<exists>d\<in>set (desiredPolicyRules cfg ups ts). netlinkRule d = Inr r}"
    unfolding netlink_desired others_owned by blast
qed

text \<open>A kernel that is a list of rules and does nothing else.\<close>

definition rule_kernel :: "rule list os_api" where
  "rule_kernel = \<lparr>nl_LinkByName = (\<lambda>_. throw LinkNotFound), nl_LinkAdd = (\<lambda>_. throw ErrExist),
     nl_LinkSetMTU = (\<lambda>_ _. return ()), nl_LinkSetUp = (\<lambda>_. return ()), nl_LinkDel = (\<lambda>_. return ()),
     nl_AddrList = (\<lambda>_ _. return []), nl_AddrDel = (\<lambda>_ _. return ()), nl_AddrReplace = (\<lambda>_ _. return ()),
     nl_RouteList = (\<lambda>_ _. return []), nl_RouteListTable = (\<lambda>_ _. return []), nl_RouteReplace = (\<lambda>_. return ()),
     nl_RouteDel = (\<lambda>_. return ()),
     nl_RuleList = (\<lambda>f. reads (filter (\<lambda>r. ru_Family r = f))),
     nl_RuleAdd = (\<lambda>r k. if r \<in> set k then (Inl ErrExist, k) else (Inr (), r # k)),
     nl_RuleDel = (\<lambda>r k. case filter (rule_fits r) k of [] \<Rightarrow> (Inl ErrNotExist, k) | y # _ \<Rightarrow> (Inr (), removeAll y k)),
     wg_New = return (), wg_Device = (\<lambda>_. return []), wg_ConfigureDevice = (\<lambda>_ _. return ()), wg_ParseKey = Inr,
     os_ReadFile = (\<lambda>_. return []), os_WriteFile = (\<lambda>_ _. return ()), os_nft = (\<lambda>_. return ([], None)),
     net_Resolve = return, net_Trace = (\<lambda>_. return (200, [])), os_ndp = sample_sys, os_unicode = ascii_only, os_text = (\<lambda>_. [])\<rparr>"

lemma rule_kernel_laws: "rule_laws rule_kernel set"
proof -
  have head: "\<exists>y\<in>set k. P y \<and> set (removeAll y' k) = set k - {y}" if "filter P k = y' # ys" for P and k :: "rule list" and y' ys
    using that filter_eq_ConsD [OF that] by auto
  show ?thesis
    unfolding rule_laws_def rule_kernel_def
    by (auto simp: filter_empty_conv ErrExist_def ErrNotExist_def dest!: head split: if_splits list.splits)
qed

definition foreign_rule :: rule where
  "foreign_rule = newRule\<lparr>ru_Family := 10, ru_Priority := 32766, ru_Table := 254\<rparr>"

definition stale_rule :: rule where
  "stale_rule = newRule\<lparr>ru_Family := 10, ru_Priority := 110, ru_Table := 52009, ru_Src := Some (Prefix (Addr6 0 []) 64)\<rparr>"

definition sample_machine :: "rule list machine" where
  "sample_machine = \<lparr>mc_kernel = [foreign_rule, stale_rule], mc_ndp = (Map.empty, []), mc_ndpNames = []\<rparr>"

lemma sample_ours: "ours (set (mc_kernel sample_machine))"
proof -
  have "canonical (Prefix (Addr6 0 []) 64)" unfolding canonical_def by code_simp
  then show ?thesis
    by (auto simp: ours_def sample_machine_def owned_def specific_def foreign_rule_def stale_rule_def newRule_def
        interUpstreamRulePriority_def upstreamRulePriority_def)
qed

theorem policy_rules_converge_witness:
  "foreign_rule \<in> set (mc_kernel (snd (reconcilePolicyRules rule_kernel (desiredPolicyRules (db_settings freshDB) [row1] []) sample_machine))) \<and>
   stale_rule \<notin> set (mc_kernel (snd (reconcilePolicyRules rule_kernel (desiredPolicyRules (db_settings freshDB) [row1] []) sample_machine)))"
proof -
  let ?D = "desiredPolicyRules (db_settings freshDB) [row1] []"
  obtain m' where run: "reconcilePolicyRules rule_kernel ?D sample_machine = (Inr (), m')"
  proof -
    have "is_ok (fst (reconcilePolicyRules rule_kernel ?D sample_machine))" by code_simp
    then show thesis using that by (cases "reconcilePolicyRules rule_kernel ?D sample_machine") (auto simp: is_ok_iff)
  qed
  have known: "\<not> owned foreign_rule" "owned stale_rule" "foreign_rule \<in> set (mc_kernel sample_machine)"
    "\<not> list_ex (\<lambda>d. netlinkRule d = Inr stale_rule) ?D"
    by code_simp+
  from policy_rules_converge [OF rule_kernel_laws run] sample_ours known show ?thesis
    unfolding run list_ex_iff others_owned by auto
qed

text \<open>The rule calls fail in no other way than the two the code tolerates.\<close>

definition rule_calls_work :: "'k os_api \<Rightarrow> bool" where
  "rule_calls_work api \<longleftrightarrow>
     (\<forall>f k. \<exists>l k'. nl_RuleList api f k = (Inr l, k')) \<and>
     (\<forall>r k e k'. nl_RuleAdd api r k = (Inl e, k') \<longrightarrow> e = ErrExist) \<and>
     (\<forall>r k e k'. nl_RuleDel api r k = (Inl e, k') \<longrightarrow> e = ErrNotExist)"

lemma rule_calls_workD:
  assumes "rule_calls_work api"
  shows "\<exists>l k'. nl_RuleList api f k = (Inr l, k')"
    and "nl_RuleAdd api r k = (Inl e, k') \<Longrightarrow> e = ErrExist" "nl_RuleDel api r k = (Inl e, k') \<Longrightarrow> e = ErrNotExist"
  using assms unfolding rule_calls_work_def by (elim conjE; metis)+

lemma currentPolicyRules_ok:
  assumes "rule_calls_work api"
  shows "\<exists>ex m'. currentPolicyRules api m = (Inr ex, m')"
proof -
  obtain l4 k4 where 4: "nl_RuleList api FAMILY_V4 (mc_kernel m) = (Inr l4, k4)" using rule_calls_workD(1) [OF assms] by blast
  obtain l6 k6 where "nl_RuleList api FAMILY_V6 k4 = (Inr l6, k6)" using rule_calls_workD(1) [OF assms] by blast
  then show ?thesis using 4 by (simp add: currentPolicyRules_def os_def zoom_def andThen_def)
qed

lemma each_ok:
  assumes "\<And>x m. x \<in> set xs \<Longrightarrow> \<exists>m'. f x m = (Inr (), m')"
  shows "\<exists>m'. each f xs m = (Inr (), m')"
  using assms
proof (induction xs arbitrary: m)
  case (Cons x xs)
  obtain m1 where "f x m = (Inr (), m1)" using Cons.prems by force
  then show ?case using Cons by auto
qed simp

lemma tolerating_ok:
  assumes "\<And>e s'. m s = (Inl e, s') \<Longrightarrow> e = e0"
  shows "\<exists>s'. tolerating e0 f m s = (Inr (), s')"
  using assms by (cases "m s"; cases "fst (m s)") (auto simp: tolerating_def andThen_def attempt_def)

lemma rule_steps_ok:
  assumes "rule_calls_work api" "specific r"
  shows "\<exists>m'. addRule api (policyOf r) m = (Inr (), m')" "\<exists>m'. delRule api (policyOf r) m = (Inr (), m')"
  using rule_calls_workD [OF assms(1)] unfolding addRule_def delRule_def netlink_policyOf [OF assms(2)]
  by (auto simp: andThen_def os_run intro!: tolerating_ok)

text \<open>
  C22. The desired rules are always reached: when the rule calls fail only by reporting a rule that is
  already there or already gone, and every rule found at the application's two priorities has the form
  it adds them in (exactly one of source and destination, in canonical form), reconciling succeeds and
  leaves exactly the desired rules there, and a second pass succeeds and leaves the same rules.
\<close>

theorem policy_rules_reached:
  assumes "rule_laws api rules" "rule_calls_work api" "ours (rules (mc_kernel m))"
  shows "\<exists>m' m''. reconcilePolicyRules api (desiredPolicyRules cfg ups ts) m = (Inr (), m') \<and>
    {r \<in> rules (mc_kernel m'). owned r} = {r. \<exists>d\<in>set (desiredPolicyRules cfg ups ts). netlinkRule d = Inr r} \<and>
    reconcilePolicyRules api (desiredPolicyRules cfg ups ts) m' = (Inr (), m'') \<and> rules (mc_kernel m'') = rules (mc_kernel m')"
proof -
  let ?D = "desiredPolicyRules cfg ups ts"
  have ok: "\<exists>m'. reconcilePolicyRules api ?D m1 = (Inr (), m')" if own: "ours (rules (mc_kernel m1))" for m1
  proof -
    obtain ex m0 where cur: "currentPolicyRules api m1 = (Inr ex, m0)" using currentPolicyRules_ok [OF assms(2)] by blast
    have old: "\<exists>r. specific r \<and> d = policyOf r" if "d \<in> set ex" for d
      using currentPolicyRules_reads(2) [OF assms(1) cur refl] own that by (auto simp: ours_def)
    have new: "\<exists>r. specific r \<and> d = policyOf r" if "d \<in> set ?D" for d using desired_policyOf [OF that] by blast
    obtain m2 where m2: "each (addRule api) (filter (\<lambda>r. r \<notin> set ex) ?D) m0 = (Inr (), m2)"
      using each_ok [of _ "addRule api"] rule_steps_ok(1) [OF assms(2)] new by (metis filter_is_subset subsetD)
    obtain m3 where "each (delRule api) (filter (\<lambda>r. r \<notin> set ?D) ex) m2 = (Inr (), m3)"
      using each_ok [of _ "delRule api"] rule_steps_ok(2) [OF assms(2)] old by (metis filter_is_subset subsetD)
    then show ?thesis using cur m2 by (simp add: reconcile_phases)
  qed
  obtain m' where m': "reconcilePolicyRules api ?D m = (Inr (), m')" using ok assms(3) by blast
  have first: "{r \<in> rules (mc_kernel m'). owned r} = forms (set ?D)"
    using reconcile_sets(2) [OF assms(1,3) _ m'] desired_policyOf by blast
  have own': "ours (rules (mc_kernel m'))" using first by (auto simp: ours_def forms_def)
  obtain m'' where m'': "reconcilePolicyRules api ?D m' = (Inr (), m'')" using ok own' by blast
  have "{r \<in> rules (mc_kernel m''). owned r} = forms (set ?D)"
    "{r \<in> rules (mc_kernel m''). \<not> owned r} = {r \<in> rules (mc_kernel m'). \<not> owned r}"
    using reconcile_sets [OF assms(1) own' _ m''] desired_policyOf by blast+
  then have "rules (mc_kernel m'') = rules (mc_kernel m')" using first by blast
  then show ?thesis using m' m'' first unfolding netlink_desired by auto
qed

theorem policy_rules_reached_witness:
  "\<exists>m'. reconcilePolicyRules rule_kernel (desiredPolicyRules (db_settings freshDB) [row1] []) sample_machine = (Inr (), m')"
proof -
  have "rule_calls_work rule_kernel"
    by (auto simp: rule_calls_work_def rule_kernel_def split: if_splits list.splits)
  from policy_rules_reached [OF rule_kernel_laws this sample_ours] show ?thesis by blast
qed

text \<open>
  The form of the rules found matters: from a rule at priority 110 that states no source, beside a
  desired one of the same table, a successful pass removes the desired rule and keeps the other.
\<close>

definition broad_rule :: rule where
  "broad_rule = newRule\<lparr>ru_Family := 10, ru_Priority := 110, ru_Table := 52001\<rparr>"

definition wanted_rule :: rule where
  "wanted_rule = broad_rule\<lparr>ru_Src := Some (Prefix (Addr6 0 []) 63)\<rparr>"

definition broad_machine :: "rule list machine" where
  "broad_machine = sample_machine\<lparr>mc_kernel := [wanted_rule, broad_rule]\<rparr>"

definition broad_run :: "unit result \<times> rule list machine" where
  "broad_run = reconcilePolicyRules rule_kernel (desiredPolicyRules (db_settings freshDB) [row1] []) broad_machine"

lemma broad_rule_displaces_wanted:
  "is_ok (fst broad_run)" "list_ex (\<lambda>d. netlinkRule d = Inr wanted_rule) (desiredPolicyRules (db_settings freshDB) [row1] [])"
  "\<not> list_ex (\<lambda>r. r = wanted_rule) (mc_kernel (snd broad_run))" "list_ex (\<lambda>r. r = broad_rule) (mc_kernel (snd broad_run))"
  by code_simp+

subsection \<open>Dry runs\<close>

text \<open>The application's environment with this driver as its kernel.\<close>

definition linuxEnv :: "'k os_api \<Rightarrow> bool \<Rightarrow> 'k machine env \<Rightarrow> 'k machine env" where
  "linuxEnv api dry E = E\<lparr>e_Apply := Kernel_Apply api dry, e_Inspect := Kernel_Inspect api dry, e_Remove := Kernel_Remove api dry,
     e_RemoveUpstream := Kernel_RemoveUpstream api dry, e_TestWarp := Kernel_TestWarp api dry\<rparr>"

definition untouched :: "'k \<Rightarrow> 'k app \<Rightarrow> bool" where
  "untouched k a \<longleftrightarrow> app_kernel a = k"

lemma untouched_simple:
  "keeps (untouched k) (onStore m)" "keeps (untouched k) (draw f)" "keeps (untouched k) (onKernel (return x))"
  "keeps (untouched k) (setHealthError msg)" "keeps (untouched k) (noteReconcile now)" "keeps (untouched k) (clearHealth now)"
  "keeps (untouched k) (noteDrift E r)"
  by (auto simp: keeps_def untouched_def onStore_def onKernel_def zoom_def draw_def setHealthError_def noteReconcile_def
      clearHealth_def noteDrift_def andThen_def split: prod.split sum.split)

lemma untouched_wrappers:
  "keeps (untouched k) m \<Longrightarrow> keeps (untouched k) (mapError f m)" "keeps (untouched k) m \<Longrightarrow> keeps (untouched k) (wrapError msg args m)"
  "keeps (untouched k) m \<Longrightarrow> keeps (untouched k) (orHealth E m)" "keeps (untouched k) m \<Longrightarrow> keeps (untouched k) (ignore m)"
  unfolding mapError_def wrapError_def orHealth_def ignore_def
  by (intro keeps_rules untouched_simple; assumption)+

lemma dry_calls:
  "e_Apply (linuxEnv api True E) cfg warp ups ts = return ts" "e_Inspect (linuxEnv api True E) cfg warp ups ts = return []"
  "e_Remove (linuxEnv api True E) up t = return ()" "e_RemoveUpstream (linuxEnv api True E) up = return ()"
  "e_TestWarp (linuxEnv api True E) cfg warp = return dryTrace"
  by (simp_all add: linuxEnv_def Kernel_Apply_def Kernel_Inspect_def Kernel_Remove_def Kernel_RemoveUpstream_def Kernel_TestWarp_def)

lemmas untouched_rules = keeps_andThen keeps_attempt keeps_each keeps_if keeps_case_option keeps_case_sum
  untouched_simple untouched_wrappers keeps_simple

lemma untouched_updateAll: "keeps (untouched k) (updateAll E now q ts)"
  by (induction ts arbitrary: q) (auto intro!: untouched_rules)

lemma untouched_setStatuses: "keeps (untouched k) (setStatuses ts status msg)"
  unfolding setStatuses_def by (intro untouched_rules)

lemma untouched_reconcile: "keeps (untouched k) (reconcileLocked (linuxEnv api True E))"
  unfolding reconcileLocked_def applyTunnels_def requireWarp_def Let_def dry_calls
  by (intro untouched_rules untouched_updateAll untouched_setStatuses)

lemma keeps_case_list:
  "keeps I m \<Longrightarrow> (\<And>x xs. keeps I (f x xs)) \<Longrightarrow> keeps I (case l of [] \<Rightarrow> m | x # xs \<Rightarrow> f x xs)"
  by (cases l) auto

lemmas app_op_defs = App_BootstrapAdmin_def App_SaveSettings_def App_ResetGeneralSettings_def App_CreateUpstream_def
  App_UpdateUpstream_def App_DeleteUpstream_def App_CreateTunnel_def App_SetTunnelV4Mode_def App_SetTunnelQuota_def
  App_SetTunnelRoutingGroups_def App_DeleteTunnel_def App_SetEnabled_def App_CreateRoutingGroup_def App_RenameRoutingGroup_def
  App_DeleteRoutingGroup_def prepareUpstream_def resolveUpstream_def allocateTunnel_def saveTunnel_def
  tunnelKeys_def tunnelAddress_def groupName_def requireWarp_def

lemma untouched_saveUpdated: "keeps (untouched k) (saveUpdated (linuxEnv api True E) up admin updated)"
  unfolding saveUpdated_def dry_calls by (intro untouched_rules untouched_reconcile)

lemma untouched_run_app: "keeps (untouched k) (run_app (linuxEnv api True E) p)"
  by (cases p) (simp_all only: run_app.simps app_op_defs Let_def dry_calls,
      (intro untouched_rules untouched_reconcile untouched_saveUpdated keeps_case_list)+)

lemma untouched_warpConfigured: "keeps (untouched k) (warpConfigured cfg)"
  unfolding warpConfigured_def by (intro untouched_rules)

lemma untouched_TestWarp: "keeps (untouched k) (App_TestWarp (linuxEnv api True E) admin)"
  unfolding App_TestWarp_def dry_calls by (intro untouched_rules untouched_warpConfigured)

lemma untouched_afterRegistration:
  "keeps (untouched k) (andThen (onStore (Store_SaveWarpAccount account)) (\<lambda>_.
     andThen (attempt (onStore (Store_AddAudit admin act detail))) (\<lambda>_.
     andThen (onStore Store_Settings) (\<lambda>cfg.
     andThen (warpConfigured cfg) (\<lambda>configured.
     andThen (if configured then wrapError msg [] (reconcileLocked (linuxEnv api True E)) else return ()) (\<lambda>_. return account))))))"
  by (intro untouched_rules untouched_warpConfigured untouched_reconcile)

lemma andThen_untouched:
  assumes "\<And>x k. keeps (untouched k) (f x)"
  shows "app_kernel (snd (andThen m f a)) = app_kernel (snd (m a))"
  using assms by (cases "m a"; cases "fst (m a)") (auto simp: keeps_def untouched_def)

text \<open>
  C28. A dry run never changes the system: with the driver in dry-run mode every operation of the
  application that reaches the driver, the test of the WARP connection included, successful or not,
  leaves the kernel, the network and the driver's own Neighbor Discovery state as they were; and
  registering a WARP account does nothing to them beyond its exchange with the provider.
\<close>

theorem dry_run_inert:
  "app_kernel (snd (run_app (linuxEnv api True E) p a)) = app_kernel a \<and>
   app_kernel (snd (App_TestWarp (linuxEnv api True E) admin a)) = app_kernel a \<and>
   app_kernel (snd (App_RegisterWarp (linuxEnv api True E) W admin a)) = app_kernel (snd (registerExchange (linuxEnv api True E) W a))"
proof (intro conjI)
  show "app_kernel (snd (run_app (linuxEnv api True E) p a)) = app_kernel a"
    using untouched_run_app [of "app_kernel a"] by (simp add: keeps_def untouched_def)
  show "app_kernel (snd (App_TestWarp (linuxEnv api True E) admin a)) = app_kernel a"
    using untouched_TestWarp [of "app_kernel a"] by (simp add: keeps_def untouched_def)
  show "app_kernel (snd (App_RegisterWarp (linuxEnv api True E) W admin a)) = app_kernel (snd (registerExchange (linuxEnv api True E) W a))"
    unfolding App_RegisterWarp_def by (rule andThen_untouched) (rule untouched_afterRegistration)
qed

subsection \<open>Retrying the firewall script\<close>

lemma afterNewline_count:
  "afterNewline s = Some rest \<Longrightarrow> length (filter (\<lambda>c. c = CHR 0x0A) s) = Suc (length (filter (\<lambda>c. c = CHR 0x0A) rest))"
  by (induction s) (auto split: if_splits)

text \<open>
  C38. Loading the firewall script ends: whatever nft answers, it is started at least once and at most
  once more than the script has line ends, since every retry drops the first line.
\<close>

theorem nft_attempts_bounded:
  assumes "\<And>s k. calls (snd (os_nft api s k)) = Suc (calls k)" "runNft api script m = (r, m')"
  shows "calls (mc_kernel m) < calls (mc_kernel m') \<and>
    calls (mc_kernel m') \<le> calls (mc_kernel m) + 1 + length (filter (\<lambda>c. c = CHR 0x0A) script)"
  using assms(2)
proof (induction "length script" arbitrary: script m rule: less_induct)
  case less
  obtain res k1 where nft: "os_nft api script (mc_kernel m) = (res, k1)" by (cases "os_nft api script (mc_kernel m)")
  have k1: "calls k1 = Suc (calls (mc_kernel m))" using assms(1) [of script "mc_kernel m"] nft by simp
  have one: "os (os_nft api script) m = (res, m\<lparr>mc_kernel := k1\<rparr>)" using nft by (simp add: os_run)
  show ?case
  proof (cases "m' = m\<lparr>mc_kernel := k1\<rparr>")
    case True
    then show ?thesis using k1 by simp
  next
    case False
    then obtain rest where rest: "afterNewline script = Some rest" "runNft api rest (m\<lparr>mc_kernel := k1\<rparr>) = (r, m')"
      using less.prems one by (subst (asm) runNft.simps)
        (auto simp: andThen_def split: option.splits sum.splits prod.splits if_splits)
    have shorter: "length rest < length script" using afterNewline_shorter [OF rest(1)] .
    show ?thesis using less.hyps [OF shorter rest(2)] k1 afterNewline_count [OF rest(1)] by simp
  qed
qed

theorem nft_attempts_bounded_witness:
  "\<exists>m'. runNft (rule_kernel\<lparr>os_nft := (\<lambda>s k. (Inr (''No such file'', Some ErrNotExist), newRule # k))\<rparr>) ''delete table x'' sample_machine
      = (Inr (), m') \<and> length (mc_kernel m') = 3"
proof -
  let ?api = "rule_kernel\<lparr>os_nft := (\<lambda>s k. (Inr (''No such file'', Some ErrNotExist), newRule # k))\<rparr>"
  have "is_ok (fst (runNft ?api ''delete table x'' sample_machine))" by code_simp
  then obtain m' where run: "runNft ?api ''delete table x'' sample_machine = (Inr (), m')"
    by (cases "runNft ?api ''delete table x'' sample_machine") (auto simp: is_ok_iff)
  have "length (snd (os_nft ?api s k)) = Suc (length k)" for s k by simp
  from nft_attempts_bounded [where calls = length, OF this run] show ?thesis using run by (auto simp: sample_machine_def)
qed

end
