(* ===== verification/Service_Rows.thy ===== *)
theory Service_Rows
  imports Service_Reach Migrations
begin

section \<open>What the application keeps of the rows\<close>

text \<open>
  The application changes rows only through the methods of the store: a property of the database that every
  method keeps is kept by every operation of the application, whatever the kernel, the driver and the other
  parameters do. It is stated once, as a locale over the property, and used for the integrity of the tables and
  for the absence of values of earlier releases, which is what a restart of the daemon relies on.
\<close>

lemma keeps_ignore: "keeps I (ignore m) = keeps I m"
proof -
  have "snd (ignore m s) = snd (m s)" for s by (auto simp: ignore_def andThen_def split: prod.split sum.split)
  then show ?thesis by (simp add: keeps_def)
qed

locale store_invariant =
  fixes I :: "db \<Rightarrow> bool"
  assumes keeps_method: "dbkeeps I (run_op p)"

sublocale store_invariant \<subseteq> reconcile_invariant I
  using keeps_method [of "OpResetMonthlyQuotas now" for now] keeps_method [of "OpEnsureIPv4Allocations cfg" for cfg]
    keeps_method [of "OpSetStatus k status msg" for k status msg] keeps_method [of "OpUpdateTelemetry t now" for t now]
  by unfold_locales (simp_all add: keeps_ignore)

context store_invariant
begin

lemma rows:
  "leads I I (onStore (Store_SaveSettings v))" "leads I I (onStore (Store_InsertUpstream u admin))"
  "leads I I (onStore (Store_UpdateUpstream u admin))" "leads I I (onStore (Store_DeleteUpstream k admin))"
  "leads I I (onStore (Store_SaveWarpAccount acc))" "leads I I (onStore (Store_SaveWarpTest tr tested))"
  "leads I I (onStore (Store_AddAudit admin action detail))" "leads I I (onStore (Store_InsertTunnel t admin))"
  "leads I I (onStore (Store_SetTunnelV4Mode k mode admin))" "leads I I (onStore (Store_DeleteTunnel k admin))"
  "leads I I (onStore (Store_SetEnabled k on admin))" "leads I I (onStore (Store_SetTunnelQuota k q admin))"
  "leads I I (onStore (Store_SetTunnelRoutingGroups k names admin))" "leads I I (onStore (Store_CreateRoutingGroup name admin))"
  "leads I I (onStore (Store_RenameRoutingGroup k name admin))" "leads I I (onStore (Store_DeleteRoutingGroup k admin))"
  "leads I I (onStore (Store_AddAdmin user hash))"
  using keeps_method [of "OpSaveSettings v"] keeps_method [of "OpInsertUpstream u admin"]
    keeps_method [of "OpUpdateUpstream u admin"] keeps_method [of "OpDeleteUpstream k admin"]
    keeps_method [of "OpSaveWarpAccount acc"] keeps_method [of "OpSaveWarpTest tr tested"]
    keeps_method [of "OpAddAudit admin action detail"] keeps_method [of "OpInsertTunnel t admin"]
    keeps_method [of "OpSetTunnelV4Mode k mode admin"] keeps_method [of "OpDeleteTunnel k admin"]
    keeps_method [of "OpSetEnabled k on admin"] keeps_method [of "OpSetTunnelQuota k q admin"]
    keeps_method [of "OpSetTunnelRoutingGroups k names admin"] keeps_method [of "OpCreateRoutingGroup name admin"]
    keeps_method [of "OpRenameRoutingGroup k name admin"] keeps_method [of "OpDeleteRoutingGroup k admin"]
    keeps_method [of "OpAddAdmin user hash"]
  by (simp_all add: keeps_ignore leads_keeps)

lemma upstream_ops:
  "leads I I (App_CreateUpstream E inp admin)" "leads I I (App_UpdateUpstream E inp admin)"
  unfolding App_CreateUpstream_def App_UpdateUpstream_def saveUpdated_def prepareUpstream_def wrapError_def
  by (intro leads_rules rows reconcile; simp)+

lemma tunnel_op: "leads I I (App_CreateTunnel E inp admin)"
  unfolding App_CreateTunnel_def saveTunnel_def wrapError_def Let_def
  by (intro leads_rules rows reconcile) simp_all

lemma other_ops:
  "leads I I (App_BootstrapAdmin E user password)" "leads I I (App_SaveSettings v)"
  "leads I I (App_ResetGeneralSettings E admin)" "leads I I (App_DeleteUpstream E k admin)"
  "leads I I (App_SetTunnelV4Mode E k mode admin)" "leads I I (App_SetTunnelQuota E k q admin)"
  "leads I I (App_SetTunnelRoutingGroups E k names admin)" "leads I I (App_DeleteTunnel E k admin)"
  "leads I I (App_SetEnabled E k on admin)" "leads I I (App_CreateRoutingGroup name admin)"
  "leads I I (App_RenameRoutingGroup E k name admin)" "leads I I (App_DeleteRoutingGroup E k admin)"
  unfolding App_BootstrapAdmin_def App_SaveSettings_def App_ResetGeneralSettings_def App_DeleteUpstream_def
    App_SetTunnelV4Mode_def App_SetTunnelQuota_def App_SetTunnelRoutingGroups_def App_DeleteTunnel_def App_SetEnabled_def
    App_CreateRoutingGroup_def App_RenameRoutingGroup_def App_DeleteRoutingGroup_def groupName_def wrapError_def Let_def
  by (intro leads_rules rows method_rules reconcile; simp)+

lemma run: "leads I I (run_app E p)"
  by (cases p) (auto simp: ignore_def intro!: leads_seq upstream_ops tunnel_op other_ops reconcile rows)

lemma reachable: "reachable_app E a \<Longrightarrow> I freshDB \<Longrightarrow> I (adb a)"
proof (induction rule: reachable_app.induct)
  case (app_step a p r a')
  then show ?case using run [of E p] by (metis leads_def snd_conv)
qed simp_all

end

interpretation tables: store_invariant wf_db
  by unfold_locales (rule keeps_run_op)

subsection \<open>No values of earlier releases\<close>

definition current :: "db \<Rightarrow> bool" where
  "current d \<longleftrightarrow> db_legacy d = None \<and> db_legacyGroups d = None"

lemma current_statements:
  "dbkeeps current (exec (db_settings_update f0))" "dbkeeps current (exec (db_upstreams_update f1))"
  "dbkeeps current (exec (db_tunnels_update f2))" "dbkeeps current (exec (db_members_update f3))"
  "dbkeeps current (exec (db_groups_update f4))" "dbkeeps current (exec (db_warp_update f5))"
  "dbkeeps current (auditRow admin action tunnel detail now)" "dbkeeps current (insertMember k name)"
  "dbkeeps current (addRow us1 db_upstreams db_upstreams_update up_ID row1)"
  "dbkeeps current (addRow us2 db_tunnels db_tunnels_update t_ID row2)"
  "dbkeeps current (addRow us3 db_groups db_groups_update g_ID row3)"
  "dbkeeps current (addRow us4 db_admins db_admins_update ad_ID row4)"
  "dbkeeps current (setRow us1 db_upstreams db_upstreams_update up_ID k g1)"
  "dbkeeps current (setRow us2 db_tunnels db_tunnels_update t_ID k g2)"
  "dbkeeps current (setRow us3 db_groups db_groups_update g_ID k g3)"
  unfolding auditRow_def insertMember_def addRow_def setRow_def
  by (intro keeps_exec keeps_sql; simp add: current_def Let_def split: option.split)+

lemma current_rows:
  "current d \<Longrightarrow> current (d\<lparr>db_warp := w\<rparr>)" "current d \<Longrightarrow> current (d\<lparr>db_tunnels := ts, db_members := ms\<rparr>)"
  "current d \<Longrightarrow> current (d\<lparr>db_groups := gs, db_members := ms\<rparr>)"
  by (simp_all add: current_def)

lemma current_assign: "dbkeeps current (assignIPv4 pool cfg byID used ts)"
  by (induction ts arbitrary: used) (auto intro!: keeps_rules current_statements split: option.split)

lemma current_methods: "dbkeeps current (run_op p)"
  by (cases p) (auto simp: keeps_ignore current_rows Store_SaveSettings_def Store_InsertUpstream_def Store_UpdateUpstream_def
      Store_DeleteUpstream_def Store_EnsureIPv4Allocations_def ensureIPv4AllocationsTx_def Store_SaveWarpAccount_def
      Store_SaveWarpTest_def Store_AddAudit_def Store_InsertTunnel_def setTunnelRoutingGroupsTx_def requireGroup_def
      Store_SetTunnelV4Mode_def Store_DeleteTunnel_def Store_SetEnabled_def Store_SetStatus_def Store_UpdateTelemetry_def
      Store_ResetMonthlyQuotas_def Store_SetTunnelQuota_def Store_SetTunnelRoutingGroups_def Store_CreateRoutingGroup_def
      Store_RenameRoutingGroup_def Store_DeleteRoutingGroup_def Store_AddAdmin_def Let_def
      intro!: keeps_rules current_statements current_assign)

interpretation current: store_invariant current
  by unfold_locales (rule current_methods)

lemma reachable_current: "reachable_app E a \<Longrightarrow> current (adb a)"
  by (erule current.reachable) (simp add: current_def freshDB_def)

end
