(* ===== verification/Web_Properties.thy ===== *)
theory Web_Properties
  imports Daemon Network_Properties Service_Rows
begin

section \<open>Properties of the web server\<close>

text \<open>
  What a request can change and who may make it. \<open>page_invariant\<close> is the contract of what a page only
  reads: a property of the application's state that does not depend on the clock and the counters of the
  driver. Under it every handler keeps the property unless the request is a POST with the right token.
  \<open>site_invariant\<close> adds that the operations of the application keep the property; then every request does.
  The first is interpreted for the whole state, the second for the states the application can reach.
\<close>

subsection \<open>Reading\<close>

definition inert :: "'k app \<Rightarrow> 'k app \<Rightarrow> bool" where
  "inert a a' \<longleftrightarrow> adb a' = adb a \<and> app_kernel a' = app_kernel a \<and> app_sessions a' = app_sessions a \<and> app_health a' = app_health a"

lemma inert_refl [simp]: "inert a a"
  by (simp add: inert_def)

lemma inert_trans: "inert a b \<Longrightarrow> inert b c \<Longrightarrow> inert a c"
  by (simp add: inert_def)

lemma readonly_more [simp]:
  "readonly (onStore Store_RoutingGroups)" "readonly (onStore (queryRow f))" "readonly (onStore (loadRoutingMemberships ts))"
  "readonly (onStore tunnelCountsByUpstream)"
  unfolding Store_RoutingGroups_def loadRoutingMemberships_def tunnelCountsByUpstream_def
  by (intro readonly_onStore keeps_rules)+

lemma inert_onStore:
  fixes a :: "'k app"
  assumes "readonly (onStore m :: ('k app, 'a) action)"
  shows "inert a (snd (onStore m a))"
proof -
  have "readonly (onStore m :: ('k app, 'a) action)" by (rule assms)
  then have "adb (snd (onStore m a)) = adb a" by (simp add: readonly_def)
  then show ?thesis by (auto simp: inert_def onStore_def zoom_def split: prod.splits)
qed

text \<open>A request that is no POST, or one without the token of its session.\<close>

definition denied :: "request \<Rightarrow> bool" where
  "denied r \<longleftrightarrow> rq_Method r \<noteq> POST \<or> \<not> checkCSRF r"

locale page_invariant =
  fixes I :: "'k app \<Rightarrow> bool"
  assumes stable: "I a \<Longrightarrow> inert a a' \<Longrightarrow> I a'"
begin

lemma keeps_read: "readonly (onStore m :: ('k app, 'a) action) \<Longrightarrow> keeps I (onStore m)"
  using stable inert_onStore unfolding keeps_def by blast

lemma keeps_catching: "keeps I m \<Longrightarrow> keeps I (catching m)"
  unfolding catching_def by (intro keeps_rules)

lemma keeps_readOr: "keeps I m \<Longrightarrow> keeps I (readOr z m)"
  unfolding readOr_def by (intro keeps_rules keeps_catching)

lemma keeps_errorOf: "keeps I m \<Longrightarrow> keeps I (errorOf m)"
  unfolding errorOf_def by (intro keeps_rules keeps_catching)

lemma keeps_outcome: "keeps I m \<Longrightarrow> keeps I (outcome S page notice m)"
  unfolding outcome_def by (intro keeps_rules keeps_errorOf)

lemmas page_rules = keeps_andThen keeps_if keeps_case_option keeps_case_sum keeps_simple keeps_catching keeps_readOr
  keeps_errorOf keeps_outcome keeps_read

lemma keeps_viewsOf: "keeps I (viewsOf cfg ups)"
proof (induction ups)
  case Nil
  show ?case unfolding viewsOf.simps(1) by (rule keeps_simple)
next
  case (Cons up ups)
  show ?case
    by (simp add: Let_def) (intro page_rules Cons.IH; auto intro!: page_rules split: option.split prod.split)
qed

lemma keeps_upstreamViews: "keeps I (upstreamViews cfg)"
  unfolding upstreamViews_def by (intro page_rules keeps_viewsOf) simp

lemma keeps_pages:
  "keeps I (withUpstreams S v)" "keeps I (settingsPage v)" "keeps I (routingPage v)" "keeps I (groupsPage v)"
  "keeps I (upstreamPage k v)" "keeps I suggestInterfaceName" "keeps I (readTunnel k)" "keeps I (readUpstream k)"
  unfolding withUpstreams_def settingsPage_def routingPage_def groupsPage_def upstreamPage_def suggestInterfaceName_def
    readTunnel_def readUpstream_def
  by (intro page_rules keeps_upstreamViews; simp)+

lemma keeps_tunnelPages: "keeps I (tunnelPage S r k t v)" "keeps I (web_tunnelQRCode S t)"
  unfolding tunnelPage_def web_tunnelQRCode_def Let_def by (intro page_rules keeps_pages; simp)+

lemma denied_pages:
  assumes "denied r"
  shows "keeps I (web_dashboard S r)" "keeps I (web_upstreams S r)" "keeps I (web_logout r)" "keeps I (web_resync S r)"
    "keeps I (web_resetSettings S r)" "keeps I (web_warpAction S r)" "keeps I (web_upgradeAction S r)" "keeps I (web_groups S r)"
  using assms unfolding denied_def web_dashboard_def web_upstreams_def web_logout_def web_resync_def web_resetSettings_def
    web_warpAction_def web_upgradeAction_def web_groups_def
  by (auto simp: Let_def intro!: page_rules keeps_pages split: option.split)

lemma denied_forms:
  assumes "denied r"
  shows "keeps I (web_settings S r)" "keeps I (web_routing S r)" "keeps I (web_newUpstream S r)" "keeps I (web_upstream S r)"
    "keeps I (web_newTunnel S r)" "keeps I (web_tunnel S r)"
  using assms unfolding denied_def web_settings_def web_routing_def web_newUpstream_def web_upstream_def postUpstream_def
    web_newTunnel_def postTunnel_def web_tunnel_def
  by (auto simp: Let_def intro!: page_rules keeps_pages keeps_tunnelPages split: option.split prod.split)

end

lemma denied_protected:
  assumes "page_invariant I" "denied r" "protected S path = Some h"
  shows "keeps I (h r)"
proof -
  note rules = page_invariant.denied_pages [OF assms(1,2)] page_invariant.denied_forms [OF assms(1,2)]
  show ?thesis using assms(3) rules unfolding protected_def by (auto split: if_splits)
qed

interpretation nothing: page_invariant "inert a" for a
  by unfold_locales (rule inert_trans)

subsection \<open>Sessions\<close>

definition clockNow :: "'k app \<Rightarrow> time" where
  "clockNow a = st_clock (app_store a) (st_ticks (app_store a))"

definition authenticated :: "'k app \<Rightarrow> request \<Rightarrow> session \<Rightarrow> bool" where
  "authenticated a r s \<longleftrightarrow> (\<exists>c. rq_Session r = Some c \<and> app_sessions a c = Some s) \<and> clockNow a \<le> s_Expires s"

definition as_user :: "request \<Rightarrow> session \<Rightarrow> request" where
  "as_user r s = r\<lparr>rq_Header := (rq_Header r)(''X-OTB-User'' := s_Username s, ''X-OTB-CSRF'' := s_CSRF s)\<rparr>"

lemma inert_Now: "inert a (snd (onStore Now a))"
  by (rule inert_onStore) simp

lemma auth_denies:
  assumes "\<And>s. \<not> authenticated a r s"
  shows "\<exists>a'. auth h r a = (Inr (seeOther ''/login''), a') \<and> inert a a'"
proof (cases "rq_Session r")
  case None
  then show ?thesis by (simp add: auth_def)
next
  case (Some c)
  show ?thesis
  proof (cases "app_sessions a c")
    case None
    then show ?thesis using Some by (simp add: auth_def andThen_def)
  next
    case (Some s)
    then have "s_Expires s < clockNow a" using assms [of s] \<open>rq_Session r = Some c\<close> by (auto simp: authenticated_def)
    then show ?thesis using Some \<open>rq_Session r = Some c\<close>
      by (simp add: auth_def andThen_def onStore_def zoom_def Now_def clockNow_def inert_def)
  qed
qed

lemma auth_runs:
  assumes "authenticated a r s"
  shows "auth h r a = h (as_user r s) (snd (onStore Now a))"
  using assms by (auto simp: auth_def authenticated_def andThen_def onStore_def zoom_def Now_def clockNow_def as_user_def)

lemma auth_admits:
  assumes "authenticated a r s"
  shows "\<exists>b. auth h r a = h (as_user r s) b \<and> inert a b"
  using auth_runs [OF assms] inert_Now by metis

lemma denied_as_user: "denied (as_user r s) \<longleftrightarrow> rq_Method r \<noteq> POST \<or> FormValue r ''csrf'' \<noteq> s_CSRF s"
  by (simp add: denied_def checkCSRF_def as_user_def FormValue_def)

lemma Handler_snd: "snd (Handler S r a) = snd (serveMux S r a)"
  by (auto simp: Handler_def andThen_def split: prod.split sum.split)

lemma protected_None: "protected S path = None \<longleftrightarrow> path = ''/tunnels''"
  unfolding protected_def by (simp add: HasPrefix_def)

text \<open>What the mux dispatches: the path as it is, when it is clean or the method is CONNECT.\<close>

definition dispatched :: "request \<Rightarrow> bool" where
  "dispatched r \<longleftrightarrow> rq_Method r = ''CONNECT'' \<or> cleanPath (rq_Path r) = rq_Path r"

lemma muxHandler_Some: "path \<noteq> ''/login'' \<Longrightarrow> protected S path = Some h \<Longrightarrow> muxHandler S path = Some (auth h)"
  by (simp add: muxHandler_def)

lemma mux_runs: "dispatched r \<Longrightarrow> muxHandler S (rq_Path r) = Some h \<Longrightarrow> serveMux S r = h r"
  by (auto simp: serveMux_def dispatched_def Let_def)

lemma mux_cases:
  obtains (handled) h where "dispatched r" "muxHandler S (rq_Path r) = Some h" "serveMux S r = h r"
    | (moved) loc where "\<not> dispatched r \<or> rq_Path r = ''/tunnels''" "serveMux S r = return (Redirect 301 loc None)"
      "loc = (if cleanPath (rq_Path r) = ''/tunnels'' then ''/tunnels/'' else cleanPath (rq_Path r)) @
         (if rq_RawQuery r = [] then [] else ''?'' @ rq_RawQuery r)"
proof (cases "dispatched r")
  case True
  then have path: "(if rq_Method r = ''CONNECT'' then rq_Path r else cleanPath (rq_Path r)) = rq_Path r" by (auto simp: dispatched_def)
  show thesis
  proof (cases "muxHandler S (rq_Path r)")
    case None
    then have "rq_Path r = ''/tunnels''" by (simp add: muxHandler_def protected_None split: if_splits)
    moreover have "cleanPath ''/tunnels'' = ''/tunnels''" by code_simp
    ultimately show thesis using moved [OF _ _ refl] None path by (simp add: serveMux_def movedTo_def)
  next
    case (Some h)
    then show thesis using handled True path by (simp add: serveMux_def)
  qed
next
  case False
  then have path: "rq_Method r \<noteq> ''CONNECT''" "cleanPath (rq_Path r) \<noteq> rq_Path r" by (auto simp: dispatched_def)
  then show thesis
  proof (cases "muxHandler S (cleanPath (rq_Path r))")
    case None
    then have "cleanPath (rq_Path r) = ''/tunnels''" by (simp add: muxHandler_def protected_None split: if_splits)
    then show thesis using moved [OF _ _ refl] None False path by (simp add: serveMux_def movedTo_def)
  next
    case (Some h)
    then have "cleanPath (rq_Path r) \<noteq> ''/tunnels''" using protected_None [of S "''/tunnels''"] by (auto simp: muxHandler_def)
    then show thesis using moved [OF _ _ refl] Some False path by (simp add: serveMux_def movedTo_def)
  qed
qed

text \<open>
  C23. Nothing is shown without a session: every request for a path other than the login page that carries
  no live session (no cookie, an unknown one, or one that has expired) is answered by a redirect, and
  leaves the rows, the kernel, the sessions and the health record as they are. The redirect is to the login
  page, unless the mux itself redirects, with the query kept: a path that is not clean to the clean one, and
  one that is \<open>/tunnels\<close> or cleans to it to \<open>/tunnels/\<close>.
\<close>

theorem unauthenticated_redirected:
  assumes "rq_Path r \<noteq> ''/login''" "\<And>s. \<not> authenticated a r s"
  shows "\<exists>a' status loc. Handler S r a = (Inr \<lparr>rs_Headers = securityHeaders, rs_Reply = Redirect status loc None\<rparr>, a') \<and> inert a a' \<and>
    (if rq_Path r = ''/tunnels'' \<or> rq_Method r \<noteq> ''CONNECT'' \<and> cleanPath (rq_Path r) \<noteq> rq_Path r
     then status = 301 \<and> loc = (if cleanPath (rq_Path r) = ''/tunnels'' then ''/tunnels/'' else cleanPath (rq_Path r)) @
       (if rq_RawQuery r = [] then [] else ''?'' @ rq_RawQuery r)
     else status = 303 \<and> loc = ''/login'')"
proof (cases rule: mux_cases [of r S])
  case (handled h)
  then have path: "rq_Path r \<noteq> ''/tunnels''" using assms(1) by (auto simp: muxHandler_def protected_def HasPrefix_def)
  obtain h' where h: "h = auth h'" using handled(2) assms(1) by (auto simp: muxHandler_def)
  obtain a' where "auth h' r a = (Inr (seeOther ''/login''), a')" "inert a a'" using auth_denies [OF assms(2)] by blast
  then show ?thesis using handled h path by (auto simp: Handler_def dispatched_def seeOther_def)
next
  case (moved loc)
  then show ?thesis by (auto simp: Handler_def dispatched_def)
qed

text \<open>
  C3. Every change needs the session and its token: when a request other than a login changes a row, the
  kernel, the sessions or the health record, it was a POST, it carried a live session and its form held
  that session's CSRF token. In particular no GET request changes anything.
\<close>

theorem changes_need_token:
  assumes "rq_Path r \<noteq> ''/login''" "\<not> inert a (snd (Handler S r a))"
  shows "rq_Method r = POST \<and> (\<exists>s. authenticated a r s \<and> FormValue r ''csrf'' = s_CSRF s)"
proof (rule ccontr)
  assume no: "\<not> ?thesis"
  have "inert a (snd (serveMux S r a))"
  proof (cases rule: mux_cases [of r S])
    case (moved loc)
    then show ?thesis by simp
  next
    case (handled m)
    then obtain h where h: "protected S (rq_Path r) = Some h" "m = auth h" using assms(1) by (auto simp: muxHandler_def)
    have "inert a (snd (auth h r a))"
    proof (cases "\<exists>s. authenticated a r s")
      case True
      then obtain s b where s: "authenticated a r s" "auth h r a = h (as_user r s) b" "inert a b" using auth_admits by blast
      then have "denied (as_user r s)" using no by (auto simp: denied_as_user)
      then have "keeps (inert a) (h (as_user r s))" using denied_protected [OF nothing.page_invariant_axioms _ h(1)] by blast
      then show ?thesis using s(2,3) by (simp add: keeps_def)
    next
      case False
      then show ?thesis using auth_denies [of a r h] by fastforce
    qed
    then show ?thesis using handled(3) h(2) by simp
  qed
  then show False using assms(2) by (simp add: Handler_snd)
qed

lemma Authenticate_inert:
  "\<exists>ok b. App_Authenticate E user password a = (Inr ok, b) \<and> inert a b"
proof -
  have "inert a (snd (onStore (Store_AdminHash user) a))" by (rule inert_onStore) simp
  then show ?thesis
    by (cases "onStore (Store_AdminHash user) a") (auto simp: App_Authenticate_def andThen_def attempt_def)
qed

text \<open>What a request comes over, and from where it claims to be addressed.\<close>

definition over_https :: "unicode \<Rightarrow> request \<Rightarrow> bool" where
  "over_https u r \<longleftrightarrow> rq_TLS r \<or> EqualFold u (rq_Header r ''X-Forwarded-Proto'') ''https''"

definition to_loopback :: "request \<Rightarrow> bool" where
  "to_loopback r \<longleftrightarrow> (\<exists>host. (SplitHostPort (rq_Host r) = Some host \<or> SplitHostPort (rq_Host r) = None \<and> host = rq_Host r) \<and>
     (host = ''localhost'' \<or> (\<exists>x. ParseAddr host = Some x \<and> \<not> hasZone x \<and> IsLoopback x)))"

lemma loginAllowed_iff: "loginAllowed u r \<longleftrightarrow> over_https u r \<or> to_loopback r"
  by (auto simp: loginAllowed_def isHTTPS_def over_https_def to_loopback_def parsesAsLoopback_def Let_def split: option.splits)

text \<open>The first statement is the read of the stored hash; when the driver refuses it nobody is admitted.\<close>

definition credentials :: "'k env \<Rightarrow> 'k app \<Rightarrow> string \<Rightarrow> string \<Rightarrow> bool" where
  "credentials E a user password \<longleftrightarrow> \<not> st_fault (app_store a) (st_calls (app_store a)) \<and>
     (\<exists>ad. find (\<lambda>x. ad_Username x = user) (db_admins (adb a)) = Some ad \<and> e_compare E (ad_Hash ad) password)"

lemma Authenticate_iff: "fst (App_Authenticate E user password a) = Inr (credentials E a user password)"
  by (cases "st_fault (app_store a) (st_calls (app_store a))"; cases "find (\<lambda>x. ad_Username x = user) (db_admins (adb a))")
     (auto simp: credentials_def App_Authenticate_def Store_AdminHash_def mapError_def queryRow_def sql_def andThen_def attempt_def
       onStore_def zoom_def Let_def)

text \<open>
  C24. Logging in is the only way to a session: a request for the login page changes nothing but the
  sessions, and only when it is a POST over HTTPS (by its connection or by the proxy's header) or to
  localhost or a loopback address, for a stored administrator whose stored hash the password matches;
  then it opens one session, for that user and twelve hours (in nanoseconds) from the clock, under
  the token that the HttpOnly, SameSite=Strict cookie carries (Secure when the request was HTTPS).
\<close>

theorem login_opens_session:
  assumes "rq_Path r = ''/login''"
  shows "\<exists>resp a'. Handler S r a = (Inr resp, a') \<and> adb a' = adb a \<and> app_kernel a' = app_kernel a \<and> app_health a' = app_health a \<and>
    (if rq_Method r = POST \<and> (over_https (e_unicode (si_env S)) r \<or> to_loopback r) \<and>
        credentials (si_env S) a (FormValue r ''username'') (FormValue r ''password'')
     then \<exists>ck. rs_Reply resp = Redirect 303 ''/'' (Some ck) \<and> ck_HttpOnly ck \<and> ck_Strict ck \<and> ck_MaxAge ck = 12 * 60 * 60 \<and>
        ck_Secure ck = over_https (e_unicode (si_env S)) r \<and> ck_Value ck = si_token S (app_draws a) \<and>
        app_sessions a' = (app_sessions a)(ck_Value ck \<mapsto> \<lparr>s_Username = FormValue r ''username'', s_CSRF = si_token S (Suc (app_draws a)),
          s_Expires = clockNow a + 12 * 60 * 60 * 10 ^ 9\<rparr>)
     else app_sessions a' = app_sessions a \<and> (\<forall>st loc ck. rs_Reply resp \<noteq> Redirect st loc ck))"
proof -
  let ?E = "si_env S"
  obtain ok b where ok: "App_Authenticate ?E (FormValue r ''username'') (FormValue r ''password'') a = (Inr ok, b)" "inert a b"
    using Authenticate_inert by blast
  have cred: "credentials ?E a (FormValue r ''username'') (FormValue r ''password'') \<longleftrightarrow> ok"
    using Authenticate_iff [of ?E "FormValue r ''username''" "FormValue r ''password''" a] ok(1) by simp
  have b: "app_draws b = app_draws a" "clockNow b = clockNow a"
    using ok(1) by (auto simp: App_Authenticate_def andThen_def attempt_def onStore_def zoom_def Store_AdminHash_def mapError_def
        queryRow_def sql_def Let_def clockNow_def split: prod.splits sum.splits if_splits)
  have "cleanPath ''/login'' = ''/login''" by code_simp
  then have mux: "serveMux S r = web_login S r" using assms by (intro mux_runs) (simp_all add: dispatched_def muxHandler_def)
  show ?thesis
    unfolding cred loginAllowed_iff [symmetric]
    using ok b unfolding Handler_def mux
    by (cases "rq_Method r = POST"; cases "loginAllowed (e_unicode ?E) r"; cases ok)
       (auto simp: web_login_def andThen_def draw_def onStore_def zoom_def Now_def setSession_def clockNow_def inert_def loginPage_def
         isHTTPS_def over_https_def sessionLifetime_def)
qed

text \<open>
  Logging out revokes the session: a POST to the logout page with a live session and its token removes
  exactly that session, so that from then on every request with the cookie is sent to the login page.
\<close>

theorem logout_revokes:
  assumes "rq_Path r = ''/logout''" "rq_Method r = POST" "authenticated a r s" "FormValue r ''csrf'' = s_CSRF s" "rq_Session r = Some c"
  shows "\<exists>resp a'. Handler S r a = (Inr resp, a') \<and> app_sessions a' = (app_sessions a)(c := None) \<and> adb a' = adb a \<and>
    (\<forall>r2 b. rq_Session r2 = Some c \<and> rq_Path r2 \<notin> {''/login'', ''/tunnels''} \<and> dispatched r2 \<and> app_sessions b = app_sessions a' \<longrightarrow>
       (\<exists>b'. Handler S r2 b = (Inr \<lparr>rs_Headers = securityHeaders, rs_Reply = seeOther ''/login''\<rparr>, b')))"
proof -
  obtain b where b: "auth web_logout r a = web_logout (as_user r s) b" "inert a b" using auth_admits [OF assms(3)] by blast
  have "checkCSRF (as_user r s)" "rq_Method (as_user r s) = POST" "rq_Session (as_user r s) = Some c"
    using assms(2,4,5) by (simp_all add: checkCSRF_def as_user_def FormValue_def)
  moreover have "cleanPath ''/logout'' = ''/logout''" by code_simp
  then have "serveMux S r = auth web_logout r"
    using assms(1) by (intro mux_runs) (simp_all add: dispatched_def muxHandler_def protected_def)
  ultimately obtain rep where out: "serveMux S r a = (Inr rep, b\<lparr>app_sessions := (app_sessions b)(c := None)\<rparr>)"
    using b(1) by (auto simp: web_logout_def andThen_def)
  have "\<exists>b'. Handler S r2 b2 = (Inr \<lparr>rs_Headers = securityHeaders, rs_Reply = seeOther ''/login''\<rparr>, b')"
    if later: "rq_Session r2 = Some c" "rq_Path r2 \<notin> {''/login'', ''/tunnels''}" "dispatched r2" "app_sessions b2 c = None" for r2 b2
  proof -
    have "\<not> authenticated b2 r2 s'" for s' using later by (auto simp: authenticated_def)
    then obtain h a' where "protected S (rq_Path r2) = Some h" "auth h r2 b2 = (Inr (seeOther ''/login''), a')"
      using auth_denies [of b2 r2] protected_None [of S "rq_Path r2"] later(2) by (metis insertCI not_Some_eq)
    moreover have "serveMux S r2 = auth h r2"
      using later(2) calculation(1) by (intro mux_runs [OF later(3)] muxHandler_Some) auto
    ultimately show ?thesis by (simp add: Handler_def)
  qed
  then show ?thesis using out b(2) by (auto simp: Handler_def inert_def)
qed

subsection \<open>Requests as operations of the application\<close>

lemma keeps_case_prod: "(\<And>x y. keeps I (f x y)) \<Longrightarrow> keeps I (case p of (x, y) \<Rightarrow> f x y)"
  by (cases p) simp

locale site_invariant =
  fixes S :: "'k site" and I :: "'k app \<Rightarrow> bool"
  assumes run: "keeps I (run_app (si_env S) p)"
    and world: "I a \<Longrightarrow> adb a' = adb a \<Longrightarrow> I a'"
begin

lemma free: "(\<And>a. adb (snd (m a)) = adb a) \<Longrightarrow> keeps I m"
  using world unfolding keeps_def by metis

lemma keeps_world: "keeps I (onKernel m)" "keeps I (draw f)" "keeps I (setSession k s)" "keeps I (modify (\<lambda>a. a\<lparr>app_sessions := g a\<rparr>))"
  by (rule free; auto simp: onKernel_def zoom_def draw_def setSession_def split: prod.split)+

lemma keeps_ops:
  "keeps I (App_SaveSettings v)" "keeps I (App_ResetGeneralSettings (si_env S) admin)"
  "keeps I (App_CreateUpstream (si_env S) inp admin)" "keeps I (App_UpdateUpstream (si_env S) inp admin)"
  "keeps I (App_DeleteUpstream (si_env S) k admin)" "keeps I (App_CreateTunnel (si_env S) ct admin)"
  "keeps I (App_SetTunnelV4Mode (si_env S) k mode admin)" "keeps I (App_SetTunnelQuota (si_env S) k q admin)"
  "keeps I (App_SetTunnelRoutingGroups (si_env S) k names admin)" "keeps I (App_DeleteTunnel (si_env S) k admin)"
  "keeps I (App_SetEnabled (si_env S) k on admin)" "keeps I (App_CreateRoutingGroup name admin)"
  "keeps I (App_RenameRoutingGroup (si_env S) k name admin)" "keeps I (App_DeleteRoutingGroup (si_env S) k admin)"
  "keeps I (reconcileLocked (si_env S))" "keeps I (onStore (Store_AddAudit admin action detail))"
  "keeps I (onStore (Store_SaveWarpAccount account))" "keeps I (onStore (Store_SaveWarpTest trace tested))"
  using run [of "AppSaveSettings v"] run [of "AppResetGeneralSettings admin"] run [of "AppCreateUpstream inp admin"]
    run [of "AppUpdateUpstream inp admin"] run [of "AppDeleteUpstream k admin"] run [of "AppCreateTunnel ct admin"]
    run [of "AppSetTunnelV4Mode k mode admin"] run [of "AppSetTunnelQuota k q admin"]
    run [of "AppSetTunnelRoutingGroups k names admin"] run [of "AppDeleteTunnel k admin"] run [of "AppSetEnabled k on admin"]
    run [of "AppCreateRoutingGroup name admin"] run [of "AppRenameRoutingGroup k name admin"]
    run [of "AppDeleteRoutingGroup k admin"] run [of AppReconcile] run [of "AppAddAudit admin action detail"]
    run [of "AppSaveWarpAccount account"] run [of "AppSaveWarpTest trace tested"]
  by (simp_all add: keeps_ignore)

end

sublocale site_invariant \<subseteq> page_invariant I
  by unfold_locales (auto simp: inert_def intro: world)

context site_invariant
begin

lemmas site_rules = keeps_ops page_rules keeps_pages keeps_tunnelPages keeps_world keeps_attempt keeps_upstreamViews
  keeps_case_prod

lemma keeps_wrapError: "keeps I m \<Longrightarrow> keeps I (wrapError msg args m)"
  unfolding wrapError_def mapError_def by (intro keeps_rules)

lemma keeps_warpConfigured: "keeps I (warpConfigured cfg)"
  unfolding warpConfigured_def by (intro page_rules; simp)

lemma keeps_registerExchange: "keeps I (registerExchange E W)"
  unfolding registerExchange_def registeredAccount_def
  by (intro site_rules keeps_wrapError) (auto intro!: site_rules keeps_wrapError split: list.split prod.split)

lemma keeps_warp: "keeps I (App_RegisterWarp (si_env S) W admin)" "keeps I (App_TestWarp (si_env S) admin)"
  unfolding App_RegisterWarp_def App_TestWarp_def
  by (intro site_rules keeps_wrapError keeps_warpConfigured keeps_registerExchange; simp)+

lemma keeps_StartUpgrade: "keeps I (App_StartUpgrade U u admin)"
  unfolding App_StartUpgrade_def by (intro site_rules)

lemma keeps_actions: "keeps I (groupAction S r)" "keeps I (tunnelAction S r k t)" "keeps I (postUpstream S r k stored v)"
  "keeps I (postTunnel S r k v)"
  unfolding groupAction_def tunnelAction_def postUpstream_def postTunnel_def Let_def by (intro site_rules)+

lemma keeps_saveAndApply: "(\<And>v. keeps I (f v)) \<Longrightarrow> keeps I (saveAndApply S v f)"
  unfolding saveAndApply_def by (intro site_rules)

lemma keeps_handlers:
  "keeps I (web_dashboard S r)" "keeps I (web_upstreams S r)" "keeps I (web_logout r)" "keeps I (web_resync S r)"
  "keeps I (web_resetSettings S r)" "keeps I (web_warpAction S r)" "keeps I (web_upgradeAction S r)" "keeps I (web_groups S r)"
  "keeps I (web_settings S r)" "keeps I (web_routing S r)" "keeps I (web_newUpstream S r)" "keeps I (web_upstream S r)"
  "keeps I (web_newTunnel S r)" "keeps I (web_tunnel S r)"
  unfolding web_dashboard_def web_upstreams_def web_logout_def web_resync_def web_resetSettings_def
    web_warpAction_def web_upgradeAction_def web_groups_def web_settings_def web_routing_def web_newUpstream_def web_upstream_def
    web_newTunnel_def web_tunnel_def Let_def
  by (intro site_rules keeps_warp keeps_StartUpgrade keeps_actions keeps_saveAndApply; simp)+

lemma keeps_login: "keeps I (web_login S r)"
  unfolding web_login_def App_Authenticate_def by (intro site_rules; simp)

lemma keeps_Handler: "keeps I (Handler S r)"
proof -
  have "keeps I (h r')" if "protected S path = Some h" for path h r'
    using that keeps_handlers unfolding protected_def by (auto split: if_splits)
  then have "keeps I (auth h r)" if "protected S path = Some h" for path h
    using that unfolding auth_def by (intro site_rules; simp)
  then have "keeps I (h r)" if "muxHandler S path = Some h" for path h
    using that keeps_login by (auto simp: muxHandler_def split: if_splits)
  then have "keeps I (serveMux S r)"
    unfolding serveMux_def Let_def by (intro site_rules; simp)
  then show ?thesis unfolding Handler_def by (intro site_rules)
qed

end

lemma keeps_run_app: "keeps (reachable_app E) (run_app E p)"
  unfolding keeps_def using app_step [OF _ surjective_pairing] by blast

interpretation reach: site_invariant S "reachable_app (si_env S)" for S
  by unfold_locales (auto intro: keeps_run_app app_world)

text \<open>
  The states of the daemon: it starts on a new file, serves requests in any order, reconciles when its
  ticker fires, ends and starts again on the file it left, and the world may change between any two of these.
\<close>

inductive reachable_site :: "'k site \<Rightarrow> 'k app \<Rightarrow> bool" for S :: "'k site" where
  site_start: "st_db (df_store f) = freshDB \<Longrightarrow>
     main_run (si_env S) flags mkdirErr openErr k f = (how, Some a) \<Longrightarrow> reachable_site S a"
| site_restart: "reachable_site S a \<Longrightarrow> st_db (df_store f) = adb a \<Longrightarrow>
     main_run (si_env S) flags mkdirErr openErr k f = (how, Some a') \<Longrightarrow> reachable_site S a'"
| site_request: "reachable_site S a \<Longrightarrow> Handler S r a = (resp, a') \<Longrightarrow> reachable_site S a'"
| site_tick: "reachable_site S a \<Longrightarrow> RunReconciler (si_env S) evs a = (r, a') \<Longrightarrow> reachable_site S a'"
| site_world: "reachable_site S a \<Longrightarrow> adb a' = adb a \<Longrightarrow> reachable_site S a'"

lemma keeps_Pair: "keeps I (Pair r)"
  by (simp add: keeps_def)

lemma keeps_RunReconciler: "keeps (reachable_app E) (RunReconciler E evs)"
proof (induction evs)
  case (Cons ev evs)
  then show ?case using keeps_run_app [of E AppReconcile] by (cases ev) (auto simp: keeps_Pair intro!: keeps_rules)
qed (simp add: keeps_Pair)

lemma keeps_main_start: "keeps (reachable_app E) (main_start E flags)"
  using keeps_run_app [of E AppReconcile] keeps_run_app [of E "AppBootstrapAdmin (fl_adminUser flags) (fl_adminPassword flags)"]
  unfolding main_start_def by (auto intro!: keeps_rules simp: keeps_Pair)

lemma current_settled: "current d \<Longrightarrow> upToDate d"
  by (simp add: current_def upToDate_def pending_def)

lemma main_run_reaches:
  assumes "upToDate (st_db (df_store f))" "\<And>b. adb b = st_db (df_store f) \<Longrightarrow> reachable_app E b"
    "main_run E flags mkdirErr openErr k f = (how, Some a)"
  shows "reachable_app E a"
proof -
  obtain s f' r where s: "OpenStore mkdirErr openErr f = (Inr s, f')" "main_start E flags (App_New s k) = (r, a)"
    using assms(3) by (auto simp: main_run_def split: if_splits prod.splits sum.splits)
  have "reachable_app E (App_New s k)"
    by (rule assms(2)) (simp add: App_New_def OpenStore_settled [OF s(1) assms(1)])
  then show ?thesis by (rule keepsD [OF keeps_main_start _ s(2)])
qed

text \<open>
  C4. The web server adds no state of its own making: every state the daemon reaches by serving
  requests and reconciling is one the application's operations reach, so that everything shown of those
  states (disjoint delegations, unique rows, sound placements) holds of the running daemon. A restart, with
  the migration of the database it runs, is no exception.
\<close>

theorem site_refines_application:
  assumes "reachable_site S a"
  shows "reachable_app (si_env S) a"
  using assms
proof (induction rule: reachable_site.induct)
  case (site_start f flags mkdirErr openErr k how a)
  have "upToDate (st_db (df_store f))" by (simp add: site_start(1) upToDate_def pending_def freshDB_def)
  moreover have "reachable_app (si_env S) b" if "adb b = st_db (df_store f)" for b
    using that site_start(1) app_fresh by metis
  ultimately show ?case using site_start(2) by (rule main_run_reaches)
next
  case (site_restart a f flags mkdirErr openErr k how a')
  have "upToDate (st_db (df_store f))"
    using reachable_current [OF site_restart.IH] by (simp add: site_restart(2) current_settled)
  moreover have "reachable_app (si_env S) b" if "adb b = st_db (df_store f)" for b
    using app_world [OF site_restart.IH] that site_restart(2) by simp
  ultimately show ?case using site_restart(3) by (rule main_run_reaches)
next
  case (site_request a r resp a')
  show ?case by (rule keepsD [OF reach.keeps_Handler site_request.IH site_request.hyps(2)])
next
  case (site_tick a evs r a')
  show ?case by (rule keepsD [OF keeps_RunReconciler site_tick.IH site_tick.hyps(2)])
next
  case (site_world a a')
  then show ?case using app_world by blast
qed

subsection \<open>A concrete site\<close>

definition demo_site :: "unit site" where
  "demo_site = \<lparr>si_env = plain_env,
     si_warp = \<lparr>wa_NewRequest = Inr (), wa_Do = (\<lambda>_. throw (LibErr ''offline'')), wa_Unmarshal = (\<lambda>_. Inl (LibErr ''json'')),
       wa_ParseTime = (\<lambda>_. 0), wa_FormatTime = (\<lambda>_. [])\<rparr>,
     si_os = \<lparr>uo_Getenv = (\<lambda>_. []), uo_Getwd = Inr ''/'', uo_ReadFile = (\<lambda>_ _. Inl ErrNotExist), uo_git = (\<lambda>_ _. ([], Some ErrNotExist)),
       uo_systemctl = (\<lambda>_. return ([], None)), uo_Parse = (\<lambda>_. None), uo_text = (\<lambda>_. [])\<rparr>,
     si_upgrader = None, si_token = (\<lambda>n. ''t'' @ dec n), si_qrcode = Inr\<rparr>"

definition demo_request :: "string \<Rightarrow> string \<Rightarrow> string option \<Rightarrow> (string \<times> string) list \<Rightarrow> request" where
  "demo_request verb path c form = \<lparr>rq_Method = verb, rq_Path = path, rq_RawQuery = [], rq_Query = (\<lambda>_. []), rq_Host = ''localhost:8080'',
     rq_TLS = False, rq_Header = (\<lambda>_. []), rq_Form = form, rq_Session = c\<rparr>"

definition demo_session :: session where
  "demo_session = \<lparr>s_Username = ''u'', s_CSRF = ''t1'', s_Expires = 10 ^ 30\<rparr>"

definition demo_app :: "unit app" where
  "demo_app = fresh_app\<lparr>app_sessions := [''t0'' \<mapsto> demo_session]\<rparr>"

definition logout_request :: request where
  "logout_request = demo_request POST ''/logout'' (Some ''t0'') [(''csrf'', ''t1'')]"

lemma demo_live: "authenticated demo_app logout_request demo_session"
  by (simp add: authenticated_def demo_app_def logout_request_def demo_request_def demo_session_def clockNow_def
      fresh_app_def quiet_store_def sample_store_def)

theorem unauthenticated_redirected_witness:
  "\<exists>a'. Handler demo_site (demo_request POST ''/resync'' (Some ''x'') []) demo_app
     = (Inr \<lparr>rs_Headers = securityHeaders, rs_Reply = Redirect 303 ''/login'' None\<rparr>, a') \<and> inert demo_app a'"
proof -
  let ?r = "demo_request POST ''/resync'' (Some ''x'') []"
  have "cleanPath ''/resync'' = ''/resync''" by code_simp
  then have "rq_Path ?r \<noteq> ''/login''" "\<not> authenticated demo_app ?r s" "rq_Path ?r \<noteq> ''/tunnels''" "cleanPath (rq_Path ?r) = rq_Path ?r" for s
    by (simp_all add: demo_request_def authenticated_def demo_app_def fresh_app_def)
  then show ?thesis using unauthenticated_redirected [of ?r demo_app demo_site] by auto
qed

lemma logout_runs: "app_sessions (snd (Handler demo_site logout_request demo_app)) ''t0'' = None"
proof -
  have "cleanPath ''/logout'' = ''/logout''" by code_simp
  then have "serveMux demo_site logout_request = auth web_logout logout_request"
    by (intro mux_runs) (simp_all add: dispatched_def muxHandler_def protected_def logout_request_def demo_request_def)
  then show ?thesis
    by (simp add: Handler_snd logout_request_def demo_request_def auth_def web_logout_def checkCSRF_def
      FormValue_def andThen_def demo_app_def demo_session_def onStore_def zoom_def Now_def fresh_app_def quiet_store_def sample_store_def)
qed

theorem changes_need_token_witness:
  "rq_Method logout_request = POST \<and> (\<exists>s. authenticated demo_app logout_request s \<and> FormValue logout_request ''csrf'' = s_CSRF s)"
proof (rule changes_need_token)
  show "rq_Path logout_request \<noteq> ''/login''" by (simp add: logout_request_def demo_request_def)
  show "\<not> inert demo_app (snd (Handler demo_site logout_request demo_app))"
    using logout_runs by (auto simp: inert_def demo_app_def)
qed

theorem logout_revokes_witness:
  "\<exists>resp a'. Handler demo_site logout_request demo_app = (Inr resp, a') \<and> app_sessions a' = (app_sessions demo_app)(''t0'' := None)"
  using logout_revokes [OF _ _ demo_live, of "''t0''" demo_site]
  by (force simp: logout_request_def demo_request_def FormValue_def demo_session_def)

definition login_request :: request where
  "login_request = demo_request POST ''/login'' None [(''username'', ''u''), (''password'', ''twelve chars'')]"

theorem login_opens_session_witness:
  "\<exists>resp a'. Handler demo_site login_request (snd (App_BootstrapAdmin plain_env ''u'' ''twelve chars'' fresh_app)) = (Inr resp, a') \<and>
     app_sessions a' \<noteq> Map.empty"
proof -
  let ?a = "snd (App_BootstrapAdmin plain_env ''u'' ''twelve chars'' fresh_app)"
  have "loginAllowed (e_unicode plain_env) login_request"
    "fst (App_Authenticate plain_env (FormValue login_request ''username'') (FormValue login_request ''password'') ?a) = Inr True"
    by code_simp+
  then have ok: "over_https (e_unicode plain_env) login_request \<or> to_loopback login_request"
    "credentials plain_env ?a (FormValue login_request ''username'') (FormValue login_request ''password'')"
    by (simp_all add: loginAllowed_iff Authenticate_iff)
  have "rq_Path login_request = ''/login''" "rq_Method login_request = POST" "si_env demo_site = plain_env"
    by (simp_all add: login_request_def demo_request_def demo_site_def)
  with login_opens_session [of login_request demo_site ?a] ok show ?thesis by force
qed

lemma main_run_app:
  assumes "is_ok (fst (OpenStore mkdirErr openErr f))" "\<not> fl_version flags"
  obtains how a where "main_run E flags mkdirErr openErr k f = (how, Some a)"
  using assms by (fastforce simp: main_run_def is_ok_iff split: prod.splits sum.splits)

theorem site_refines_application_witness:
  "\<exists>how a. main_run plain_env (defaultFlags (\<lambda>_. ''twelve chars'')) None None (app_kernel fresh_app) new_file = (how, Some a) \<and>
     reachable_app plain_env (snd (Handler demo_site logout_request a))"
proof -
  have env: "si_env demo_site = plain_env" by (simp add: demo_site_def)
  have new: "quiet (df_store new_file)" "upgradable (df_schema new_file)" "st_db (df_store new_file) = freshDB"
    by (simp_all add: new_file_def quiet_def quiet_store_def sample_store_def upgradable_def)
  have serve: "\<not> fl_version (defaultFlags (\<lambda>_. ''twelve chars''))" by (simp add: defaultFlags_def)
  have opened: "is_ok (fst (OpenStore None None new_file))" using OpenStore_upgradable [OF new(1,2)] by (metis fst_conv is_ok_simps(1))
  obtain how a where run: "main_run plain_env (defaultFlags (\<lambda>_. ''twelve chars'')) None None (app_kernel fresh_app) new_file = (how, Some a)"
    by (rule main_run_app [OF opened serve])
  have "reachable_site demo_site a" using site_start [OF new(3)] run by (metis env)
  then have "reachable_site demo_site (snd (Handler demo_site logout_request a))"
    by (rule site_request) (rule surjective_pairing)
  from site_refines_application [OF this] run show ?thesis by (simp add: env)
qed

subsection \<open>Settings behind a failed read\<close>

lemma settings_exec:
  "dbkeeps (\<lambda>d. db_settings d = c) (exec (db_tunnels_update f))" "dbkeeps (\<lambda>d. db_settings d = c) (exec (db_members_update f2))"
  "dbkeeps (\<lambda>d. db_settings d = c) (auditRow admin action tunnel detail now)"
  "dbkeeps (\<lambda>d. db_settings d = c) (setRow tunnel_uniques db_tunnels db_tunnels_update t_ID k f3)"
  unfolding auditRow_def setRow_def by (intro keeps_exec keeps_sql; simp add: Let_def split: option.split)+

lemma settings_assign: "dbkeeps (\<lambda>d. db_settings d = c) (assignIPv4 pool cfg byID used ts)"
  by (induction ts arbitrary: used) (auto intro!: keeps_rules settings_exec split: option.split)

lemma settings_methods:
  "dbkeeps (\<lambda>d. db_settings d = c) (Store_ResetMonthlyQuotas now)" "dbkeeps (\<lambda>d. db_settings d = c) (Store_EnsureIPv4Allocations cfg)"
  "dbkeeps (\<lambda>d. db_settings d = c) (Store_SetStatus k st msg)" "dbkeeps (\<lambda>d. db_settings d = c) (Store_UpdateTelemetry t now)"
  "dbkeeps (\<lambda>d. db_settings d = c) (Store_AddAudit admin action detail)"
  unfolding Store_ResetMonthlyQuotas_def Store_EnsureIPv4Allocations_def Store_SetStatus_def Store_UpdateTelemetry_def
    Store_AddAudit_def ensureIPv4AllocationsTx_def Let_def
  by (intro keeps_rules settings_exec settings_assign)+

interpretation kept: reconcile_invariant "\<lambda>d. db_settings d = c" for c
  by unfold_locales (rule settings_methods)+

interpretation settings_of: page_invariant "\<lambda>a. db_settings (adb a) = c" for c
  by unfold_locales (simp add: inert_def)

lemma routing_saves:
  assumes "rq_Method r = POST" "checkCSRF r" "readOr zeroSettings (onStore Store_Settings) a = (Inr cfg, a1)"
    and "readOr [] (onStore Store_Tunnels) a1 = (Inr ts, a2)"
    and "App_SaveSettings (cfg\<lparr>InterTunnelPolicy := field r ''inter_tunnel_policy''\<rparr>) a2 = (Inr (), a3)"
  shows "db_settings (adb (snd (web_routing S r a))) = db_settings (adb a3)"
proof -
  let ?I = "\<lambda>b. db_settings (adb b) = db_settings (adb a3)"
  have ops: "keeps ?I (reconcileLocked E)" "keeps ?I (onStore (Store_AddAudit admin action detail))" for E :: "'a env" and admin action detail
    using kept.reconcile leads_keeps [OF settings_methods(5)] unfolding leads_keeps_iff by blast+
  have saved: "errorOf (App_SaveSettings (cfg\<lparr>InterTunnelPolicy := field r ''inter_tunnel_policy''\<rparr>)) a2 = (Inr None, a3)"
    using assms(5) by (simp add: errorOf_def catching_def attempt_def andThen_def)
  define v where "v = (noticed r (base r))\<lparr>v_Title := ''Inter-tunnel routing'', v_Tunnels := ts,
     v_Settings := cfg\<lparr>InterTunnelPolicy := field r ''inter_tunnel_policy''\<rparr>\<rparr>"
  define f :: "view \<Rightarrow> ('a app, view) action" where
    "f = (\<lambda>v. andThen (catching (onStore (Store_AddAudit (v_User v) ''routing-policy'' (InterTunnelPolicy (v_Settings v))))) (\<lambda>_.
         andThen (readOr zeroSettings (onStore Store_Settings)) (\<lambda>cfg.
         return (v\<lparr>v_Notice := ''Inter-tunnel routing policy saved and applied'', v_Settings := cfg\<rparr>))))"
  have v: "v_Settings v = cfg\<lparr>InterTunnelPolicy := field r ''inter_tunnel_policy''\<rparr>"
    "web_routing S r a = andThen (saveAndApply S v f) routingPage a2"
    using assms(1-4) by (simp_all add: web_routing_def Let_def v_def f_def)
  have f: "keeps ?I (f v)" for v unfolding f_def by (intro ops settings_of.page_rules readonly_queries)
  define apply_saved :: "('a app, view) action" where
    "apply_saved = andThen (errorOf (reconcileLocked (si_env S))) (\<lambda>err. case err of
         Some e \<Rightarrow> return (v\<lparr>v_Error := ''Saved, but reconcile failed: '' @ errText S e\<rparr>) | None \<Rightarrow> f v)"
  have "saveAndApply S v f = andThen (errorOf (App_SaveSettings (v_Settings v))) (\<lambda>err. case err of
       Some e \<Rightarrow> return (v\<lparr>v_Error := errText S e\<rparr>) | None \<Rightarrow> apply_saved)"
    unfolding saveAndApply_def apply_saved_def ..
  then have "web_routing S r a = andThen apply_saved routingPage a3" using v saved by (simp add: andThen_def)
  moreover have "keeps ?I (andThen apply_saved routingPage)"
    unfolding apply_saved_def by (intro settings_of.page_rules settings_of.keeps_pages ops f)
  ultimately show ?thesis by (simp add: keeps_def)
qed

text \<open>A driver that refuses the next statement and no other.\<close>

definition next_refused :: "store \<Rightarrow> bool" where
  "next_refused s \<longleftrightarrow> (\<forall>n. st_fault s n \<longleftrightarrow> n = st_calls s)"

definition accepting :: "store \<Rightarrow> bool" where
  "accepting s \<longleftrightarrow> (\<forall>n\<ge>st_calls s. \<not> st_fault s n)"

lemma read_settings_refused:
  assumes "next_refused (app_store a)"
  obtains a1 where "readOr zeroSettings (onStore Store_Settings) a = (Inr zeroSettings, a1)" "accepting (app_store a1)"
  using assms that [of "a\<lparr>app_store := (app_store a)\<lparr>st_calls := Suc (st_calls (app_store a))\<rparr>\<rparr>"]
  by (simp add: readOr_def catching_def attempt_def andThen_def onStore_def zoom_def Store_Settings_def query_def sql_def Let_def
      next_refused_def accepting_def)

lemma accepting_query: "accepting s \<Longrightarrow> query f s = (Inr (f (st_db s)), s\<lparr>st_calls := Suc (st_calls s)\<rparr>)"
  by (simp add: accepting_def query_def sql_def Let_def)

lemma accepting_Suc: "accepting s \<Longrightarrow> accepting (s\<lparr>st_calls := Suc (st_calls s)\<rparr>)"
  by (simp add: accepting_def)

lemma accepting_tunnels:
  assumes "accepting s"
  shows "\<exists>ts s'. Store_Tunnels s = (Inr ts, s') \<and> accepting s'"
  using accepting_Suc [OF assms] accepting_Suc [OF accepting_Suc [OF assms]]
  by (simp add: Store_Tunnels_def queryTunnels_def loadRoutingMemberships_def andThen_def accepting_query [OF assms]
      accepting_query [OF accepting_Suc [OF assms]])

lemma accepting_save:
  assumes "accepting s" "\<not> V4NAT v" "\<not> V4Warp v"
  shows "\<exists>s'. Store_SaveSettings v s = (Inr (), s') \<and> db_settings (st_db s') = v"
  using assms by (simp add: Store_SaveSettings_def tx_def rollback_def andThen_def accepting_def query_def exec_def sql_def Let_def)

text \<open>
  C40. A failed read erases settings: the routing page ignores the error of reading the settings and saves
  what it holds. Whenever an administrator posts a valid inter-tunnel policy to it and the driver refuses that
  one read, the stored settings become empty but for the policy: the address pool, the DNS server and the
  IPv4 egress of the deployment are lost.
\<close>

theorem failed_read_erases_settings:
  assumes "rq_Path r = ''/routing''" "rq_Method r = POST" "authenticated a r s" "FormValue r ''csrf'' = s_CSRF s"
    and "field r ''inter_tunnel_policy'' = policy" "policy = ''isolated'' \<or> policy = ''groups'' \<or> policy = ''any''"
    and "next_refused (app_store a)"
  shows "db_settings (adb (snd (Handler S r a))) =
    \<lparr>V4NAT = False, V4Warp = False, V4Pool = [], DefaultDNS = [], InterTunnelPolicy = policy\<rparr>"
proof -
  let ?r = "as_user r s" and ?a = "snd (onStore Now a)" and ?new = "zeroSettings\<lparr>InterTunnelPolicy := policy\<rparr>"
  have "cleanPath ''/routing'' = ''/routing''" by code_simp
  then have "serveMux S r = auth (web_routing S) r"
    using assms(1) by (intro mux_runs) (simp_all add: dispatched_def muxHandler_def protected_def HasPrefix_def)
  then have run: "snd (Handler S r a) = snd (web_routing S ?r ?a)" using auth_runs [OF assms(3)] by (simp add: Handler_snd)
  have post: "rq_Method ?r = POST" "checkCSRF ?r" "field ?r ''inter_tunnel_policy'' = policy"
    using assms(2,4,5) by (simp_all add: as_user_def checkCSRF_def FormValue_def field_def)
  have "next_refused (app_store ?a)" using assms(7) by (simp add: onStore_def zoom_def Now_def next_refused_def)
  then obtain a1 where a1: "readOr zeroSettings (onStore Store_Settings) ?a = (Inr zeroSettings, a1)" "accepting (app_store a1)"
    by (rule read_settings_refused)
  obtain ts s2 where s2: "Store_Tunnels (app_store a1) = (Inr ts, s2)" "accepting s2" using accepting_tunnels [OF a1(2)] by blast
  then have a2: "readOr [] (onStore Store_Tunnels) a1 = (Inr ts, a1\<lparr>app_store := s2\<rparr>)"
    by (simp add: readOr_def catching_def attempt_def andThen_def onStore_def zoom_def)
  have new: "\<not> V4NAT ?new" "\<not> V4Warp ?new" "validateSettings ?new = None" "policy \<noteq> []"
    using assms(6) by (auto simp: zeroSettings_def validateSettings_def validInterTunnelPolicy_def policy_defs)
  obtain s3 where s3: "Store_SaveSettings ?new s2 = (Inr (), s3)" "db_settings (st_db s3) = ?new"
    using accepting_save [OF s2(2) new(1,2)] by blast
  have "App_SaveSettings ?new (a1\<lparr>app_store := s2\<rparr>) = (Inr (), a1\<lparr>app_store := s3\<rparr>)"
    using new s3(1) by (simp add: App_SaveSettings_def Let_def andThen_def onStore_def zoom_def check_def)
  from routing_saves [OF post(1,2) a1(1) a2, unfolded post(3), OF this, of S] s3(2) run show ?thesis
    by (simp add: zeroSettings_def)
qed

definition routing_request :: request where
  "routing_request = demo_request POST ''/routing'' (Some ''t0'') [(''csrf'', ''t1''), (''inter_tunnel_policy'', ''any'')]"

text \<open>The driver refuses the first statement only.\<close>

definition flaky_app :: "unit app" where
  "flaky_app = demo_app\<lparr>app_store := (app_store demo_app)\<lparr>st_fault := (\<lambda>n. n = st_calls (app_store demo_app))\<rparr>\<rparr>"

theorem failed_read_erases_settings_witness:
  "V4Pool (db_settings (adb flaky_app)) = ''10.99.0.0/16'' \<and> DefaultDNS (db_settings (adb flaky_app)) = ''2606:4700:4700::1111'' \<and>
   V4Pool (db_settings (adb (snd (Handler demo_site routing_request flaky_app)))) = [] \<and>
   DefaultDNS (db_settings (adb (snd (Handler demo_site routing_request flaky_app)))) = []"
proof -
  have live: "authenticated flaky_app routing_request demo_session"
    by (simp add: authenticated_def flaky_app_def demo_app_def routing_request_def demo_request_def demo_session_def clockNow_def
        fresh_app_def quiet_store_def sample_store_def)
  have "rq_Path routing_request = ''/routing''" "rq_Method routing_request = POST" "FormValue routing_request ''csrf'' = s_CSRF demo_session"
    "field routing_request ''inter_tunnel_policy'' = ''any''" "V4Pool (db_settings (adb flaky_app)) = ''10.99.0.0/16''"
    "DefaultDNS (db_settings (adb flaky_app)) = ''2606:4700:4700::1111''"
    by code_simp+
  moreover have "next_refused (app_store flaky_app)" by (simp add: next_refused_def flaky_app_def)
  ultimately show ?thesis using failed_read_erases_settings [OF _ _ live, of "''any''" demo_site] by simp
qed

end
