(* ===== verification/Warp_Properties.thy ===== *)
theory Warp_Properties
  imports Warp Service_Properties
begin

section \<open>Properties of WARP registration\<close>

text \<open>Whatever the provider answers, the stored account is one the kernel driver accepts.\<close>

definition usable :: "'k env \<Rightarrow> warp_account \<Rightarrow> bool" where
  "usable E acc \<longleftrightarrow> Exists acc \<and> e_validKey E (w_PeerPublicKey acc) \<and> (\<exists>x. ParseAddr (w_IPv4Address acc) = Some x \<and> Is4 x)"

lemma registeredAddress_Inr: "registeredAddress s = Inr x \<Longrightarrow> Is4 x"
  by (auto simp: registeredAddress_def Let_def split: option.splits if_splits)

lemma print_Is4: "Is4 x \<Longrightarrow> ParseAddr (addrString x) = Some x \<and> addrString x \<noteq> []"
proof -
  assume "Is4 x"
  then have "ParseAddr (addrString x) = Some x" using addr_text.parse_print [of x] by (cases x) auto
  moreover have "ParseAddr [] = None" by code_simp
  ultimately show ?thesis by auto
qed

lemma registerExchange_usable:
  assumes "registerExchange E W a = (Inr acc, a')"
    and "\<And>n k. e_key E n = Inr k \<Longrightarrow> k \<noteq> []" "\<not> e_validKey E []"
  shows "usable E acc"
proof -
  obtain n key registered b b' where "e_key E n = Inr key" and r: "registeredAccount E W key registered b = (Inr acc, b')"
    using assms(1) by (auto simp: registerExchange_def andThen_Inr draw_def split: prod.splits)
  then have k: "key \<noteq> []" using assms(2) by blast
  from r obtain x where "e_validKey E (w_PeerPublicKey acc)" "Is4 x" "TrimSpace (w_Endpoint acc) \<noteq> []"
    "w_PrivateKey acc = key" "w_IPv4Address acc = addrString x"
    by (fastforce simp: registeredAccount_def andThen_Inr split: list.splits if_splits dest!: registeredAddress_Inr)
  moreover have "TrimSpace [] = []" by code_simp
  ultimately show ?thesis using k assms(3) print_Is4 [of x] by (auto simp: usable_def Exists_def)
qed

lemma registerExchange_readonly: "readonly (registerExchange E W)"
  unfolding registerExchange_def registeredAccount_def wrapError_def
  by (intro readonly_andThen readonly_mapError readonly_simple readonly_queries)
     (auto intro!: readonly_andThen readonly_mapError split: list.split prod.split)

lemma warp_exec:
  "dbkeeps (\<lambda>d. db_warp d = w) (exec (db_tunnels_update f))" "dbkeeps (\<lambda>d. db_warp d = w) (exec (db_members_update f2))"
  "dbkeeps (\<lambda>d. db_warp d = w) (auditRow admin action tunnel detail now)"
  "dbkeeps (\<lambda>d. db_warp d = w) (setRow tunnel_uniques db_tunnels db_tunnels_update t_ID k f3)"
  unfolding auditRow_def setRow_def by (intro keeps_exec keeps_sql; simp add: Let_def split: option.split)+

lemma warp_assign: "dbkeeps (\<lambda>d. db_warp d = w) (assignIPv4 pool cfg byID used ts)"
  by (induction ts arbitrary: used) (auto intro!: keeps_rules warp_exec split: option.split)

lemma warp_methods:
  "dbkeeps (\<lambda>d. db_warp d = w) (Store_ResetMonthlyQuotas now)" "dbkeeps (\<lambda>d. db_warp d = w) (Store_EnsureIPv4Allocations cfg)"
  "dbkeeps (\<lambda>d. db_warp d = w) (Store_SetStatus k st msg)" "dbkeeps (\<lambda>d. db_warp d = w) (Store_UpdateTelemetry t now)"
  "dbkeeps (\<lambda>d. db_warp d = w) (Store_AddAudit admin action detail)"
  unfolding Store_ResetMonthlyQuotas_def Store_EnsureIPv4Allocations_def Store_SetStatus_def Store_UpdateTelemetry_def
    Store_AddAudit_def ensureIPv4AllocationsTx_def Let_def
  by (intro keeps_rules warp_exec warp_assign)+

interpretation warp: reconcile_invariant "\<lambda>d. db_warp d = w" for w
  by unfold_locales (rule warp_methods)+

lemma leadsD: "leads P I m \<Longrightarrow> P (adb a) \<Longrightarrow> m a = (r, a') \<Longrightarrow> I (adb a')"
  by (auto simp: leads_def dest: spec [of _ a])

lemma readonly_warpConfigured: "readonly (warpConfigured cfg)"
  unfolding warpConfigured_def by (intro readonly_andThen readonly_if readonly_queries readonly_simple)

text \<open>
  C31. A registration stores a usable account or none: however it ends, the stored account is the one that
  was there before, or one with all the parts a path through WARP needs, a valid peer key and an IPv4 address
  that parses; when it succeeds it is the account returned.
\<close>

theorem registered_account_usable:
  assumes "App_RegisterWarp E W admin a = (r, a')"
    and "\<And>n k. e_key E n = Inr k \<Longrightarrow> k \<noteq> []" "\<not> e_validKey E []"
  shows "(case r of
      Inr acc \<Rightarrow> usable E acc \<and> db_warp (adb a') = Some (acc\<lparr>w_LastTrace := [], w_LastTestAt := 0\<rparr>)
    | Inl _ \<Rightarrow> db_warp (adb a') = db_warp (adb a) \<or> (\<exists>acc. usable E acc \<and> db_warp (adb a') = Some (acc\<lparr>w_LastTrace := [], w_LastTestAt := 0\<rparr>)))"
proof (cases "registerExchange E W a")
  case (Pair r0 b)
  have b: "adb b = adb a" using registerExchange_readonly [of E W] Pair by (auto simp: readonly_def dest: spec [of _ a])
  show ?thesis
  proof (cases r0)
    case (Inl e)
    then show ?thesis using assms(1) Pair b by (auto simp: App_RegisterWarp_def)
  next
    case (Inr acc)
    have ok: "usable E acc" using registerExchange_usable assms(2,3) Pair Inr by blast
    let ?w = "Some (acc\<lparr>w_LastTrace := [], w_LastTestAt := 0\<rparr>)"
    let ?rest = "\<lambda>_. andThen (attempt (onStore (Store_AddAudit admin ''warp-register'' (''device '' @ w_DeviceID acc)))) (\<lambda>_.
       andThen (onStore Store_Settings) (\<lambda>cfg. andThen (warpConfigured cfg) (\<lambda>configured.
       andThen (if configured then wrapError ''WARP account saved but apply failed: %w'' [] (reconcileLocked E) else return ()) (\<lambda>_.
       return acc))))"
    obtain r1 c where save: "onStore (Store_SaveWarpAccount acc) b = (r1, c)" by (cases "onStore (Store_SaveWarpAccount acc) b")
    have run: "andThen (onStore (Store_SaveWarpAccount acc)) ?rest b = (r, a')"
      using assms(1) Pair Inr by (simp add: App_RegisterWarp_def)
    have rest: "leads (\<lambda>d. db_warp d = ?w) (\<lambda>d. db_warp d = ?w) (?rest ())"
      unfolding wrapError_def
      by (intro leads_rules leads_keeps [OF warp_methods(5)] warp.reconcile) (simp_all add: readonly_warpConfigured)
    show ?thesis
    proof (cases r1)
      case (Inl e)
      then have "r = Inl e" "a' = c" "adb c = adb b" using run save
        by (auto simp: onStore_def zoom_def Store_SaveWarpAccount_def exec_def sql_def Let_def split: if_splits)
      then show ?thesis using b by simp
    next
      case (Inr u)
      then have "db_warp (adb c) = ?w" using save
        by (auto simp: onStore_def zoom_def Store_SaveWarpAccount_def exec_def sql_def Let_def split: if_splits)
      moreover have "?rest () c = (r, a')" using run save Inr by simp
      ultimately have "db_warp (adb a') = ?w" by (rule leadsD [OF rest])
      moreover have "acc' = acc" if "r = Inr acc'" for acc'
        using \<open>?rest () c = (r, a')\<close> that by (auto simp: andThen_Inr)
      ultimately show ?thesis using ok by (auto split: sum.split)
    qed
  qed
qed

definition key_env :: "unit env" where
  "key_env = plain_env\<lparr>e_validKey := (\<lambda>k. k \<noteq> [])\<rparr>"

definition answering :: "unit warp_api" where
  "answering = \<lparr>wa_NewRequest = Inr (), wa_Do = (\<lambda>_. return (200, Inr ''body'')),
     wa_Unmarshal = (\<lambda>_. Inr \<lparr>wr_ID = ''d'', wr_Created = [], wr_AccountID = ''a'', wr_AccountType = ''free'', wr_WarpPlus = False,
       wr_V4 = ''172.16.0.2'', wr_Peers = [\<lparr>wp_PublicKey = ''k'', wp_Host = ''h:2408''\<rparr>]\<rparr>),
     wa_ParseTime = (\<lambda>_. 0), wa_FormatTime = (\<lambda>_. [])\<rparr>"

theorem registered_account_usable_witness:
  "\<exists>acc a'. App_RegisterWarp key_env answering ''x'' fresh_app = (Inr acc, a') \<and> usable key_env acc \<and> db_warp (adb a') \<noteq> None"
proof -
  have "is_ok (fst (App_RegisterWarp key_env answering ''x'' fresh_app))" by code_simp
  then obtain acc a' where run: "App_RegisterWarp key_env answering ''x'' fresh_app = (Inr acc, a')"
    by (cases "App_RegisterWarp key_env answering ''x'' fresh_app") (auto simp: is_ok_iff)
  have "dec n \<noteq> []" for n by (subst digits.simps) simp
  then have "\<And>n k. e_key key_env n = Inr k \<Longrightarrow> k \<noteq> []" "\<not> e_validKey key_env []" by (auto simp: key_env_def plain_env_def)
  from registered_account_usable [OF run this] show ?thesis using run by auto
qed

end
