(* ===== verification/Spec2Isabelle.thy ===== *)
theory Spec2Isabelle
  imports Web_Properties Warp_Properties Schema
begin

text \<open>
  \<^bold>\<open>Open Tunnel Broker: a verification of the daemon\<close>

  The daemon hands out IPv6 prefixes over WireGuard. An administrator configures \<^emph>\<open>connections\<close>
  (upstreams) to providers, each with a delegated prefix, an egress interface and a WireGuard interface of
  its own; a \<^emph>\<open>tunnel\<close> belongs to a connection, gets a prefix from its delegation and optionally an
  internal IPv4 address. State is in an SQLite database (\<open>store.go\<close>); the application (\<open>service.go\<close>) validates
  every change, writes it and then reconciles the kernel with the database (\<open>network.go\<close>, \<open>firewall.go\<close>,
  \<open>ndp.go\<close>, \<open>ndp_linux.go\<close>); the web server (\<open>web.go\<close>) maps requests to operations of the application, and
  \<open>main.go\<close> puts the parts together. \<open>allocator.go\<close> chooses prefixes, \<open>warp.go\<close> registers a Cloudflare WARP
  account as another way out, \<open>upgrade.go\<close> starts an upgrade of the program itself.

  \<^bold>\<open>Theories and sources\<close> (all sources under \<open>src/internal/broker/\<close> unless said otherwise)

  \<^item> \<open>Broker_Prelude\<close>: errors as values, shared names, named collections of facts. \<open>Effects\<close>: a Go method
    with state is an \<open>action\<close>, a total function from a state to a result and a state, with a calculus of
    triples and of properties an action keeps.
  \<^item> \<open>Go_Lib\<close>, \<open>Netip\<close>, \<open>Netip_Text\<close>, \<open>Netip_Blocks\<close>, \<open>Go_Http\<close>: what the code uses of Go's library:
    \<open>strings\<close>, \<open>strconv\<close>, UTF-8, \<open>net/netip\<close> on 32 and 128 bit words with its parser and printer, HTTP requests.
    The locale \<open>text_codec\<close> is the contract that printing and parsing are inverse; \<open>block_tree\<close> is the tree of
    aligned address blocks.
  \<^item> \<open>Models\<close> (\<open>models.go\<close>): the structs and the functions on them.
  \<^item> \<open>Allocator\<close> (\<open>allocator.go\<close>): counting and selecting free prefixes. The locale \<open>block_allocator\<close> extends
    \<open>block_tree\<close>; both are interpreted on IPv6 prefixes.
  \<^item> \<open>Ndp\<close> (\<open>ndp.go\<close>) and \<open>Ndp_Responder\<close> (\<open>ndp_linux.go\<close>): Neighbor Discovery messages on bytes with their
    checksum, the sets of addresses to answer for, the socket filter, the listeners and their manager.
  \<^item> \<open>Upstream_Config\<close> (\<open>service.go\<close>): validation and normalisation, and the client's configuration text.
  \<^item> \<open>Database\<close>, \<open>Store\<close> (\<open>store.go\<close>): tables as lists of rows and the SQL on them, one action per method, named
    \<open>Store_<method>\<close>; the locale \<open>row_table\<close> is a table with an integer key, interpreted on every table.
    \<open>Store_Integrity\<close>, \<open>Store_Properties\<close>, \<open>Store_Accounting\<close> hold what the methods guarantee.
    \<open>Migrations\<close> and \<open>Schema\<close> open a file an earlier release wrote.
  \<^item> \<open>Service\<close> (\<open>service.go\<close>): one action per method of \<open>App\<close>, named \<open>App_<method>\<close>, on the record \<open>app\<close> (the
    store, the kernel, the health record, the sessions). \<open>Service_Safety\<close> defines the address invariant,
    \<open>Service_Reach\<close> the application as a state machine (\<open>app_op\<close>, \<open>run_app\<close>, \<open>reachable_app\<close>) with the locale
    \<open>reconcile_invariant\<close> for what a reconciliation keeps, \<open>Service_Properties\<close> the consequences. \<open>Service_Rows\<close>
    has the locale \<open>store_invariant\<close>: what every method of the store keeps, every operation of the application keeps.
  \<^item> \<open>Firewall\<close> (\<open>firewall.go\<close>) and \<open>Firewall_Policy\<close>: the nftables script as commands with their text, and
    the meaning of the commands for packets.
  \<^item> \<open>Network\<close> (\<open>network.go\<close>) and \<open>Network_Properties\<close>: the Linux driver \<open>Kernel_Apply\<close>, \<open>Kernel_Inspect\<close>,
    \<open>Kernel_Remove\<close>, \<open>Kernel_RemoveUpstream\<close>, \<open>Kernel_TestWarp\<close>, and policy routing.
  \<^item> \<open>Warp\<close>, \<open>Warp_Properties\<close> (\<open>warp.go\<close>); \<open>Upgrade\<close> (\<open>upgrade.go\<close>).
  \<^item> \<open>Web\<close> (\<open>web.go\<close>): \<open>Handler\<close>, the routing of \<open>serveMux\<close>, sessions, CSRF tokens and every handler.
    \<open>Daemon\<close> (\<open>src/cmd/open-tunnelbroker/main.go\<close>, \<open>network_other.go\<close>): flags, \<open>main_run\<close> from the file
    to the running application, and the driver of other systems.
    \<open>Web_Properties\<close> has the locales \<open>page_invariant\<close> (what reading a page keeps) and \<open>site_invariant\<close> (what every
    request keeps).

  \<^bold>\<open>What is proved\<close>

  \<^item> \<^emph>\<open>Addresses.\<close> In every reachable state connections coexist, each tunnel's prefix is aligned, inside its
    delegation and outside the server's reservation, and no two tunnels overlap; a creation adds one allocation
    or reports an error. It rests on the allocator: a result is free and of the requested length, the indices
    given to the random choice correspond one to one to the free prefixes, the counting recursion is the
    cardinality, and exhaustion is reported exactly when nothing is free.
  \<^item> \<^emph>\<open>Packets.\<close> The filter forwards exactly what connections, WARP and the inter-tunnel policy permit, a
    packet leaves only through its own provider, masquerading is exact, and names cannot add lines to the
    script. The permission is stated on its own: which interfaces, which addresses a tunnel holds and which
    tunnels share a group. With two or more connections the policy rules send a delegated source to the table of
    its provider; reconciling the rules leaves the rules of other priorities alone, ends with the desired ones
    and is stable, as long as every rule it finds at its own priorities names a source or a destination; the
    lemma \<open>broad_rule_displaces_wanted\<close> shows what happens otherwise. Loading the script tries \<open>nft\<close> a
    bounded number of times. A dry run does not touch the kernel, in the test of the WARP connection neither.
  \<^item> \<^emph>\<open>Neighbor Discovery.\<close> A frame is answered exactly when its bytes are a valid solicitation for a proxied target;
    the socket filter drops nothing that would be answered; the advertisement's checksum verifies;
    reconfiguration reaches the wanted sets and leaks no descriptor.
  \<^item> \<^emph>\<open>Store.\<close> Keys, UNIQUE columns, memberships and quota marks stay consistent; a method that fails has changed
    no row; a tunnel reads back as written, column by column; internal IPv4 addresses go to the tunnels that need
    one, are unique and complete, and the assignment fails only for want of a pool or of addresses; traffic is
    charged exactly over resets and changes of the month, and a tunnel is enabled exactly when the quota and the
    administrator permit, on 64-bit integers. A new file, and a file that lacks only the columns the migration can
    add (all it adds but \<open>upstream_id\<close> of the tunnels), is opened with its settings row; the single connection of earlier releases is converted
    with all its values.
  \<^item> \<^emph>\<open>Web.\<close> A request changes state only as a POST with a live session and its token, or as a login; a login
    opens one session of twelve hours, over HTTPS or loopback and with valid credentials; without a session every
    other path redirects, to the login page or, where the mux redirects by itself, to the clean path.
    Every state the daemon reaches by its start on a new file, by requests, reconciliations and restarts on the
    file it left is one the application's operations reach, so the address invariant holds for the whole site.
  \<^item> \<^emph>\<open>Behaviour that differs from its description\<close>, as theorems: a tunnel switched off by hand after reaching
    its quota is switched on by the monthly reset once its counters were sampled again; a refused read on the
    routing page makes the save erase the pool and the DNS server; a file of a release with a single connection is never opened, because an index
    on a column is created before the column is added; a converted connection that is deleted returns at the next
    start; two tunnels on both sides of the server's transport address derive the same client address; a rule
    with neither source nor destination at a priority of the application makes a pass remove a desired rule.

  \<^bold>\<open>Parameters and hypotheses\<close>

  Code outside the repository is an argument of the definitions: the SQL driver's failures and the clock (fields
  of \<open>store\<close>: any call may fail), the kernel, netlink, WireGuard, \<open>nft\<close> and the file system (\<open>os_api\<close>,
  \<open>ndp_sys\<close>), keys, randomness and bcrypt (\<open>env\<close>), the HTTP client and JSON decoder of WARP (\<open>warp_api\<close>), git and
  systemd (\<open>upgrade_os\<close>), session tokens and the QR encoder (\<open>site\<close>), and the tables of the \<open>unicode\<close> package.
  Most theorems hold for every choice. The convergence of policy rules assumes that adding and deleting a rule
  does to the kernel's list what netlink documents (\<open>rule_laws\<close>) and that every rule found at priorities 80
  and 110 has exactly one canonical source or destination (\<open>ours\<close>), as every rule the program adds has; the first administrator's theorem that
  the driver answers the query of the login; the WARP theorem that generated keys are not empty and
  the empty key is not valid; the opening of a file that the driver fails no call. Each has a witness with
  concrete functions.

  \<^bold>\<open>Bounds\<close>

  There is no fuel: every loop is a structural recursion or a \<open>function\<close> with a measure (the address left in a
  pool, the bits of a prefix, the bytes of a string, the carries of a checksum), and the receive loop and the
  reconciler run over a list of the events they select. Counters and sizes the code keeps in machine integers are
  words or integers with the wrap-around or saturation written out.

  \<^bold>\<open>Not modelled\<close>

  The HTML of the templates and their formatting functions (output only); the HTTP listener, signals and graceful
  shutdown of \<open>main.go\<close>, and the deployment files (I/O and configuration); URL parsing, JSON and the HTTP client,
  which are parameters; the escaping of paths in the redirects of \<open>http.ServeMux\<close>; types, defaults and constraints of columns
  beyond those the statements check (the values of the columns only earlier releases had are a field of the
  rows, \<open>db_legacy\<close>, beside the list of column names); the limit of row identifiers at 2^63; the interleaving of two handlers between operations of the application,
  each of which holds the application's lock (a handler is one action). Methods that only delegate (\<open>App.Settings\<close>,
  \<open>App.Upstreams\<close>, \<open>App.Reconcile\<close> and the like) are the definitions they call.
\<close>

end
